(* ===== verification/Prelude.thy ===== *)
theory Prelude
  imports Main "HOL-Library.Word"
begin

text \<open>
  Shared ground of the development: machine integers, the result of a Rust computation,
  checked and panicking slice access, native-endian integer reads, and decimal and
  hexadecimal formatting.

  \<^item> A Rust integer of width \<open>w\<close> is a \<open>w word\<close>; a signed one is the same word, read with
    \<open>sint\<close>.  A \<open>usize\<close> is a \<open>nat\<close>: every \<open>usize\<close> of the program is a length, an index or an
    offset that stays far below \<open>2 ^ 64\<close>, and each subtraction of the code is modelled with
    its saturation or its underflow panic written out.
  \<^item> A \<open>&[u8]\<close>, \<open>Vec<u8>\<close> or \<open>Bytes\<close> is a list of bytes.
  \<^item> A Rust function that may fail returns an \<open>outcome\<close>: \<open>Ok\<close>, \<open>Err\<close>, or \<open>Panic\<close> for an
    out-of-range index, a failed \<open>unwrap\<close> or an arithmetic overflow under overflow checks.
  \<^item> \<open>from_ne_bytes\<close> is little-endian, as on the x86 hosts the source is written for.
\<close>

unbundle bit_operations_syntax

named_theorems outcome_simps
named_theorems read_simps

type_synonym u8 = "8 word"
type_synonym u16 = "16 word"
type_synonym u32 = "32 word"
type_synonym u64 = "64 word"
type_synonym i16 = "16 word"
type_synonym i32 = "32 word"
type_synonym i64 = "64 word"
type_synonym usize = nat
type_synonym bytes = "u8 list"

lemma unat_u8_less [simp]: "unat (b :: u8) < 256"
  using unsigned_less [of b, where 'a = nat] by simp

lemma unat_u16_less [simp]: "unat (b :: u16) < 65536"
  using unsigned_less [of b, where 'a = nat] by simp

lemma unat_u32_less [simp]: "unat (b :: u32) < 4294967296"
  using unsigned_less [of b, where 'a = nat] by simp

lemma unat_u64_less [simp]: "unat (b :: u64) < 18446744073709551616"
  using unsigned_less [of b, where 'a = nat] by simp

section \<open>Outcomes\<close>

datatype ('e, 'a) outcome = Ok 'a | Err 'e | Panic

fun obind :: "('e, 'a) outcome \<Rightarrow> ('a \<Rightarrow> ('e, 'b) outcome) \<Rightarrow> ('e, 'b) outcome" where
  "obind (Ok a) f = f a"
| "obind (Err e) f = Err e"
| "obind Panic f = Panic"

fun map_err :: "('e \<Rightarrow> 'f) \<Rightarrow> ('e, 'a) outcome \<Rightarrow> ('f, 'a) outcome" where
  "map_err g (Ok a) = Ok a"
| "map_err g (Err e) = Err (g e)"
| "map_err g Panic = Panic"

text \<open>\<open>Result::unwrap\<close> and \<open>Option::ok_or\<close>.\<close>

fun unwrap :: "('f, 'a) outcome \<Rightarrow> ('e, 'a) outcome" where
  "unwrap (Ok a) = Ok a"
| "unwrap (Err e) = Panic"
| "unwrap Panic = Panic"

fun ok_or :: "'a option \<Rightarrow> 'e \<Rightarrow> ('e, 'a) outcome" where
  "ok_or (Some a) e = Ok a"
| "ok_or None e = Err e"

fun unwrap_opt :: "'a option \<Rightarrow> ('e, 'a) outcome" where
  "unwrap_opt (Some a) = Ok a"
| "unwrap_opt None = Panic"

text \<open>A loop that pushes one checked result per item and stops at the first failure.\<close>

fun omap :: "('a \<Rightarrow> ('e, 'b) outcome) \<Rightarrow> 'a list \<Rightarrow> ('e, 'b list) outcome" where
  "omap f [] = Ok []"
| "omap f (x # xs) = obind (f x) (\<lambda>y. obind (omap f xs) (\<lambda>ys. Ok (y # ys)))"

lemma obind_eq_Ok [outcome_simps]:
  "(obind m f = Ok b) = (\<exists>a. m = Ok a \<and> f a = Ok b)"
  by (cases m) auto

lemma obind_eq_Err [outcome_simps]:
  "(obind m f = Err e) = (m = Err e \<or> (\<exists>a. m = Ok a \<and> f a = Err e))"
  by (cases m) auto

lemma obind_eq_Panic [outcome_simps]:
  "(obind m f = Panic) = (m = Panic \<or> (\<exists>a. m = Ok a \<and> f a = Panic))"
  by (cases m) auto

lemma map_err_eq [outcome_simps]:
  "(map_err g m = Ok a) = (m = Ok a)"
  "(map_err g m = Panic) = (m = Panic)"
  "(map_err g m = Err f) = (\<exists>e. m = Err e \<and> f = g e)"
  by (cases m; auto)+

lemma ok_or_eq [outcome_simps]:
  "(ok_or x e = Ok a) = (x = Some a)"
  "(ok_or x e = Err f) = (x = None \<and> f = e)"
  "ok_or x e \<noteq> Panic"
  by (cases x; auto)+

lemma unwrap_opt_eq [outcome_simps]:
  "(unwrap_opt x = Ok a) = (x = Some a)"
  "(unwrap_opt x = Panic) = (x = None)"
  "unwrap_opt x \<noteq> Err e"
  by (cases x; auto)+

lemma unwrap_eq [outcome_simps]:
  "(unwrap m = Ok a) = (m = Ok a)"
  "unwrap m \<noteq> Err e"
  "(unwrap m = Panic) = (m = Panic \<or> (\<exists>e. m = Err e))"
  by (cases m; auto)+

lemma obind_assoc: "obind (obind m f) g = obind m (\<lambda>a. obind (f a) g)"
  by (cases m) auto

lemma obind_Ok_right [simp]: "obind x Ok = x"
  by (cases x) auto

lemma obind_cong [fundef_cong]:
  "m = m' \<Longrightarrow> (\<And>a. m' = Ok a \<Longrightarrow> f a = f' a) \<Longrightarrow> obind m f = obind m' f'"
  by (cases m') auto

lemma omap_Ok: "omap (\<lambda>x. Ok (f x)) xs = Ok (map f xs)"
  by (induction xs) auto

lemma omap_all_Ok: "(\<And>x. x \<in> set xs \<Longrightarrow> f x = Ok (g x)) \<Longrightarrow> omap f xs = Ok (map g xs)"
  by (induction xs) auto

lemma omap_length: "omap f xs = Ok ys \<Longrightarrow> length ys = length xs"
  by (induction xs arbitrary: ys) (auto simp: outcome_simps)

lemma omap_nth: "omap f xs = Ok ys \<Longrightarrow> i < length xs \<Longrightarrow> f (xs ! i) = Ok (ys ! i)"
  by (induction xs arbitrary: ys i) (auto simp: outcome_simps nth_Cons split: nat.splits)

lemma omap_Panic: "omap f xs = Panic \<Longrightarrow> \<exists>x \<in> set xs. f x = Panic"
  by (induction xs) (auto simp: outcome_simps)

lemma omap_Err: "omap f xs = Err e \<Longrightarrow> \<exists>x \<in> set xs. f x = Err e"
  by (induction xs) (auto simp: outcome_simps)

section \<open>Slices\<close>

text \<open>\<open>xs.get(i)\<close>, \<open>xs[i]\<close>, \<open>xs.get(a..b)\<close> and \<open>xs[a..b]\<close>.\<close>

definition get :: "'a list \<Rightarrow> usize \<Rightarrow> 'a option" where
  "get xs i = (if i < length xs then Some (xs ! i) else None)"

definition index :: "'a list \<Rightarrow> usize \<Rightarrow> ('e, 'a) outcome" where
  "index xs i = unwrap_opt (get xs i)"

definition get_range :: "'a list \<Rightarrow> usize \<Rightarrow> usize \<Rightarrow> 'a list option" where
  "get_range xs a b = (if a \<le> b \<and> b \<le> length xs then Some (take (b - a) (drop a xs)) else None)"

definition index_range :: "'a list \<Rightarrow> usize \<Rightarrow> usize \<Rightarrow> ('e, 'a list) outcome" where
  "index_range xs a b = unwrap_opt (get_range xs a b)"

lemma get_Some [simp]: "i < length xs \<Longrightarrow> get xs i = Some (xs ! i)"
  by (simp add: get_def)

lemma get_None [simp]: "length xs \<le> i \<Longrightarrow> get xs i = None"
  by (simp add: get_def)

lemma get_eq_Some: "(get xs i = Some x) = (i < length xs \<and> x = xs ! i)"
  by (auto simp: get_def)

lemma get_eq_None: "(get xs i = None) = (length xs \<le> i)"
  by (auto simp: get_def)

lemma index_Ok [read_simps]: "i < length xs \<Longrightarrow> index xs i = Ok (xs ! i)"
  by (simp add: index_def)

lemma index_eq [outcome_simps]:
  "(index xs i = Ok x) = (i < length xs \<and> x = xs ! i)"
  "(index xs i = Panic) = (length xs \<le> i)"
  "index xs i \<noteq> Err e"
  by (auto simp: index_def get_def)

lemma get_range_Some [read_simps]:
  "a \<le> b \<Longrightarrow> b \<le> length xs \<Longrightarrow> get_range xs a b = Some (take (b - a) (drop a xs))"
  by (simp add: get_range_def)

lemma get_range_eq_Some:
  "(get_range xs a b = Some ys) = (a \<le> b \<and> b \<le> length xs \<and> ys = take (b - a) (drop a xs))"
  by (auto simp: get_range_def)

lemma get_range_eq_None: "(get_range xs a b = None) = (\<not> (a \<le> b \<and> b \<le> length xs))"
  by (auto simp: get_range_def)

lemma get_range_length: "get_range xs a b = Some ys \<Longrightarrow> length ys = b - a"
  by (auto simp: get_range_def split: if_splits)

lemma index_range_Ok [read_simps]:
  "a \<le> b \<Longrightarrow> b \<le> length xs \<Longrightarrow> index_range xs a b = Ok (take (b - a) (drop a xs))"
  by (simp add: index_range_def get_range_def)

lemma index_range_eq [outcome_simps]:
  "(index_range xs a b = Ok ys) = (a \<le> b \<and> b \<le> length xs \<and> ys = take (b - a) (drop a xs))"
  "(index_range xs a b = Panic) = (\<not> (a \<le> b \<and> b \<le> length xs))"
  "index_range xs a b \<noteq> Err e"
  by (auto simp: index_range_def get_range_def)

section \<open>Native-endian integers\<close>

fun le_val :: "bytes \<Rightarrow> nat" where
  "le_val [] = 0"
| "le_val (b # bs) = unat b + 256 * le_val bs"

text \<open>
  \<open>uN::from_ne_bytes(data[off..off + k].try_into().unwrap())\<close>: the slice has exactly \<open>k\<close>
  bytes, so only the slice access can panic.
\<close>

definition read_ne :: "nat \<Rightarrow> bytes \<Rightarrow> usize \<Rightarrow> ('e, 'a::len word) outcome" where
  "read_ne k data off = obind (index_range data off (off + k)) (\<lambda>s. Ok (word_of_nat (le_val s)))"

definition read_u16 :: "bytes \<Rightarrow> usize \<Rightarrow> ('e, u16) outcome" where
  "read_u16 = read_ne 2"

definition read_u32 :: "bytes \<Rightarrow> usize \<Rightarrow> ('e, u32) outcome" where
  "read_u32 = read_ne 4"

definition read_u64 :: "bytes \<Rightarrow> usize \<Rightarrow> ('e, u64) outcome" where
  "read_u64 = read_ne 8"

text \<open>\<open>to_ne_bytes\<close>: the \<open>k\<close> low bytes of a number, least significant first.\<close>

fun le_bytes :: "nat \<Rightarrow> nat \<Rightarrow> bytes" where
  "le_bytes 0 n = []"
| "le_bytes (Suc k) n = word_of_nat n # le_bytes k (n div 256)"

definition u16_bytes :: "u16 \<Rightarrow> bytes" where
  "u16_bytes x = le_bytes 2 (unat x)"

definition u32_bytes :: "u32 \<Rightarrow> bytes" where
  "u32_bytes x = le_bytes 4 (unat x)"

definition u64_bytes :: "u64 \<Rightarrow> bytes" where
  "u64_bytes x = le_bytes 8 (unat x)"

lemma read_ne_Ok [read_simps]:
  "off + k \<le> length data \<Longrightarrow>
    read_ne k data off = Ok (word_of_nat (le_val (take k (drop off data))))"
  by (simp add: read_ne_def index_range_Ok)

lemma read_ne_eq [outcome_simps]:
  "(read_ne k data off = Panic) = (length data < off + k)"
  "read_ne k data off \<noteq> Err e"
  by (auto simp: read_ne_def outcome_simps)

lemmas read_uint_defs = read_u16_def read_u32_def read_u64_def

lemma read_uint_eq [outcome_simps]:
  "(read_u16 data off = Panic) = (length data < off + 2)"
  "(read_u32 data off = Panic) = (length data < off + 4)"
  "(read_u64 data off = Panic) = (length data < off + 8)"
  "read_u16 data off \<noteq> Err e" "read_u32 data off \<noteq> Err e" "read_u64 data off \<noteq> Err e"
  by (simp_all add: read_uint_defs outcome_simps)

lemma le_bytes_length [simp]: "length (le_bytes k n) = k"
  by (induction k arbitrary: n) auto

lemma le_val_bound: "le_val bs < 256 ^ length bs"
proof (induction bs)
  case (Cons b bs)
  have "unat b + 256 * le_val bs < 256 + 256 * le_val bs" by simp
  also have "\<dots> = 256 * Suc (le_val bs)" by simp
  also have "\<dots> \<le> 256 * 256 ^ length bs" using Cons by (intro mult_le_mono2) simp
  finally show ?case by simp
qed simp

lemma le_val_le_bytes: "le_val (le_bytes k n) = n mod 256 ^ k"
proof (induction k arbitrary: n)
  case (Suc k)
  have "n mod (256 * 256 ^ k) = 256 * (n div 256 mod 256 ^ k) + n mod 256"
    by (rule mod_mult2_eq)
  then show ?case by (simp add: Suc unat_of_nat)
qed simp

lemma le_bytes_le_val: "le_bytes (length bs) (le_val bs) = bs"
proof (induction bs)
  case (Cons b bs)
  have b: "unat b < 256" by simp
  have "(256 :: u8) = 0" by simp
  then have "(word_of_nat (unat b + 256 * le_val bs) :: u8) = b"
    by (simp only: of_nat_add of_nat_mult of_nat_numeral) simp
  moreover have "(unat b + 256 * le_val bs) div 256 = le_val bs" using b by simp
  ultimately show ?case using Cons by simp
qed simp

text \<open>
  The interface of a fixed-width integer encoding, and what a reader of a longer buffer may
  rely on: a field that was written with \<open>enc\<close> at a position is read back there.
\<close>

locale ne_codec =
  fixes width :: nat
    and enc :: "'a::len word \<Rightarrow> bytes"
  assumes enc_length: "length (enc x) = width"
    and dec_enc: "word_of_nat (le_val (enc x)) = x"
    and enc_dec: "length s = width \<Longrightarrow> enc (word_of_nat (le_val s)) = s"
begin

lemma read_at:
  assumes "drop off data = enc x @ rest"
  shows "read_ne width data off = Ok x"
proof -
  have "length (enc x @ rest) = length data - off"
    using assms by (metis length_drop)
  then have "off + width \<le> length data \<or> width = 0"
    by (auto simp: enc_length)
  moreover have "width \<noteq> 0"
  proof
    assume "width = 0"
    then have "enc y = []" for y using enc_length [of y] by simp
    then have "(0 :: 'a word) = 1" using dec_enc [of 0] dec_enc [of 1] by simp
    then show False by simp
  qed
  ultimately show ?thesis using assms by (simp add: read_ne_Ok enc_length dec_enc)
qed

lemma read_at_inv:
  assumes "read_ne width data off = Ok x"
  shows "drop off data = enc x @ drop (off + width) data"
proof -
  have s: "off + width \<le> length data" "x = word_of_nat (le_val (take width (drop off data)))"
    using assms by (auto simp: read_ne_def outcome_simps)
  then have "enc x = take width (drop off data)"
    by (simp add: enc_dec)
  then show ?thesis
    by (metis add.commute append_take_drop_id drop_drop)
qed

lemma enc_inj: "enc x = enc y \<Longrightarrow> x = y"
  by (metis dec_enc)

end

lemma le_bytes_word_of_nat:
  assumes "length s = k" and "256 ^ k = (2 :: nat) ^ LENGTH('a::len)"
  shows "le_bytes k (unat (word_of_nat (le_val s) :: 'a word)) = s"
proof -
  have "le_val s < 2 ^ LENGTH('a)" using le_val_bound [of s] assms by simp
  then have "unat (word_of_nat (le_val s) :: 'a word) = le_val s"
    by (simp add: unsigned_of_nat take_bit_nat_eq_self)
  then show ?thesis using le_bytes_le_val [of s] assms by simp
qed

interpretation u16: ne_codec 2 u16_bytes
  by unfold_locales
    (simp_all add: u16_bytes_def le_val_le_bytes le_bytes_word_of_nat)

interpretation u32: ne_codec 4 u32_bytes
  by unfold_locales
    (simp_all add: u32_bytes_def le_val_le_bytes le_bytes_word_of_nat)

interpretation u64: ne_codec 8 u64_bytes
  by unfold_locales
    (simp_all add: u64_bytes_def le_val_le_bytes le_bytes_word_of_nat)

section \<open>Alignment\<close>

text \<open>
  The expression \<open>(offset + align - 1) & !(align - 1)\<close> of the source, on \<open>usize\<close>.  Its inlined
  uses are guarded by \<open>align > 1\<close>.
\<close>

definition align_expr :: "usize \<Rightarrow> usize \<Rightarrow> usize" where
  "align_expr offset align = nat (int (offset + align - 1) AND NOT (int (align - 1)))"

lemma align_expr_pow2: "align_expr n (2 ^ k) = (n + 2 ^ k - 1) div 2 ^ k * 2 ^ k"
proof -
  have m: "int (2 ^ k - 1) = mask k"
    by (simp add: mask_eq_exp_minus_1 of_nat_diff)
  have "int (n + 2 ^ k - 1) AND NOT (mask k) = push_bit k (drop_bit k (int (n + 2 ^ k - 1)))"
    by (rule bit_eqI) (auto simp: bit_simps)
  also have "\<dots> = int (n + 2 ^ k - 1) div 2 ^ k * 2 ^ k"
    by (simp add: push_bit_eq_mult drop_bit_eq_div)
  also have "\<dots> = int ((n + 2 ^ k - 1) div 2 ^ k * 2 ^ k)"
    by (simp add: zdiv_int)
  finally show ?thesis
    unfolding align_expr_def m by (metis nat_int)
qed

lemma align_expr_code [simp]:
  "align_expr n (Suc 0) = n"
  "align_expr n 2 = (n + 1) div 2 * 2"
  "align_expr n 4 = (n + 3) div 4 * 4"
  "align_expr n 8 = (n + 7) div 8 * 8"
  using align_expr_pow2 [of n 0] align_expr_pow2 [of n 1] align_expr_pow2 [of n 2]
    align_expr_pow2 [of n 3]
  by simp_all

text \<open>\<open>a.checked_add(b)\<close> on a 64-bit \<open>usize\<close>.\<close>

definition checked_add_usize :: "usize \<Rightarrow> usize \<Rightarrow> usize option" where
  "checked_add_usize a b = (if a + b < 2 ^ 64 then Some (a + b) else None)"

text \<open>\<open>n.div_ceil(k)\<close>.\<close>

definition div_ceil :: "usize \<Rightarrow> usize \<Rightarrow> usize" where
  "div_ceil n k = (n + k - 1) div k"

section \<open>Formatting\<close>

fun show_nat :: "nat \<Rightarrow> string" where
  "show_nat n = (if n < 10 then [char_of (48 + n)] else show_nat (n div 10) @ [char_of (48 + n mod 10)])"

declare show_nat.simps [simp del]

definition hex_digit :: "nat \<Rightarrow> char" where
  "hex_digit n = char_of (if n < 10 then 48 + n else 87 + n)"

definition hex_digit_upper :: "nat \<Rightarrow> char" where
  "hex_digit_upper n = char_of (if n < 10 then 48 + n else 55 + n)"

text \<open>\<open>{:02x}\<close> of a byte.\<close>

definition hex_byte :: "u8 \<Rightarrow> string" where
  "hex_byte b = [hex_digit (unat b div 16), hex_digit (unat b mod 16)]"

text \<open>A Rust \<open>String\<close> is its UTF-8 bytes, as characters.\<close>

definition str_of_bytes :: "bytes \<Rightarrow> string" where
  "str_of_bytes bs = map (\<lambda>b. char_of (unat b)) bs"

definition bytes_of_str :: "string \<Rightarrow> bytes" where
  "bytes_of_str s = map (\<lambda>c. word_of_nat (of_char c)) s"

lemma str_of_bytes_length [simp]: "length (str_of_bytes bs) = length bs"
  by (simp add: str_of_bytes_def)

lemma bytes_of_str_of_bytes [simp]: "bytes_of_str (str_of_bytes bs) = bs"
proof -
  have "unat b mod 256 = unat b" for b :: u8
    by simp
  then show ?thesis
    by (simp add: bytes_of_str_def str_of_bytes_def comp_def)
qed

lemma str_of_bytes_of_str [simp]: "str_of_bytes (bytes_of_str s) = s"
proof -
  have "char_of (unat (word_of_nat (of_char c) :: u8)) = c" for c
    by (simp add: unat_of_nat)
  then show ?thesis
    by (simp add: bytes_of_str_def str_of_bytes_def comp_def)
qed

end
