(* ===== verification/Errors.thy ===== *)
theory Errors
  imports Prelude
begin

text \<open>
  The error types: \<open>PgError\<close> of \<open>src/file/error.rs\<close> and \<open>DecodeError\<close> of
  \<open>src/types/codec.rs\<close>, with the messages that \<open>to_string\<close> gives (the
  code wraps that of a \<open>DecodeError\<close> into \<open>PgError::DecodeError\<close>).  \<open>Utf8Error\<close> of the standard library is its two
  observable parts, \<open>valid_up_to\<close> and \<open>error_len\<close>.
\<close>

datatype pg_error =
    Generic
  | PageBufferTooShort usize usize          \<comment> \<open>actual, expected\<close>
  | UnknownInfoMask u16
  | TupleBufferTooShort usize usize         \<comment> \<open>actual, expected\<close>
  | InvalidTupleHoff u8 usize usize         \<comment> \<open>\<open>t_hoff\<close>, min, \<open>buf_len\<close>\<close>
  | NullBitmapOverflow usize usize          \<comment> \<open>\<open>bitmap_end\<close>, \<open>t_hoff\<close>\<close>
  | DeadTupleLinePointer usize
  | NullColumnValue usize
  | ColumnNotFound string
  | DecodeError string
  | TableNotFound string
  | NoTableSelected
  | CatalogBootstrapFailed string
  | ArrowConversionFailed string

type_synonym 'a pg_result = "(pg_error, 'a) outcome"

record utf8_error =
  valid_up_to :: usize
  error_len :: "usize option"

datatype decode_error =
    BufferTooShort string usize usize       \<comment> \<open>\<open>type_name\<close>, expected, actual\<close>
  | InvalidUtf8 string usize utf8_error     \<comment> \<open>\<open>type_name\<close>, offset, source\<close>
  | MissingNulTerminator
  | InvalidVarlenaHeader usize u8           \<comment> \<open>offset, \<open>first_byte\<close>\<close>

type_synonym 'a decode_result = "(decode_error, 'a) outcome"

text \<open>\<open>Display\<close> of the standard library's \<open>Utf8Error\<close>.\<close>

definition utf8_error_to_string :: "utf8_error \<Rightarrow> string" where
  "utf8_error_to_string e =
     (case error_len e of
        Some n \<Rightarrow> ''invalid utf-8 sequence of '' @ show_nat n @ '' bytes from index '' @ show_nat (valid_up_to e)
      | None \<Rightarrow> ''incomplete utf-8 byte sequence from index '' @ show_nat (valid_up_to e))"

text \<open>The \<open>#[error(..)]\<close> attributes of \<open>DecodeError\<close>.\<close>

fun decode_error_to_string :: "decode_error \<Rightarrow> string" where
  "decode_error_to_string (BufferTooShort type_name expected actual) =
     ''buffer too short for '' @ type_name @ '': need '' @ show_nat expected @ '' bytes, got '' @ show_nat actual"
| "decode_error_to_string (InvalidUtf8 type_name offset source) =
     ''invalid UTF-8 in '' @ type_name @ '' at offset '' @ show_nat offset @ '': '' @ utf8_error_to_string source"
| "decode_error_to_string MissingNulTerminator =
     ''missing null terminator in name/cstring column''"
| "decode_error_to_string (InvalidVarlenaHeader offset first_byte) =
     ''invalid varlena header at offset '' @ show_nat offset @ '': first byte = 0x'' @ hex_byte first_byte"

text \<open>The \<open>#[error(..)]\<close> attributes of \<open>PgError\<close>; the dash of \<open>NoTableSelected\<close> is three bytes of UTF-8.\<close>

definition em_dash :: string where
  "em_dash = [CHR 0xE2, CHR 0x80, CHR 0x94]"

fun pg_error_to_string :: "pg_error \<Rightarrow> string" where
  "pg_error_to_string Generic = ''generic parse error''"
| "pg_error_to_string (PageBufferTooShort actual expected) =
     ''page buffer too short: got '' @ show_nat actual @ '' bytes, need at least '' @ show_nat expected"
| "pg_error_to_string (UnknownInfoMask w) =
     ''unknown infomask value: 0x'' @ map (\<lambda>i. hex_digit_upper (unat w div 16 ^ i mod 16)) [3, 2, 1, 0]"
| "pg_error_to_string (TupleBufferTooShort actual expected) =
     ''tuple buffer too short: got '' @ show_nat actual @ '' bytes, need at least '' @ show_nat expected"
| "pg_error_to_string (InvalidTupleHoff t_hoff m buf_len) =
     ''invalid t_hoff '' @ show_nat (unat t_hoff) @ '': must be in ['' @ show_nat m @ '', '' @ show_nat buf_len @ '']''"
| "pg_error_to_string (NullBitmapOverflow bitmap_end t_hoff) =
     ''null bitmap overflows t_hoff: bitmap_end='' @ show_nat bitmap_end @ '' > t_hoff='' @ show_nat t_hoff"
| "pg_error_to_string (DeadTupleLinePointer ip_posid) =
     ''the tuple at line pointer index '' @ show_nat ip_posid @ '' is dead''"
| "pg_error_to_string (NullColumnValue i) = ''the column at index '' @ show_nat i @ '' is null''"
| "pg_error_to_string (ColumnNotFound column) = ''column not found: '' @ column"
| "pg_error_to_string (DecodeError detail) = ''decode error: '' @ detail"
| "pg_error_to_string (TableNotFound name) = ''table not found: '' @ name"
| "pg_error_to_string NoTableSelected =
     ''no table selected '' @ em_dash @ '' call set_table() first''"
| "pg_error_to_string (CatalogBootstrapFailed detail) = ''catalog bootstrap failed: '' @ detail"
| "pg_error_to_string (ArrowConversionFailed detail) = ''arrow conversion failed: '' @ detail"

end
