(* ===== verification/Tuple.thy ===== *)
theory Tuple
  imports Errors
begin

text \<open>
  \<open>src/heap/tuple.rs\<close>: block and item identifiers, the 23-byte heap tuple header, the
  \<open>t_infomask\<close> flags, and \<open>HeapTupleData::parse_and_build\<close>, which splits the raw bytes of a
  tuple into header, null bitmap and attribute data.  The accessors that need a schema
  (\<open>get_column\<close>, \<open>skip_column\<close>) are in the theory \<open>Rows\<close>.
\<close>

section \<open>Identifiers and header\<close>

record block_id_data =
  bi_hi :: u16
  bi_lo :: u16

text \<open>\<open>impl From<BlockIdData> for u32\<close> (\<open>block_number\<close>) and \<open>impl From<u32> for BlockIdData\<close>.\<close>

definition block_number :: "block_id_data \<Rightarrow> u32" where
  "block_number b = push_bit 16 (ucast (bi_hi b)) OR ucast (bi_lo b)"

definition block_id_from :: "u32 \<Rightarrow> block_id_data" where
  "block_id_from n = \<lparr>bi_hi = ucast (drop_bit 16 n), bi_lo = ucast n\<rparr>"

record item_pointer_data =
  ip_blkid :: block_id_data
  ip_posid :: u16

record heap_tuple_header_data =
  t_xmin :: u32
  t_xmax :: u32
  t_field3 :: u32
  t_ctid :: item_pointer_data
  t_infomask2 :: u16
  t_infomask :: u16
  t_hoff :: u8

datatype info_mask =
    HasNull | HasVarWidth | HasExternal | HasOidOld | XmaxKeyshrLock | ComboCid
  | XmaxExclLock | XmaxLockOnly | XminCommitted | XminInvalid | XmaxCommitted | XmaxInvalid
  | XmaxIsMulti | Updated | MovedOff | MovedIn

primrec info_mask_u16 :: "info_mask \<Rightarrow> u16" where
  "info_mask_u16 HasNull = 0x0001"
| "info_mask_u16 HasVarWidth = 0x0002"
| "info_mask_u16 HasExternal = 0x0004"
| "info_mask_u16 HasOidOld = 0x0008"
| "info_mask_u16 XmaxKeyshrLock = 0x0010"
| "info_mask_u16 ComboCid = 0x0020"
| "info_mask_u16 XmaxExclLock = 0x0040"
| "info_mask_u16 XmaxLockOnly = 0x0080"
| "info_mask_u16 XminCommitted = 0x0100"
| "info_mask_u16 XminInvalid = 0x0200"
| "info_mask_u16 XmaxCommitted = 0x0400"
| "info_mask_u16 XmaxInvalid = 0x0800"
| "info_mask_u16 XmaxIsMulti = 0x1000"
| "info_mask_u16 Updated = 0x2000"
| "info_mask_u16 MovedOff = 0x4000"
| "info_mask_u16 MovedIn = 0x8000"

definition XMAX_SHR_LOCK :: u16 where
  "XMAX_SHR_LOCK = info_mask_u16 XmaxExclLock OR info_mask_u16 XmaxKeyshrLock"

definition LOCK_MASK :: u16 where
  "LOCK_MASK = XMAX_SHR_LOCK OR info_mask_u16 XmaxExclLock OR info_mask_u16 XmaxKeyshrLock"

definition XMIN_FROZEN :: u16 where
  "XMIN_FROZEN = info_mask_u16 XminCommitted OR info_mask_u16 XminInvalid"

definition MOVED :: u16 where
  "MOVED = info_mask_u16 MovedOff OR info_mask_u16 MovedIn"

definition XACT_MASK :: u16 where
  "XACT_MASK = 0xFFF0"

definition HEAP_NATTS_MASK :: u16 where
  "HEAP_NATTS_MASK = 0x07FF"

definition SIZEOF_HEAP_TUPLE_HEADER :: usize where
  "SIZEOF_HEAP_TUPLE_HEADER = 23"

text \<open>\<open>has_flag\<close> takes an \<open>InfoMask\<close> or a composite constant, converted to \<open>u16\<close> by the caller.\<close>

definition has_flag :: "heap_tuple_header_data \<Rightarrow> u16 \<Rightarrow> bool" where
  "has_flag h flag = (t_infomask h AND flag \<noteq> 0)"

definition natts_of :: "u16 \<Rightarrow> usize" where
  "natts_of infomask2 = unat (infomask2 AND HEAP_NATTS_MASK)"

section \<open>Parsing a tuple\<close>

record heap_tuple_data =
  header :: heap_tuple_header_data
  null_bitmap :: bytes
  data :: bytes

definition read_tuple_header :: "bytes \<Rightarrow> heap_tuple_header_data pg_result" where
  "read_tuple_header raw =
     obind (read_u32 raw 0) (\<lambda>xmin.
     obind (read_u32 raw 4) (\<lambda>xmax.
     obind (read_u32 raw 8) (\<lambda>field3.
     obind (read_u16 raw 12) (\<lambda>hi.
     obind (read_u16 raw 14) (\<lambda>lo.
     obind (read_u16 raw 16) (\<lambda>posid.
     obind (read_u16 raw 18) (\<lambda>infomask2.
     obind (read_u16 raw 20) (\<lambda>infomask.
     obind (index raw 22) (\<lambda>hoff.
       Ok \<lparr>t_xmin = xmin, t_xmax = xmax, t_field3 = field3,
           t_ctid = \<lparr>ip_blkid = \<lparr>bi_hi = hi, bi_lo = lo\<rparr>, ip_posid = posid\<rparr>,
           t_infomask2 = infomask2, t_infomask = infomask, t_hoff = hoff\<rparr>)))))))))"

definition parse_and_build :: "bytes \<Rightarrow> heap_tuple_data pg_result" where
  "parse_and_build raw =
     (if length raw < SIZEOF_HEAP_TUPLE_HEADER
      then Err (TupleBufferTooShort (length raw) SIZEOF_HEAP_TUPLE_HEADER)
      else
        obind (read_tuple_header raw) (\<lambda>h.
        let t_hoff_usize = unat (t_hoff h) in
        if t_hoff_usize < SIZEOF_HEAP_TUPLE_HEADER \<or> length raw < t_hoff_usize
        then Err (InvalidTupleHoff (t_hoff h) SIZEOF_HEAP_TUPLE_HEADER (length raw))
        else
          obind (if has_flag h (info_mask_u16 HasNull)
                 then let bitmap_bytes = div_ceil (natts_of (t_infomask2 h)) 8;
                          bitmap_end = SIZEOF_HEAP_TUPLE_HEADER + bitmap_bytes
                      in if t_hoff_usize < bitmap_end
                         then Err (NullBitmapOverflow bitmap_end t_hoff_usize)
                         else index_range raw SIZEOF_HEAP_TUPLE_HEADER bitmap_end
                 else Ok []) (\<lambda>bitmap.
          obind (index_range raw t_hoff_usize (length raw)) (\<lambda>d.
            Ok \<lparr>header = h, null_bitmap = bitmap, data = d\<rparr>))))"

text \<open>\<open>HeapTupleData::is_null\<close>; the same test is inlined in \<open>get_column\<close> and \<open>skip_column\<close>.\<close>

definition is_null :: "heap_tuple_data \<Rightarrow> usize \<Rightarrow> bool" where
  "is_null t col_index =
     (case get (null_bitmap t) (col_index div 8) of
        Some b \<Rightarrow> b AND push_bit (col_index mod 8) 1 = 0
      | None \<Rightarrow> False)"

section \<open>The layout the parser must invert\<close>

text \<open>
  The reference layout of a tuple: the 23 header bytes in field order, the null bitmap, padding
  up to \<open>t_hoff\<close>, then the attribute data.
\<close>

definition header_bytes :: "heap_tuple_header_data \<Rightarrow> bytes" where
  "header_bytes h =
     u32_bytes (t_xmin h) @ u32_bytes (t_xmax h) @ u32_bytes (t_field3 h) @
     u16_bytes (bi_hi (ip_blkid (t_ctid h))) @ u16_bytes (bi_lo (ip_blkid (t_ctid h))) @
     u16_bytes (ip_posid (t_ctid h)) @ u16_bytes (t_infomask2 h) @ u16_bytes (t_infomask h) @
     [t_hoff h]"

definition bitmap_len :: "heap_tuple_header_data \<Rightarrow> nat" where
  "bitmap_len h = (if has_flag h (info_mask_u16 HasNull) then div_ceil (natts_of (t_infomask2 h)) 8 else 0)"

definition tuple_bytes :: "heap_tuple_data \<Rightarrow> bytes \<Rightarrow> bytes" where
  "tuple_bytes t pad = header_bytes (header t) @ null_bitmap t @ pad @ data t"

text \<open>What every parsed tuple satisfies.\<close>

definition tuple_wf :: "heap_tuple_data \<Rightarrow> bool" where
  "tuple_wf t \<longleftrightarrow> length (null_bitmap t) = bitmap_len (header t) \<and>
     SIZEOF_HEAP_TUPLE_HEADER + bitmap_len (header t) \<le> unat (t_hoff (header t))"

lemmas tuple_consts = SIZEOF_HEAP_TUPLE_HEADER_def HEAP_NATTS_MASK_def


section \<open>Lemmas\<close>

lemma block_number_id: "block_number (block_id_from n) = n"
  unfolding block_number_def block_id_from_def
  by (rule bit_word_eqI) (auto simp: bit_simps)

lemma block_id_number: "block_id_from (block_number b) = b"
proof -
  have "ucast (drop_bit 16 (block_number b)) = bi_hi b"
    unfolding block_number_def by (rule bit_word_eqI) (auto simp: bit_simps dest: bit_imp_le_length)
  moreover have "ucast (block_number b) = bi_lo b"
    unfolding block_number_def by (rule bit_word_eqI) (auto simp: bit_simps)
  ultimately show ?thesis
    by (simp add: block_id_from_def)
qed

text \<open>The code's test \<open>b & (1 << k) == 0\<close> reads bit \<open>k\<close>.\<close>

lemma and_push_bit_eq_0: "(b AND push_bit k 1 = (0 :: 'a::len word)) = (\<not> bit b k)"
  by (simp add: push_bit_of_1 and_exp_eq_0_iff_not_bit)

lemma is_null_bit:
  "is_null t i = (i div 8 < length (null_bitmap t) \<and> \<not> bit (null_bitmap t ! (i div 8)) (i mod 8))"
  by (simp add: is_null_def get_def and_exp_eq_0_iff_not_bit)

lemma is_null_no_bitmap: "null_bitmap t = [] \<Longrightarrow> \<not> is_null t i"
  by (simp add: is_null_bit)

lemma read_tuple_header_Ok:
  assumes "SIZEOF_HEAP_TUPLE_HEADER \<le> length raw"
  shows "\<exists>h. read_tuple_header raw = Ok h \<and> t_hoff h = raw ! 22"
  using assms by (simp add: read_tuple_header_def read_uint_defs read_simps tuple_consts)

lemma header_bytes_length [simp]: "length (header_bytes h) = 23"
  by (simp add: header_bytes_def u16.enc_length u32.enc_length)

text \<open>Each header field is found at its offset.\<close>

lemma read_tuple_header_roundtrip: "read_tuple_header (header_bytes h @ rest) = Ok h"
proof -
  have d: "drop 0 (header_bytes h @ rest) = u32_bytes (t_xmin h) @ drop 4 (header_bytes h @ rest)"
    "drop 4 (header_bytes h @ rest) = u32_bytes (t_xmax h) @ drop 8 (header_bytes h @ rest)"
    "drop 8 (header_bytes h @ rest) = u32_bytes (t_field3 h) @ drop 12 (header_bytes h @ rest)"
    "drop 12 (header_bytes h @ rest) = u16_bytes (bi_hi (ip_blkid (t_ctid h))) @ drop 14 (header_bytes h @ rest)"
    "drop 14 (header_bytes h @ rest) = u16_bytes (bi_lo (ip_blkid (t_ctid h))) @ drop 16 (header_bytes h @ rest)"
    "drop 16 (header_bytes h @ rest) = u16_bytes (ip_posid (t_ctid h)) @ drop 18 (header_bytes h @ rest)"
    "drop 18 (header_bytes h @ rest) = u16_bytes (t_infomask2 h) @ drop 20 (header_bytes h @ rest)"
    "drop 20 (header_bytes h @ rest) = u16_bytes (t_infomask h) @ drop 22 (header_bytes h @ rest)"
    by (simp_all add: header_bytes_def u16.enc_length u32.enc_length)
  have hoff: "index (header_bytes h @ rest) 22 = Ok (t_hoff h)"
    by (simp add: index_Ok) (simp add: header_bytes_def nth_append u16.enc_length u32.enc_length)
  show ?thesis
    by (simp add: read_tuple_header_def read_uint_defs hoff
        u32.read_at [OF d(1)] u32.read_at [OF d(2)] u32.read_at [OF d(3)]
        u16.read_at [OF d(4)] u16.read_at [OF d(5)] u16.read_at [OF d(6)]
        u16.read_at [OF d(7)] u16.read_at [OF d(8)])
qed

lemma read_tuple_header_inv:
  assumes "read_tuple_header raw = Ok h"
  shows "raw = header_bytes h @ drop 23 raw"
proof -
  note r32 = u32.read_at_inv and r16 = u16.read_at_inv
  from assms have "(read_ne 4 raw 0 :: u32 pg_result) = Ok (t_xmin h)" "(read_ne 4 raw 4 :: u32 pg_result) = Ok (t_xmax h)"
    "(read_ne 4 raw 8 :: u32 pg_result) = Ok (t_field3 h)" "(read_ne 2 raw 12 :: u16 pg_result) = Ok (bi_hi (ip_blkid (t_ctid h)))"
    "(read_ne 2 raw 14 :: u16 pg_result) = Ok (bi_lo (ip_blkid (t_ctid h)))" "(read_ne 2 raw 16 :: u16 pg_result) = Ok (ip_posid (t_ctid h))"
    "(read_ne 2 raw 18 :: u16 pg_result) = Ok (t_infomask2 h)" "(read_ne 2 raw 20 :: u16 pg_result) = Ok (t_infomask h)"
    and last: "22 < length raw" "raw ! 22 = t_hoff h"
    by (auto simp: read_tuple_header_def read_uint_defs outcome_simps)
  note f = this(1-3) [THEN r32] this(4-8) [THEN r16]
  have "drop 22 raw = [t_hoff h] @ drop 23 raw"
    using last Cons_nth_drop_Suc [of 22 raw] by simp
  with f show ?thesis by (simp add: header_bytes_def)
qed

lemma read_tuple_header_length: "read_tuple_header raw = Ok h \<Longrightarrow> 23 \<le> length raw"
  using read_tuple_header_inv [of raw h] by (metis header_bytes_length le_add1 length_append)

lemma bitmap_cases:
  "(if has_flag h (info_mask_u16 HasNull)
    then let bitmap_bytes = div_ceil (natts_of (t_infomask2 h)) 8;
             bitmap_end = SIZEOF_HEAP_TUPLE_HEADER + bitmap_bytes
         in if hoff < bitmap_end then Err (NullBitmapOverflow bitmap_end hoff)
            else index_range raw SIZEOF_HEAP_TUPLE_HEADER bitmap_end
    else Ok []) =
   (if SIZEOF_HEAP_TUPLE_HEADER \<le> hoff \<and> hoff < SIZEOF_HEAP_TUPLE_HEADER + bitmap_len h
    then Err (NullBitmapOverflow (SIZEOF_HEAP_TUPLE_HEADER + bitmap_len h) hoff)
    else Ok (take (bitmap_len h) (drop 23 raw)))"
  if "SIZEOF_HEAP_TUPLE_HEADER \<le> hoff" and "hoff \<le> length raw"
  using that by (auto simp: bitmap_len_def Let_def read_simps tuple_consts)

text \<open>\<open>parse_and_build\<close>, branch by branch, with the slice accesses resolved.\<close>

lemma parse_and_build_eq:
  assumes "read_tuple_header raw = Ok h"
  shows "parse_and_build raw =
    (if unat (t_hoff h) < 23 \<or> length raw < unat (t_hoff h)
     then Err (InvalidTupleHoff (t_hoff h) 23 (length raw))
     else if unat (t_hoff h) < 23 + bitmap_len h
     then Err (NullBitmapOverflow (23 + bitmap_len h) (unat (t_hoff h)))
     else Ok \<lparr>header = h, null_bitmap = take (bitmap_len h) (drop 23 raw),
              data = drop (unat (t_hoff h)) raw\<rparr>)"
proof -
  have "23 \<le> length raw" using read_tuple_header_length [OF assms] .
  then show ?thesis
    using assms bitmap_cases [of "unat (t_hoff h)" raw h]
    by (auto simp: parse_and_build_def Let_def tuple_consts read_simps)
qed

lemma parse_and_build_tuple_bytes:
  assumes "length (null_bitmap t) = bitmap_len (header t)"
    and "unat (t_hoff (header t)) = 23 + bitmap_len (header t) + length pad"
  shows "parse_and_build (tuple_bytes t pad) = Ok t"
proof -
  have "read_tuple_header (tuple_bytes t pad) = Ok (header t)"
    unfolding tuple_bytes_def by (rule read_tuple_header_roundtrip)
  then show ?thesis
    using assms by (simp add: parse_and_build_eq) (simp add: tuple_bytes_def)
qed

lemma parse_and_build_inv:
  assumes "parse_and_build raw = Ok t"
  shows "length (null_bitmap t) = bitmap_len (header t)"
    and "\<exists>pad. raw = tuple_bytes t pad \<and> unat (t_hoff (header t)) = 23 + bitmap_len (header t) + length pad"
proof -
  obtain h where h: "read_tuple_header raw = Ok h"
    using assms by (auto simp: parse_and_build_def outcome_simps split: if_splits)
  let ?n = "bitmap_len h" and ?off = "unat (t_hoff h)"
  from assms h have b: "23 + ?n \<le> ?off" "?off \<le> length raw"
    and t: "t = \<lparr>header = h, null_bitmap = take ?n (drop 23 raw), data = drop ?off raw\<rparr>"
    by (auto simp: parse_and_build_eq split: if_splits)
  from b t show "length (null_bitmap t) = bitmap_len (header t)" by simp
  let ?pad = "take (?off - (23 + ?n)) (drop (23 + ?n) raw)"
  have "drop (23 + ?n) raw = ?pad @ drop ?off raw"
    using b by (metis append_take_drop_id drop_drop le_add_diff_inverse2)
  moreover have "drop 23 raw = take ?n (drop 23 raw) @ drop (23 + ?n) raw"
    by (metis add.commute append_take_drop_id drop_drop)
  ultimately have "raw = tuple_bytes t ?pad"
    using read_tuple_header_inv [OF h] by (simp add: tuple_bytes_def t)
  moreover have "?off = 23 + ?n + length ?pad" using b by simp
  ultimately show "\<exists>pad. raw = tuple_bytes t pad \<and>
      unat (t_hoff (header t)) = 23 + bitmap_len (header t) + length pad"
    using t by auto
qed

lemma parse_and_build_wf: "parse_and_build raw = Ok t \<Longrightarrow> tuple_wf t"
  using parse_and_build_inv [of raw t] by (auto simp: tuple_wf_def tuple_consts)

lemma parse_and_build_short [simp]:
  "length raw < 23 \<Longrightarrow> parse_and_build raw = Err (TupleBufferTooShort (length raw) 23)"
  by (simp add: parse_and_build_def tuple_consts)

lemma parse_and_build_no_panic [simp]: "parse_and_build raw \<noteq> Panic"
proof (cases "length raw < 23")
  case False
  then obtain h where "read_tuple_header raw = Ok h"
    using read_tuple_header_Ok [of raw] by (auto simp: tuple_consts)
  then show ?thesis by (simp add: parse_and_build_eq)
qed simp

section \<open>Properties\<close>

text \<open>
  C9: \<open>parse_and_build\<close> is the exact inverse of the heap tuple layout: it accepts a byte
  string with result \<open>t\<close> if and only if the bytes are the header fields of \<open>t\<close> in order, the
  null bitmap of \<open>ceil(natts / 8)\<close> bytes (none when \<open>HEAP_HASNULL\<close> is clear), padding up to
  \<open>t_hoff\<close>, and the data.
\<close>

theorem parse_and_build_iff_layout:
  "parse_and_build raw = Ok t \<longleftrightarrow>
    length (null_bitmap t) = bitmap_len (header t) \<and>
    (\<exists>pad. raw = tuple_bytes t pad \<and>
           unat (t_hoff (header t)) = 23 + bitmap_len (header t) + length pad)"
  using parse_and_build_inv parse_and_build_tuple_bytes by blast

text \<open>
  \<open>parse_and_build\<close> never panics, and each failure is reported by the error of the first
  check that does not hold: a buffer below 23 bytes, \<open>t_hoff\<close> outside \<open>[23, len]\<close>, a null
  bitmap that runs past \<open>t_hoff\<close>.
\<close>

theorem parse_and_build_errors:
  "parse_and_build raw \<noteq> Panic \<and>
   (parse_and_build raw = Err e \<longleftrightarrow>
    (if length raw < 23 then e = TupleBufferTooShort (length raw) 23
     else \<exists>h. read_tuple_header raw = Ok h \<and>
       (if unat (t_hoff h) < 23 \<or> length raw < unat (t_hoff h)
        then e = InvalidTupleHoff (t_hoff h) 23 (length raw)
        else unat (t_hoff h) < 23 + bitmap_len h \<and>
             e = NullBitmapOverflow (23 + bitmap_len h) (unat (t_hoff h)))))"
proof -
  consider "length raw < 23" "\<And>h. read_tuple_header raw \<noteq> Ok h"
    | h where "read_tuple_header raw = Ok h" "23 \<le> length raw"
    using read_tuple_header_Ok [of raw] read_tuple_header_length [of raw]
    by (cases "length raw < 23") (fastforce simp: tuple_consts)+
  then show ?thesis
    by cases (auto simp: parse_and_build_eq)
qed

text \<open>
  The two 16-bit halves of a \<open>BlockIdData\<close> and the 32-bit block number convert into each
  other without loss, in both directions.
\<close>

theorem block_id_roundtrip:
  "block_number (block_id_from n) = n \<and> block_id_from (block_number b) = b"
  by (simp add: block_number_id block_id_number)

end
