(* ===== verification/Page.thy ===== *)
theory Page
  imports Tuple
begin

text \<open>
  \<open>src/heap/page.rs\<close>, the page layout: line pointers, the 24-byte page header, and
  \<open>HeapPageData\<close> with its two operations \<open>parse_bytes\<close> and \<open>get_row_data\<close>.  The conversion of a
  page to a record batch is in the theory \<open>Batch\<close>.
\<close>

definition PAGE_BUFFER_SIZE :: usize where
  "PAGE_BUFFER_SIZE = 8 * 1024"

definition PAGES_PER_SEGMENT :: usize where
  "PAGES_PER_SEGMENT = (1024 * 1024 * 1024) div PAGE_BUFFER_SIZE"

record page_xlog_rec_ptr =
  xlogid :: u32
  xrecoff :: u32

section \<open>Line pointers\<close>

datatype item_id_data = ItemIdData u32

fun lp_off :: "item_id_data \<Rightarrow> u16" where
  "lp_off (ItemIdData w) = ucast (w AND 0x7FFF)"

fun lp_flags :: "item_id_data \<Rightarrow> u8" where
  "lp_flags (ItemIdData w) = ucast (drop_bit 15 w AND 0x03)"

fun lp_len :: "item_id_data \<Rightarrow> u16" where
  "lp_len (ItemIdData w) = ucast (drop_bit 17 w AND 0x7FFF)"

definition LP_UNUSED :: u8 where "LP_UNUSED = 0"
definition LP_NORMAL :: u8 where "LP_NORMAL = 1"
definition LP_REDIRECT :: u8 where "LP_REDIRECT = 2"
definition LP_DEAD :: u8 where "LP_DEAD = 3"

lemmas lp_consts = LP_UNUSED_def LP_NORMAL_def LP_REDIRECT_def LP_DEAD_def

text \<open>\<open>impl Display for ItemIdData\<close>.\<close>

definition item_id_to_string :: "item_id_data \<Rightarrow> string" where
  "item_id_to_string lp =
     (let flags = (if lp_flags lp = 0 then ''UNUSED'' else if lp_flags lp = 1 then ''NORMAL''
                   else if lp_flags lp = 2 then ''REDIRECT'' else if lp_flags lp = 3 then ''DEAD''
                   else ''UNKNOWN'')
      in ''ItemId(off='' @ show_nat (unat (lp_off lp)) @ '', flags='' @ flags @
         '', len='' @ show_nat (unat (lp_len lp)) @ '')'')"

section \<open>Page header\<close>

record page_header_data =
  pd_lsn :: page_xlog_rec_ptr
  pd_checksum :: u16
  pd_flags :: u16
  pd_lower :: u16
  pd_upper :: u16
  pd_special :: u16
  pd_pagesize_version :: u16
  pd_prune_xid :: u32

definition page_size :: "page_header_data \<Rightarrow> u16" where
  "page_size h = pd_pagesize_version h AND 0xFF00"

definition page_version :: "page_header_data \<Rightarrow> u16" where
  "page_version h = pd_pagesize_version h AND 0x00FF"

text \<open>\<open>saturating_sub\<close> is the subtraction of \<open>nat\<close>.\<close>

definition num_line_pointers :: "page_header_data \<Rightarrow> usize" where
  "num_line_pointers h = (unat (pd_lower h) - 24) div 4"

definition page_header_parse :: "bytes \<Rightarrow> page_header_data pg_result" where
  "page_header_parse page_buffer =
     (if length page_buffer < 24 then Err (PageBufferTooShort (length page_buffer) 24)
      else
        obind (read_u32 page_buffer 0) (\<lambda>lsn_id.
        obind (read_u32 page_buffer 4) (\<lambda>lsn_off.
        obind (read_u16 page_buffer 8) (\<lambda>checksum.
        obind (read_u16 page_buffer 10) (\<lambda>flags.
        obind (read_u16 page_buffer 12) (\<lambda>lower.
        obind (read_u16 page_buffer 14) (\<lambda>upper.
        obind (read_u16 page_buffer 16) (\<lambda>special.
        obind (read_u16 page_buffer 18) (\<lambda>pv1.
        obind (read_u16 page_buffer 18) (\<lambda>pv2.
        obind (read_u32 page_buffer 20) (\<lambda>prune_xid.
          let pagesize = pv1 AND 0xFF00; version = pv2 AND 0x00FF in
          Ok \<lparr>pd_lsn = \<lparr>xlogid = lsn_id, xrecoff = lsn_off\<rparr>, pd_checksum = checksum,
              pd_flags = flags, pd_lower = lower, pd_upper = upper, pd_special = special,
              pd_pagesize_version = pagesize OR version, pd_prune_xid = prune_xid\<rparr>)))))))))))"

section \<open>Heap pages\<close>

record heap_page_data =
  page_header :: page_header_data
  lp_num :: usize
  lp_items :: "item_id_data list"
  page_data :: bytes

definition read_line_pointer :: "bytes \<Rightarrow> usize \<Rightarrow> item_id_data pg_result" where
  "read_line_pointer page ix =
     (let off = 24 + ix * 4 in obind (read_u32 page off) (\<lambda>w. Ok (ItemIdData w)))"

definition page_parse_bytes :: "bytes \<Rightarrow> heap_page_data pg_result" where
  "page_parse_bytes page_buffer =
     (if length page_buffer < PAGE_BUFFER_SIZE
      then Err (PageBufferTooShort (length page_buffer) PAGE_BUFFER_SIZE)
      else
        obind (page_header_parse page_buffer) (\<lambda>hdr.
        let n = num_line_pointers hdr in
        obind (omap (\<lambda>lp_index. read_line_pointer page_buffer lp_index) [0..<n]) (\<lambda>items.
          Ok \<lparr>page_header = hdr, lp_num = n, lp_items = items, page_data = page_buffer\<rparr>)))"

text \<open>
  \<open>HeapPageData::parse\<close> takes a \<open>[u8; PAGE_BUFFER_SIZE]\<close> and copies it into a \<open>Bytes\<close>; here the
  argument is the list of its bytes.
\<close>

definition page_parse :: "bytes \<Rightarrow> heap_page_data pg_result" where
  "page_parse page_buffer = page_parse_bytes page_buffer"

definition get_row_data :: "heap_page_data \<Rightarrow> u16 \<Rightarrow> heap_tuple_data pg_result" where
  "get_row_data page posid =
     obind (ok_or (get (lp_items page) (unat posid)) Generic) (\<lambda>lp.
     if lp_flags lp = LP_DEAD then Err (DeadTupleLinePointer (unat posid))
     else if lp_flags lp = LP_UNUSED then Err (DeadTupleLinePointer (unat posid))
     else if lp_flags lp = LP_REDIRECT then Err (DeadTupleLinePointer (unat posid))
     else
       let start = unat (lp_off lp) in
       obind (ok_or (checked_add_usize start (unat (lp_len lp))) Generic) (\<lambda>stop.
       obind (ok_or (get_range (page_data page) start stop) Generic) (\<lambda>raw.
         parse_and_build raw)))"

section \<open>The layout the parsers must invert\<close>

text \<open>
  \<open>ItemIdData\<close> is a C bit field: 15 bits of offset, 2 of flags, 15 of length, from the least
  significant bit.
\<close>

definition item_id_pack :: "u16 \<Rightarrow> u8 \<Rightarrow> u16 \<Rightarrow> item_id_data" where
  "item_id_pack off flags len =
     ItemIdData (ucast off OR push_bit 15 (ucast flags) OR push_bit 17 (ucast len))"

fun item_id_bytes :: "item_id_data \<Rightarrow> bytes" where
  "item_id_bytes (ItemIdData w) = u32_bytes w"

definition page_header_bytes :: "page_header_data \<Rightarrow> bytes" where
  "page_header_bytes h =
     u32_bytes (xlogid (pd_lsn h)) @ u32_bytes (xrecoff (pd_lsn h)) @ u16_bytes (pd_checksum h) @
     u16_bytes (pd_flags h) @ u16_bytes (pd_lower h) @ u16_bytes (pd_upper h) @
     u16_bytes (pd_special h) @ u16_bytes (pd_pagesize_version h) @ u32_bytes (pd_prune_xid h)"

section \<open>Lemmas\<close>

lemma mask_numerals:
  "(0x7FFF :: u32) = mask 15" "(0x03 :: u32) = mask 2"
  "(0xFF00 :: u16) = NOT (mask 8)" "(0x00FF :: u16) = mask 8"
  by (simp_all add: mask_eq_exp_minus_1)

text \<open>The three fields of a line pointer as arithmetic on its 32-bit value.\<close>

lemma item_id_fields:
  "unat (lp_off (ItemIdData w)) = unat w mod 2 ^ 15"
  "unat (lp_flags (ItemIdData w)) = unat w div 2 ^ 15 mod 4"
  "unat (lp_len (ItemIdData w)) = unat w div 2 ^ 17"
proof -
  have "unat (ucast (take_bit 15 w) :: u16) = take_bit 16 (take_bit 15 (unat w))"
    by (simp only: unsigned_ucast_eq unsigned_take_bit_eq) simp
  then show "unat (lp_off (ItemIdData w)) = unat w mod 2 ^ 15"
    by (simp only: lp_off.simps mask_numerals flip: take_bit_eq_mask) (simp add: take_bit_eq_mod)
  have "unat (ucast (take_bit 2 (drop_bit 15 w)) :: u8) = take_bit 8 (take_bit 2 (drop_bit 15 (unat w)))"
    by (simp only: unsigned_ucast_eq unsigned_take_bit_eq unsigned_drop_bit_eq)
      (simp add: take_bit_nat_eq_self)
  then show "unat (lp_flags (ItemIdData w)) = unat w div 2 ^ 15 mod 4"
    by (simp only: lp_flags.simps mask_numerals flip: take_bit_eq_mask)
      (simp add: take_bit_eq_mod drop_bit_eq_div)
  have "unat w div 2 ^ 17 < 2 ^ 15" by (simp add: less_mult_imp_div_less)
  moreover have "unat (ucast (take_bit 15 (drop_bit 17 w)) :: u16)
      = take_bit 16 (take_bit 15 (drop_bit 17 (unat w)))"
    by (simp only: unsigned_ucast_eq unsigned_take_bit_eq unsigned_drop_bit_eq)
      (simp add: take_bit_nat_eq_self)
  ultimately show "unat (lp_len (ItemIdData w)) = unat w div 2 ^ 17"
    by (simp only: lp_len.simps mask_numerals flip: take_bit_eq_mask)
      (simp add: take_bit_eq_mod drop_bit_eq_div)
qed

lemma item_id_bounds:
  "unat (lp_off lp) < 2 ^ 15" "unat (lp_flags lp) < 4" "unat (lp_len lp) < 2 ^ 15"
proof -
  obtain w where lp: "lp = ItemIdData w" by (cases lp)
  show "unat (lp_off lp) < 2 ^ 15" "unat (lp_flags lp) < 4"
    by (simp_all only: lp item_id_fields) simp_all
  show "unat (lp_len lp) < 2 ^ 15"
    unfolding lp item_id_fields by (simp add: less_mult_imp_div_less)
qed

lemma lp_flags_cases: "lp_flags lp \<in> {LP_UNUSED, LP_NORMAL, LP_REDIRECT, LP_DEAD}"
proof -
  have "unat (lp_flags lp) \<in> {0, 1, 2, 3}" using item_id_bounds(2) [of lp] by auto
  then have "(word_of_nat (unat (lp_flags lp)) :: u8) \<in> word_of_nat ` {0, 1, 2, 3}"
    by (rule imageI)
  then show ?thesis by (simp add: lp_consts insert_commute)
qed

lemma word_bits_below: "unat x < 2 ^ k \<Longrightarrow> bit (x :: 'a::len word) n \<Longrightarrow> n < k"
proof -
  assume "unat x < 2 ^ k" and b: "bit x n"
  then have "take_bit k (unat x) = unat x" by (simp add: take_bit_nat_eq_self)
  then have "x = take_bit k x" by (metis unsigned_take_bit_eq unsigned_word_eqI)
  with b show "n < k" by (metis bit_take_bit_iff)
qed

lemma item_id_pack_fields:
  assumes "unat off < 2 ^ 15" and "unat flags < 2 ^ 2" and "unat len < 2 ^ 15"
  shows "lp_off (item_id_pack off flags len) = off"
    and "lp_flags (item_id_pack off flags len) = flags"
    and "lp_len (item_id_pack off flags len) = len"
proof -
  note below = word_bits_below [OF assms(1)] word_bits_below [OF assms(2)] word_bits_below [OF assms(3)]
  show "lp_off (item_id_pack off flags len) = off"
    by (simp only: item_id_pack_def lp_off.simps mask_numerals, rule bit_word_eqI)
      (auto simp: bit_simps dest: below)
  show "lp_flags (item_id_pack off flags len) = flags"
    by (simp only: item_id_pack_def lp_flags.simps mask_numerals, rule bit_word_eqI)
      (auto simp: bit_simps dest: below)
  show "lp_len (item_id_pack off flags len) = len"
    by (simp only: item_id_pack_def lp_len.simps mask_numerals, rule bit_word_eqI)
      (auto simp: bit_simps dest: below)
qed

lemma item_id_pack_self: "item_id_pack (lp_off lp) (lp_flags lp) (lp_len lp) = lp"
proof (cases lp)
  case (ItemIdData w)
  have "ucast (ucast (w AND mask 15) :: u16) OR push_bit 15 (ucast (ucast (drop_bit 15 w AND mask 2) :: u8)) OR
      push_bit 17 (ucast (ucast (drop_bit 17 w AND mask 15) :: u16)) = w"
  proof (rule bit_word_eqI)
    fix n assume "n < LENGTH(32)"
    then show "bit (ucast (ucast (w AND mask 15) :: u16) OR
        push_bit 15 (ucast (ucast (drop_bit 15 w AND mask 2) :: u8)) OR
        push_bit 17 (ucast (ucast (drop_bit 17 w AND mask 15) :: u16)) :: u32) n = bit w n"
      by (cases "n < 15"; cases "n < 17") (auto simp: bit_simps)
  qed
  then show ?thesis
    unfolding ItemIdData item_id_pack_def lp_off.simps lp_flags.simps lp_len.simps mask_numerals
    by simp
qed

lemma page_header_bytes_length [simp]: "length (page_header_bytes h) = 24"
  by (simp add: page_header_bytes_def u16.enc_length u32.enc_length)

lemma pagesize_version_recombined: "(pv AND 0xFF00) OR (pv AND 0x00FF) = (pv :: u16)"
  unfolding mask_numerals by (rule bit_word_eqI) (auto simp: bit_simps)

lemma page_header_parse_total: "24 \<le> length buf \<Longrightarrow> \<exists>h. page_header_parse buf = Ok h"
  by (simp add: page_header_parse_def read_uint_defs read_simps)

lemma page_header_parse_roundtrip: "page_header_parse (page_header_bytes h @ rest) = Ok h"
proof -
  let ?b = "page_header_bytes h @ rest"
  have d: "drop 0 ?b = u32_bytes (xlogid (pd_lsn h)) @ drop 4 ?b"
    "drop 4 ?b = u32_bytes (xrecoff (pd_lsn h)) @ drop 8 ?b"
    "drop 20 ?b = u32_bytes (pd_prune_xid h) @ drop 24 ?b"
    "drop 8 ?b = u16_bytes (pd_checksum h) @ drop 10 ?b"
    "drop 10 ?b = u16_bytes (pd_flags h) @ drop 12 ?b"
    "drop 12 ?b = u16_bytes (pd_lower h) @ drop 14 ?b"
    "drop 14 ?b = u16_bytes (pd_upper h) @ drop 16 ?b"
    "drop 16 ?b = u16_bytes (pd_special h) @ drop 18 ?b"
    "drop 18 ?b = u16_bytes (pd_pagesize_version h) @ drop 20 ?b"
    by (simp_all add: page_header_bytes_def u16.enc_length u32.enc_length)
  show ?thesis
    by (simp add: page_header_parse_def read_uint_defs pagesize_version_recombined
        u32.read_at [OF d(1)] u32.read_at [OF d(2)] u32.read_at [OF d(3)]
        u16.read_at [OF d(4)] u16.read_at [OF d(5)] u16.read_at [OF d(6)]
        u16.read_at [OF d(7)] u16.read_at [OF d(8)] u16.read_at [OF d(9)])
qed

lemma page_header_parse_inv:
  assumes "page_header_parse buf = Ok h"
  shows "buf = page_header_bytes h @ drop 24 buf"
proof -
  from assms have "(read_ne 4 buf 0 :: u32 pg_result) = Ok (xlogid (pd_lsn h))"
    "(read_ne 4 buf 4 :: u32 pg_result) = Ok (xrecoff (pd_lsn h))"
    "(read_ne 4 buf 20 :: u32 pg_result) = Ok (pd_prune_xid h)"
    "(read_ne 2 buf 8 :: u16 pg_result) = Ok (pd_checksum h)"
    "(read_ne 2 buf 10 :: u16 pg_result) = Ok (pd_flags h)"
    "(read_ne 2 buf 12 :: u16 pg_result) = Ok (pd_lower h)"
    "(read_ne 2 buf 14 :: u16 pg_result) = Ok (pd_upper h)"
    "(read_ne 2 buf 16 :: u16 pg_result) = Ok (pd_special h)"
    "(read_ne 2 buf 18 :: u16 pg_result) = Ok (pd_pagesize_version h)"
    by (auto simp: page_header_parse_def read_uint_defs outcome_simps pagesize_version_recombined
        split: if_splits)
  note f = this(1-3) [THEN u32.read_at_inv] this(4-9) [THEN u16.read_at_inv]
  show ?thesis using f by (simp add: page_header_bytes_def)
qed

lemma num_line_pointers_bound: "num_line_pointers h \<le> 16377"
proof -
  have "unat (pd_lower h) - 24 \<le> 65511"
    using unat_u16_less [of "pd_lower h"] by linarith
  then show ?thesis
    unfolding num_line_pointers_def using div_le_mono [of "unat (pd_lower h) - 24" 65511 4] by simp
qed

definition line_pointer_at :: "bytes \<Rightarrow> usize \<Rightarrow> item_id_data" where
  "line_pointer_at buf i = ItemIdData (word_of_nat (le_val (take 4 (drop (24 + i * 4) buf))))"

lemma read_line_pointer_eq:
  "read_line_pointer buf i =
    (if 24 + i * 4 + 4 \<le> length buf then Ok (line_pointer_at buf i) else Panic)"
proof (cases "24 + i * 4 + 4 \<le> length buf")
  case True
  then show ?thesis
    by (simp add: read_line_pointer_def line_pointer_at_def Let_def read_u32_def read_ne_Ok)
next
  case False
  then have "(read_u32 buf (24 + i * 4) :: u32 pg_result) = Panic" by (simp add: outcome_simps)
  with False show ?thesis by (simp add: read_line_pointer_def Let_def)
qed

lemma read_line_pointers:
  "omap (\<lambda>i. read_line_pointer buf i) [0..<n] =
    (if 24 + 4 * n \<le> length buf \<or> n = 0 then Ok (map (line_pointer_at buf) [0..<n]) else Panic)"
proof (cases "24 + 4 * n \<le> length buf \<or> n = 0")
  case True
  then have "omap (\<lambda>i. read_line_pointer buf i) [0..<n] = Ok (map (line_pointer_at buf) [0..<n])"
    by (intro omap_all_Ok) (auto simp: read_line_pointer_eq)
  with True show ?thesis by simp
next
  case False
  then have "read_line_pointer buf (n - 1) = Panic" and n: "n - 1 \<in> set [0..<n]"
    by (auto simp: read_line_pointer_eq)
  then have "omap (\<lambda>i. read_line_pointer buf i) [0..<n] \<noteq> Ok ys" for ys
    using omap_nth [of "\<lambda>i. read_line_pointer buf i" "[0..<n]" ys "n - 1"] False by auto
  moreover have "omap (\<lambda>i. read_line_pointer buf i) [0..<n] \<noteq> Err e" for e
    by (auto dest!: omap_Err simp: read_line_pointer_eq split: if_splits)
  ultimately show ?thesis using False
    by (cases "omap (\<lambda>i. read_line_pointer buf i) [0..<n]") auto
qed

lemma page_parse_bytes_eq:
  assumes "page_header_parse buf = Ok h"
  shows "page_parse_bytes buf =
    (if length buf < 8192 then Err (PageBufferTooShort (length buf) 8192)
     else if length buf < 24 + 4 * num_line_pointers h then Panic
     else Ok \<lparr>page_header = h, lp_num = num_line_pointers h,
              lp_items = map (line_pointer_at buf) [0..<num_line_pointers h], page_data = buf\<rparr>)"
  using assms by (simp add: page_parse_bytes_def PAGE_BUFFER_SIZE_def Let_def read_line_pointers)

lemma item_id_bytes_length [simp]: "length (item_id_bytes lp) = 4"
  by (cases lp) (simp add: u32.enc_length)

lemma line_pointer_at_append:
  "line_pointer_at (page_header_bytes h @ item_id_bytes lp @ rest) 0 = lp"
  by (cases lp) (simp add: line_pointer_at_def u32.enc_length u32.dec_enc)

lemma item_id_bytes_at:
  assumes "24 + i * 4 + 4 \<le> length buf"
  shows "item_id_bytes (line_pointer_at buf i) = take 4 (drop (24 + i * 4) buf)"
  using assms by (simp add: line_pointer_at_def u32.enc_dec)

lemma concat_item_id_bytes_at:
  "24 + 4 * n \<le> length buf \<Longrightarrow>
    concat (map item_id_bytes (map (line_pointer_at buf) [0..<n])) = take (4 * n) (drop 24 buf)"
proof (induction n)
  case (Suc n)
  then have "item_id_bytes (line_pointer_at buf n) = take 4 (drop (4 * n) (drop 24 buf))"
    by (simp add: item_id_bytes_at add.commute mult.commute)
  with Suc show ?case
    using take_add [of "4 * n" 4 "drop 24 buf"] by (simp add: add.commute)
qed simp

lemma line_pointer_at_concat:
  "i < length items \<Longrightarrow>
    line_pointer_at (page_header_bytes h @ concat (map item_id_bytes items) @ rest) i = items ! i"
proof -
  assume i: "i < length items"
  let ?f = "concat (map item_id_bytes items)"
  have len: "length (concat (map item_id_bytes xs)) = 4 * length xs" for xs
    by (induction xs) auto
  have "items = take i items @ items ! i # drop (Suc i) items"
    using i by (rule id_take_nth_drop)
  then have "?f = concat (map item_id_bytes (take i items)) @ item_id_bytes (items ! i) @
      concat (map item_id_bytes (drop (Suc i) items))"
    by (metis concat.simps(2) concat_append list.simps(9) map_append)
  then have "drop (i * 4) (?f @ rest) = item_id_bytes (items ! i) @
      concat (map item_id_bytes (drop (Suc i) items)) @ rest"
    using len [of "take i items"] i by simp
  then show ?thesis
    by (cases "items ! i") (simp add: line_pointer_at_def u32.enc_length u32.dec_enc)
qed

lemma get_row_data_eq:
  "get_row_data page posid =
    (if unat posid < length (lp_items page)
     then let lp = lp_items page ! unat posid; off = unat (lp_off lp); len = unat (lp_len lp) in
       if lp_flags lp \<noteq> LP_NORMAL then Err (DeadTupleLinePointer (unat posid))
       else if off + len \<le> length (page_data page)
       then parse_and_build (take len (drop off (page_data page)))
       else Err Generic
     else Err Generic)"
proof (cases "unat posid < length (lp_items page)")
  case True
  let ?lp = "lp_items page ! unat posid"
  have "lp_flags ?lp \<noteq> LP_NORMAL \<longleftrightarrow> lp_flags ?lp \<in> {LP_UNUSED, LP_REDIRECT, LP_DEAD}"
    using lp_flags_cases [of ?lp] by (auto simp: lp_consts)
  moreover have "unat (lp_off ?lp) + unat (lp_len ?lp) < 2 ^ 64"
    using item_id_bounds(1,3) [of ?lp] by simp
  ultimately show ?thesis
    using True by (auto simp: get_row_data_def Let_def checked_add_usize_def get_range_def)
next
  case False
  then show ?thesis by (simp add: get_row_data_def)
qed

section \<open>Properties\<close>

text \<open>
  The three accessors of a line pointer read a 15/2/15 bit field: packing an offset, flags
  and a length in range and reading them back gives the same values, and packing the three
  fields of any line pointer gives that line pointer.
\<close>

theorem item_id_roundtrip:
  "(unat off < 2 ^ 15 \<and> unat flags < 2 ^ 2 \<and> unat len < 2 ^ 15 \<longleftrightarrow>
      lp_off (item_id_pack off flags len) = off \<and>
      lp_flags (item_id_pack off flags len) = flags \<and>
      lp_len (item_id_pack off flags len) = len) \<and>
   item_id_pack (lp_off lp) (lp_flags lp) (lp_len lp) = lp"
proof -
  have "unat (lp_flags p) < 2 ^ 2" for p using item_id_bounds(2) [of p] by simp
  then show ?thesis
    using item_id_pack_fields [of off flags len] item_id_bounds [of "item_id_pack off flags len"]
    by (metis item_id_pack_self)
qed

text \<open>
  \<open>PageHeaderData::parse\<close> is the inverse of the 24-byte header layout: it returns \<open>h\<close> exactly
  for the buffers that start with the fields of \<open>h\<close> in order (the page size and version halves of
  \<open>pd_pagesize_version\<close> are recombined without loss), it fails exactly on buffers below 24 bytes,
  and it never panics.
\<close>

theorem page_header_parse_iff:
  "(page_header_parse buf = Ok h \<longleftrightarrow> (\<exists>rest. buf = page_header_bytes h @ rest)) \<and>
   (page_header_parse buf = Err e \<longleftrightarrow> length buf < 24 \<and> e = PageBufferTooShort (length buf) 24) \<and>
   page_header_parse buf \<noteq> Panic"
proof (cases "length buf < 24")
  case True
  then have "buf \<noteq> page_header_bytes h @ rest" for rest by auto
  with True show ?thesis by (auto simp: page_header_parse_def)
next
  case False
  then obtain h' where h': "page_header_parse buf = Ok h'"
    using page_header_parse_total [of buf] by auto
  then show ?thesis
    using False page_header_parse_inv [of buf h] page_header_parse_roundtrip [of h] by auto
qed

text \<open>
  Every way \<open>HeapPageData::parse_bytes\<close> can end.  It reports \<open>PageBufferTooShort\<close> exactly on
  buffers below 8192 bytes; otherwise it returns a page, unless the line pointer array that
  \<open>pd_lower\<close> announces reaches past the buffer: then the unchecked slice of
  \<open>read_line_pointer\<close> panics instead of returning an error.
\<close>

theorem page_parse_bytes_outcome:
  "(page_parse_bytes buf = Err e \<longleftrightarrow>
      length buf < 8192 \<and> e = PageBufferTooShort (length buf) 8192) \<and>
   (page_parse_bytes buf = Panic \<longleftrightarrow>
      8192 \<le> length buf \<and>
      (\<exists>h. page_header_parse buf = Ok h \<and> length buf < 24 + 4 * num_line_pointers h))"
proof (cases "length buf < 8192")
  case True
  then show ?thesis by (auto simp: page_parse_bytes_def PAGE_BUFFER_SIZE_def)
next
  case False
  then obtain h where "page_header_parse buf = Ok h"
    using page_header_parse_total [of buf] by auto
  then show ?thesis using False by (auto simp: page_parse_bytes_eq)
qed

text \<open>
  C10: A parsed page is the inverse of the page layout: the result is \<open>p\<close> exactly when the buffer
  has at least 8192 bytes and consists of the header of \<open>p\<close>, its \<open>lp_num\<close> line pointers in order,
  and the rest of the page; the whole buffer is kept for later tuple access.
\<close>

theorem page_parse_bytes_iff_layout:
  "page_parse_bytes buf = Ok p \<longleftrightarrow>
    8192 \<le> length buf \<and> page_data p = buf \<and>
    lp_num p = num_line_pointers (page_header p) \<and> length (lp_items p) = lp_num p \<and>
    (\<exists>rest. buf = page_header_bytes (page_header p) @ concat (map item_id_bytes (lp_items p)) @ rest)"
    (is "?ok = ?layout")
proof
  assume ok: ?ok
  then have len: "8192 \<le> length buf"
    by (auto simp: page_parse_bytes_def PAGE_BUFFER_SIZE_def split: if_splits)
  then obtain h where h: "page_header_parse buf = Ok h"
    using page_header_parse_total [of buf] by auto
  let ?n = "num_line_pointers h"
  from ok h len have n: "24 + 4 * ?n \<le> length buf"
    and p: "p = \<lparr>page_header = h, lp_num = ?n, lp_items = map (line_pointer_at buf) [0..<?n], page_data = buf\<rparr>"
    by (auto simp: page_parse_bytes_eq split: if_splits)
  have "buf = page_header_bytes h @ take (4 * ?n) (drop 24 buf) @ drop (4 * ?n) (drop 24 buf)"
    using page_header_parse_inv [OF h] by (simp only: append_take_drop_id)
  then show ?layout
    using concat_item_id_bytes_at [OF n] len by (auto simp: p)
next
  assume l: ?layout
  then obtain rest where b: "buf = page_header_bytes (page_header p) @
      concat (map item_id_bytes (lp_items p)) @ rest" by blast
  have len: "length (concat (map item_id_bytes xs)) = 4 * length xs" for xs
    by (induction xs) auto
  have "map (line_pointer_at buf) [0..<length (lp_items p)] = lp_items p"
    by (rule nth_equalityI) (simp_all add: b line_pointer_at_concat)
  moreover have "page_header_parse buf = Ok (page_header p)"
    unfolding b by (rule page_header_parse_roundtrip)
  moreover have "24 + 4 * length (lp_items p) \<le> length buf"
    by (simp add: b len)
  ultimately show ?ok
    using l by (simp add: page_parse_bytes_eq)
qed

text \<open>
  \<open>get_row_data\<close> on every branch: an index past the line pointer array, or a normal line
  pointer whose item leaves the page, is \<open>Generic\<close>; an unused, redirect or dead line pointer is
  \<open>DeadTupleLinePointer\<close>; otherwise the item's bytes go through \<open>parse_and_build\<close>.  It never
  panics.
\<close>

theorem get_row_data_outcome:
  "get_row_data page posid \<noteq> Panic \<and>
   get_row_data page posid =
    (if unat posid < length (lp_items page)
     then let lp = lp_items page ! unat posid; off = unat (lp_off lp); len = unat (lp_len lp) in
       if lp_flags lp \<noteq> LP_NORMAL then Err (DeadTupleLinePointer (unat posid))
       else if off + len \<le> length (page_data page)
       then parse_and_build (take len (drop off (page_data page)))
       else Err Generic
     else Err Generic)"
  unfolding get_row_data_eq by (simp add: Let_def)

end
