(* ===== verification/TypeId.thy ===== *)
theory TypeId
  imports Errors
begin

text \<open>
  The type tables of \<open>src/types/codec.rs\<close>: \<open>PgTypeId\<close> with its OIDs, \<open>TryFrom<u32>\<close>, the on-disk
  length and alignment of every type, the \<open>PgTypeInfo\<close> bundle, and the Arrow \<open>DataType\<close> each type
  maps to.  Constructors carry the prefix \<open>T_\<close> (the source writes \<open>T::Oid\<close> in its own tables).
\<close>

datatype pg_align = Align_Char | Align_Short | Align_Int | Align_Double

text \<open>The discriminants of \<open>PgAlign\<close>.\<close>

primrec pg_align_bytes :: "pg_align \<Rightarrow> usize" where
  "pg_align_bytes Align_Char = 1"
| "pg_align_bytes Align_Short = 2"
| "pg_align_bytes Align_Int = 4"
| "pg_align_bytes Align_Double = 8"

datatype (plugins only: code size) pg_type_id =
    T_Bool | T_Bytea | T_Char | T_Name | T_Int8 | T_Int2 | T_Int4 | T_Text | T_Oid | T_Tid
  | T_Xid | T_Cid | T_Json | T_Xml | T_Point | T_Lseg | T_Path | T_Box | T_Polygon | T_Line
  | T_Cidr | T_Float4 | T_Float8 | T_Circle | T_Macaddr8 | T_Money | T_Macaddr | T_Inet
  | T_Aclitem | T_Bpchar | T_Varchar | T_Date | T_Time | T_Timestamp | T_Timestamptz
  | T_Interval | T_Timetz | T_Bit | T_Varbit | T_Numeric | T_Uuid | T_Jsonb | T_Jsonpath
  | T_Xid8 | T_BoolArray | T_ByteaArray | T_CharArray | T_NameArray | T_Int2Array | T_Int4Array
  | T_TextArray | T_TidArray | T_XidArray | T_CidArray | T_VarcharArray | T_Int8Array
  | T_Float4Array | T_Float8Array | T_OidArray | T_TimestampArray | T_DateArray | T_TimeArray
  | T_TimestamptzArray | T_NumericArray | T_UuidArray | T_JsonbArray

text \<open>\<open>PgTypeId::oid\<close>: the discriminant.\<close>

primrec type_oid :: "pg_type_id \<Rightarrow> u32" where
  "type_oid T_Bool = 16"
| "type_oid T_Bytea = 17"
| "type_oid T_Char = 18"
| "type_oid T_Name = 19"
| "type_oid T_Int8 = 20"
| "type_oid T_Int2 = 21"
| "type_oid T_Int4 = 23"
| "type_oid T_Text = 25"
| "type_oid T_Oid = 26"
| "type_oid T_Tid = 27"
| "type_oid T_Xid = 28"
| "type_oid T_Cid = 29"
| "type_oid T_Json = 114"
| "type_oid T_Xml = 142"
| "type_oid T_Point = 600"
| "type_oid T_Lseg = 601"
| "type_oid T_Path = 602"
| "type_oid T_Box = 603"
| "type_oid T_Polygon = 604"
| "type_oid T_Line = 628"
| "type_oid T_Cidr = 650"
| "type_oid T_Float4 = 700"
| "type_oid T_Float8 = 701"
| "type_oid T_Circle = 718"
| "type_oid T_Macaddr8 = 774"
| "type_oid T_Money = 790"
| "type_oid T_Macaddr = 829"
| "type_oid T_Inet = 869"
| "type_oid T_Aclitem = 1033"
| "type_oid T_Bpchar = 1042"
| "type_oid T_Varchar = 1043"
| "type_oid T_Date = 1082"
| "type_oid T_Time = 1083"
| "type_oid T_Timestamp = 1114"
| "type_oid T_Timestamptz = 1184"
| "type_oid T_Interval = 1186"
| "type_oid T_Timetz = 1266"
| "type_oid T_Bit = 1560"
| "type_oid T_Varbit = 1562"
| "type_oid T_Numeric = 1700"
| "type_oid T_Uuid = 2950"
| "type_oid T_Jsonb = 3802"
| "type_oid T_Jsonpath = 4072"
| "type_oid T_Xid8 = 5069"
| "type_oid T_BoolArray = 1000"
| "type_oid T_ByteaArray = 1001"
| "type_oid T_CharArray = 1002"
| "type_oid T_NameArray = 1003"
| "type_oid T_Int2Array = 1005"
| "type_oid T_Int4Array = 1007"
| "type_oid T_TextArray = 1009"
| "type_oid T_TidArray = 1010"
| "type_oid T_XidArray = 1011"
| "type_oid T_CidArray = 1012"
| "type_oid T_VarcharArray = 1015"
| "type_oid T_Int8Array = 1016"
| "type_oid T_Float4Array = 1021"
| "type_oid T_Float8Array = 1022"
| "type_oid T_OidArray = 1028"
| "type_oid T_TimestampArray = 1115"
| "type_oid T_DateArray = 1182"
| "type_oid T_TimeArray = 1183"
| "type_oid T_TimestamptzArray = 1185"
| "type_oid T_NumericArray = 1231"
| "type_oid T_UuidArray = 2951"
| "type_oid T_JsonbArray = 3807"

text \<open>\<open>impl TryFrom<u32> for PgTypeId\<close>: the error is the unknown OID itself.\<close>

definition type_id_try_from :: "u32 \<Rightarrow> (u32, pg_type_id) outcome" where
  "type_id_try_from oid =
     (if oid = 16 then Ok T_Bool
     else if oid = 17 then Ok T_Bytea
     else if oid = 18 then Ok T_Char
     else if oid = 19 then Ok T_Name
     else if oid = 20 then Ok T_Int8
     else if oid = 21 then Ok T_Int2
     else if oid = 23 then Ok T_Int4
     else if oid = 25 then Ok T_Text
     else if oid = 26 then Ok T_Oid
     else if oid = 27 then Ok T_Tid
     else if oid = 28 then Ok T_Xid
     else if oid = 29 then Ok T_Cid
     else if oid = 114 then Ok T_Json
     else if oid = 142 then Ok T_Xml
     else if oid = 600 then Ok T_Point
     else if oid = 601 then Ok T_Lseg
     else if oid = 602 then Ok T_Path
     else if oid = 603 then Ok T_Box
     else if oid = 604 then Ok T_Polygon
     else if oid = 628 then Ok T_Line
     else if oid = 650 then Ok T_Cidr
     else if oid = 700 then Ok T_Float4
     else if oid = 701 then Ok T_Float8
     else if oid = 718 then Ok T_Circle
     else if oid = 774 then Ok T_Macaddr8
     else if oid = 790 then Ok T_Money
     else if oid = 829 then Ok T_Macaddr
     else if oid = 869 then Ok T_Inet
     else if oid = 1033 then Ok T_Aclitem
     else if oid = 1042 then Ok T_Bpchar
     else if oid = 1043 then Ok T_Varchar
     else if oid = 1082 then Ok T_Date
     else if oid = 1083 then Ok T_Time
     else if oid = 1114 then Ok T_Timestamp
     else if oid = 1184 then Ok T_Timestamptz
     else if oid = 1186 then Ok T_Interval
     else if oid = 1266 then Ok T_Timetz
     else if oid = 1560 then Ok T_Bit
     else if oid = 1562 then Ok T_Varbit
     else if oid = 1700 then Ok T_Numeric
     else if oid = 2950 then Ok T_Uuid
     else if oid = 3802 then Ok T_Jsonb
     else if oid = 4072 then Ok T_Jsonpath
     else if oid = 5069 then Ok T_Xid8
     else if oid = 1000 then Ok T_BoolArray
     else if oid = 1001 then Ok T_ByteaArray
     else if oid = 1002 then Ok T_CharArray
     else if oid = 1003 then Ok T_NameArray
     else if oid = 1005 then Ok T_Int2Array
     else if oid = 1007 then Ok T_Int4Array
     else if oid = 1009 then Ok T_TextArray
     else if oid = 1010 then Ok T_TidArray
     else if oid = 1011 then Ok T_XidArray
     else if oid = 1012 then Ok T_CidArray
     else if oid = 1015 then Ok T_VarcharArray
     else if oid = 1016 then Ok T_Int8Array
     else if oid = 1021 then Ok T_Float4Array
     else if oid = 1022 then Ok T_Float8Array
     else if oid = 1028 then Ok T_OidArray
     else if oid = 1115 then Ok T_TimestampArray
     else if oid = 1182 then Ok T_DateArray
     else if oid = 1183 then Ok T_TimeArray
     else if oid = 1185 then Ok T_TimestamptzArray
     else if oid = 1231 then Ok T_NumericArray
     else if oid = 2951 then Ok T_UuidArray
     else if oid = 3807 then Ok T_JsonbArray
     else Err oid)"

datatype pg_type_len = Fixed u16 | Varlena | CString

text \<open>\<open>PgTypeId::type_len\<close>.\<close>

primrec type_len :: "pg_type_id \<Rightarrow> pg_type_len" where
  "type_len T_Bool = Fixed 1"
| "type_len T_Bytea = Varlena"
| "type_len T_Char = Fixed 1"
| "type_len T_Name = Fixed 64"
| "type_len T_Int8 = Fixed 8"
| "type_len T_Int2 = Fixed 2"
| "type_len T_Int4 = Fixed 4"
| "type_len T_Text = Varlena"
| "type_len T_Oid = Fixed 4"
| "type_len T_Tid = Fixed 6"
| "type_len T_Xid = Fixed 4"
| "type_len T_Cid = Fixed 4"
| "type_len T_Json = Varlena"
| "type_len T_Xml = Varlena"
| "type_len T_Point = Fixed 16"
| "type_len T_Lseg = Fixed 32"
| "type_len T_Path = Varlena"
| "type_len T_Box = Fixed 32"
| "type_len T_Polygon = Varlena"
| "type_len T_Line = Fixed 24"
| "type_len T_Cidr = Varlena"
| "type_len T_Float4 = Fixed 4"
| "type_len T_Float8 = Fixed 8"
| "type_len T_Circle = Fixed 24"
| "type_len T_Macaddr8 = Fixed 8"
| "type_len T_Money = Fixed 8"
| "type_len T_Macaddr = Fixed 6"
| "type_len T_Inet = Varlena"
| "type_len T_Aclitem = Fixed 16"
| "type_len T_Bpchar = Varlena"
| "type_len T_Varchar = Varlena"
| "type_len T_Date = Fixed 4"
| "type_len T_Time = Fixed 8"
| "type_len T_Timestamp = Fixed 8"
| "type_len T_Timestamptz = Fixed 8"
| "type_len T_Interval = Fixed 16"
| "type_len T_Timetz = Fixed 12"
| "type_len T_Bit = Varlena"
| "type_len T_Varbit = Varlena"
| "type_len T_Numeric = Varlena"
| "type_len T_Uuid = Fixed 16"
| "type_len T_Jsonb = Varlena"
| "type_len T_Jsonpath = Varlena"
| "type_len T_Xid8 = Fixed 8"
| "type_len T_BoolArray = Varlena"
| "type_len T_ByteaArray = Varlena"
| "type_len T_CharArray = Varlena"
| "type_len T_NameArray = Varlena"
| "type_len T_Int2Array = Varlena"
| "type_len T_Int4Array = Varlena"
| "type_len T_TextArray = Varlena"
| "type_len T_TidArray = Varlena"
| "type_len T_XidArray = Varlena"
| "type_len T_CidArray = Varlena"
| "type_len T_VarcharArray = Varlena"
| "type_len T_Int8Array = Varlena"
| "type_len T_Float4Array = Varlena"
| "type_len T_Float8Array = Varlena"
| "type_len T_OidArray = Varlena"
| "type_len T_TimestampArray = Varlena"
| "type_len T_DateArray = Varlena"
| "type_len T_TimeArray = Varlena"
| "type_len T_TimestamptzArray = Varlena"
| "type_len T_NumericArray = Varlena"
| "type_len T_UuidArray = Varlena"
| "type_len T_JsonbArray = Varlena"

text \<open>\<open>PgTypeId::align\<close>.\<close>

primrec type_align :: "pg_type_id \<Rightarrow> usize" where
  "type_align T_Bool = 1"
| "type_align T_Bytea = 4"
| "type_align T_Char = 1"
| "type_align T_Name = 1"
| "type_align T_Int8 = 8"
| "type_align T_Int2 = 2"
| "type_align T_Int4 = 4"
| "type_align T_Text = 4"
| "type_align T_Oid = 4"
| "type_align T_Tid = 2"
| "type_align T_Xid = 4"
| "type_align T_Cid = 4"
| "type_align T_Json = 4"
| "type_align T_Xml = 4"
| "type_align T_Point = 8"
| "type_align T_Lseg = 8"
| "type_align T_Path = 8"
| "type_align T_Box = 8"
| "type_align T_Polygon = 8"
| "type_align T_Line = 8"
| "type_align T_Cidr = 4"
| "type_align T_Float4 = 4"
| "type_align T_Float8 = 8"
| "type_align T_Circle = 8"
| "type_align T_Macaddr8 = 4"
| "type_align T_Money = 8"
| "type_align T_Macaddr = 4"
| "type_align T_Inet = 4"
| "type_align T_Aclitem = 8"
| "type_align T_Bpchar = 4"
| "type_align T_Varchar = 4"
| "type_align T_Date = 4"
| "type_align T_Time = 8"
| "type_align T_Timestamp = 8"
| "type_align T_Timestamptz = 8"
| "type_align T_Interval = 8"
| "type_align T_Timetz = 8"
| "type_align T_Bit = 4"
| "type_align T_Varbit = 4"
| "type_align T_Numeric = 4"
| "type_align T_Uuid = 1"
| "type_align T_Jsonb = 4"
| "type_align T_Jsonpath = 4"
| "type_align T_Xid8 = 8"
| "type_align T_BoolArray = 4"
| "type_align T_ByteaArray = 4"
| "type_align T_CharArray = 4"
| "type_align T_NameArray = 4"
| "type_align T_Int2Array = 4"
| "type_align T_Int4Array = 4"
| "type_align T_TextArray = 4"
| "type_align T_TidArray = 4"
| "type_align T_XidArray = 4"
| "type_align T_CidArray = 4"
| "type_align T_VarcharArray = 4"
| "type_align T_Int8Array = 4"
| "type_align T_Float4Array = 4"
| "type_align T_Float8Array = 4"
| "type_align T_OidArray = 4"
| "type_align T_TimestampArray = 4"
| "type_align T_DateArray = 4"
| "type_align T_TimeArray = 4"
| "type_align T_TimestamptzArray = 4"
| "type_align T_NumericArray = 4"
| "type_align T_UuidArray = 4"
| "type_align T_JsonbArray = 4"

text \<open>\<open>PgTypeCategory\<close>, \<open>PgTypeStorage\<close> and \<open>PgTypeInfo\<close>.\<close>

datatype pg_type_category =
    C_Boolean | C_Numeric | C_String | C_DateTime | C_Timespan | C_Geometric
  | C_NetworkAddress | C_BitString | C_UserDefined | C_Array | C_Internal

datatype pg_type_storage = S_Plain | S_Extended | S_Main | S_External

record pg_type_info =
  ti_oid :: u32
  ti_name :: string
  ti_typlen :: int
  ti_typbyval :: bool
  ti_category :: pg_type_category
  ti_align :: pg_align
  ti_storage :: pg_type_storage

text \<open>
  \<open>PgTypeId::info\<close>, a match with one arm for each scalar type, in the order of the OIDs; it is cut into three
  definitions, each falling through to the next.  The last arm is the one shared by the array types.
\<close>

definition info_from_time :: "pg_type_id \<Rightarrow> pg_type_info" where
  "info_from_time t =
     (case t of
      T_Time \<Rightarrow> pg_type_info.make 1083 ''time'' 8 True C_DateTime Align_Double S_Plain
    | T_Timestamp \<Rightarrow> pg_type_info.make 1114 ''timestamp'' 8 True C_DateTime Align_Double S_Plain
    | T_Timestamptz \<Rightarrow> pg_type_info.make 1184 ''timestamptz'' 8 True C_DateTime Align_Double S_Plain
    | T_Interval \<Rightarrow> pg_type_info.make 1186 ''interval'' 16 False C_Timespan Align_Double S_Plain
    | T_Timetz \<Rightarrow> pg_type_info.make 1266 ''timetz'' 12 False C_DateTime Align_Double S_Plain
    | T_Bit \<Rightarrow> pg_type_info.make 1560 ''bit'' (-1) False C_BitString Align_Int S_Extended
    | T_Varbit \<Rightarrow> pg_type_info.make 1562 ''varbit'' (-1) False C_BitString Align_Int S_Extended
    | T_Numeric \<Rightarrow> pg_type_info.make 1700 ''numeric'' (-1) False C_Numeric Align_Int S_Main
    | T_Uuid \<Rightarrow> pg_type_info.make 2950 ''uuid'' 16 False C_UserDefined Align_Char S_Plain
    | T_Jsonb \<Rightarrow> pg_type_info.make 3802 ''jsonb'' (-1) False C_UserDefined Align_Int S_Extended
    | T_Jsonpath \<Rightarrow> pg_type_info.make 4072 ''jsonpath'' (-1) False C_UserDefined Align_Int S_Extended
    | T_Xid8 \<Rightarrow> pg_type_info.make 5069 ''xid8'' 8 True C_UserDefined Align_Double S_Plain
    | _ \<Rightarrow> pg_type_info.make (type_oid t) ''array'' (-1) False C_Array Align_Int S_Extended)"

definition info_from_path :: "pg_type_id \<Rightarrow> pg_type_info" where
  "info_from_path t =
     (case t of
      T_Path \<Rightarrow> pg_type_info.make 602 ''path'' (-1) False C_Geometric Align_Double S_Extended
    | T_Box \<Rightarrow> pg_type_info.make 603 ''box'' 32 False C_Geometric Align_Double S_Plain
    | T_Polygon \<Rightarrow> pg_type_info.make 604 ''polygon'' (-1) False C_Geometric Align_Double S_Extended
    | T_Line \<Rightarrow> pg_type_info.make 628 ''line'' 24 False C_Geometric Align_Double S_Plain
    | T_Cidr \<Rightarrow> pg_type_info.make 650 ''cidr'' (-1) False C_NetworkAddress Align_Int S_Main
    | T_Float4 \<Rightarrow> pg_type_info.make 700 ''float4'' 4 True C_Numeric Align_Int S_Plain
    | T_Float8 \<Rightarrow> pg_type_info.make 701 ''float8'' 8 True C_Numeric Align_Double S_Plain
    | T_Circle \<Rightarrow> pg_type_info.make 718 ''circle'' 24 False C_Geometric Align_Double S_Plain
    | T_Macaddr8 \<Rightarrow> pg_type_info.make 774 ''macaddr8'' 8 False C_UserDefined Align_Int S_Plain
    | T_Money \<Rightarrow> pg_type_info.make 790 ''money'' 8 True C_Numeric Align_Double S_Plain
    | T_Macaddr \<Rightarrow> pg_type_info.make 829 ''macaddr'' 6 False C_UserDefined Align_Int S_Plain
    | T_Inet \<Rightarrow> pg_type_info.make 869 ''inet'' (-1) False C_NetworkAddress Align_Int S_Main
    | T_Aclitem \<Rightarrow> pg_type_info.make 1033 ''aclitem'' 16 False C_UserDefined Align_Double S_Plain
    | T_Bpchar \<Rightarrow> pg_type_info.make 1042 ''bpchar'' (-1) False C_String Align_Int S_Extended
    | T_Varchar \<Rightarrow> pg_type_info.make 1043 ''varchar'' (-1) False C_String Align_Int S_Extended
    | T_Date \<Rightarrow> pg_type_info.make 1082 ''date'' 4 True C_DateTime Align_Int S_Plain
    | _ \<Rightarrow> info_from_time t)"

definition info :: "pg_type_id \<Rightarrow> pg_type_info" where
  "info t =
     (case t of
      T_Bool \<Rightarrow> pg_type_info.make 16 ''bool'' 1 True C_Boolean Align_Char S_Plain
    | T_Bytea \<Rightarrow> pg_type_info.make 17 ''bytea'' (-1) False C_UserDefined Align_Int S_Extended
    | T_Char \<Rightarrow> pg_type_info.make 18 ''char'' 1 True C_Internal Align_Char S_Plain
    | T_Name \<Rightarrow> pg_type_info.make 19 ''name'' 64 False C_String Align_Char S_Plain
    | T_Int8 \<Rightarrow> pg_type_info.make 20 ''int8'' 8 True C_Numeric Align_Double S_Plain
    | T_Int2 \<Rightarrow> pg_type_info.make 21 ''int2'' 2 True C_Numeric Align_Short S_Plain
    | T_Int4 \<Rightarrow> pg_type_info.make 23 ''int4'' 4 True C_Numeric Align_Int S_Plain
    | T_Text \<Rightarrow> pg_type_info.make 25 ''text'' (-1) False C_String Align_Int S_Extended
    | T_Oid \<Rightarrow> pg_type_info.make 26 ''oid'' 4 True C_Numeric Align_Int S_Plain
    | T_Tid \<Rightarrow> pg_type_info.make 27 ''tid'' 6 False C_UserDefined Align_Short S_Plain
    | T_Xid \<Rightarrow> pg_type_info.make 28 ''xid'' 4 True C_UserDefined Align_Int S_Plain
    | T_Cid \<Rightarrow> pg_type_info.make 29 ''cid'' 4 True C_UserDefined Align_Int S_Plain
    | T_Json \<Rightarrow> pg_type_info.make 114 ''json'' (-1) False C_UserDefined Align_Int S_Extended
    | T_Xml \<Rightarrow> pg_type_info.make 142 ''xml'' (-1) False C_UserDefined Align_Int S_Extended
    | T_Point \<Rightarrow> pg_type_info.make 600 ''point'' 16 False C_Geometric Align_Double S_Plain
    | T_Lseg \<Rightarrow> pg_type_info.make 601 ''lseg'' 32 False C_Geometric Align_Double S_Plain
    | _ \<Rightarrow> info_from_path t)"

lemmas info_arms = info_def info_from_path_def info_from_time_def

section \<open>Arrow data types\<close>

text \<open>
  The part of Arrow's \<open>DataType\<close> the program names, as plain data: it is only built and compared.
  Decimal precision and scale are a \<open>u8\<close> and an \<open>i8\<close>.
\<close>

datatype time_unit = Microsecond

datatype interval_unit = MonthDayNano

datatype data_type =
    DT_Null | DT_Boolean | DT_UInt8 | DT_Int16 | DT_Int32 | DT_Int64 | DT_UInt32 | DT_UInt64
  | DT_Float32 | DT_Float64 | DT_Date32 | DT_Time64 time_unit
  | DT_Timestamp time_unit "string option" | DT_Interval interval_unit
  | DT_Utf8 | DT_Binary | DT_FixedSizeBinary i32
  | DT_Decimal128 "8 word" "8 word" | DT_Decimal256 "8 word" "8 word"
  | DT_List arrow_field
and arrow_field = Field string data_type bool

definition list_of :: "data_type \<Rightarrow> data_type" where
  "list_of dt = DT_List (Field ''item'' dt True)"

text \<open>\<open>PgTypeId::arrow_type\<close>.\<close>

primrec arrow_type :: "pg_type_id \<Rightarrow> data_type" where
  "arrow_type T_Bool = DT_Boolean"
| "arrow_type T_Bytea = DT_Binary"
| "arrow_type T_Char = DT_UInt8"
| "arrow_type T_Name = DT_Utf8"
| "arrow_type T_Int8 = DT_Int64"
| "arrow_type T_Int2 = DT_Int16"
| "arrow_type T_Int4 = DT_Int32"
| "arrow_type T_Text = DT_Utf8"
| "arrow_type T_Oid = DT_UInt32"
| "arrow_type T_Tid = DT_Binary"
| "arrow_type T_Xid = DT_UInt32"
| "arrow_type T_Cid = DT_UInt32"
| "arrow_type T_Json = DT_Utf8"
| "arrow_type T_Xml = DT_Utf8"
| "arrow_type T_Point = DT_FixedSizeBinary 16"
| "arrow_type T_Lseg = DT_FixedSizeBinary 32"
| "arrow_type T_Path = DT_Binary"
| "arrow_type T_Box = DT_FixedSizeBinary 32"
| "arrow_type T_Polygon = DT_Binary"
| "arrow_type T_Line = DT_FixedSizeBinary 24"
| "arrow_type T_Cidr = DT_Binary"
| "arrow_type T_Float4 = DT_Float32"
| "arrow_type T_Float8 = DT_Float64"
| "arrow_type T_Circle = DT_FixedSizeBinary 24"
| "arrow_type T_Macaddr8 = DT_FixedSizeBinary 8"
| "arrow_type T_Money = DT_Int64"
| "arrow_type T_Macaddr = DT_FixedSizeBinary 6"
| "arrow_type T_Inet = DT_Binary"
| "arrow_type T_Aclitem = DT_Binary"
| "arrow_type T_Bpchar = DT_Utf8"
| "arrow_type T_Varchar = DT_Utf8"
| "arrow_type T_Date = DT_Date32"
| "arrow_type T_Time = DT_Time64 Microsecond"
| "arrow_type T_Timestamp = DT_Timestamp Microsecond None"
| "arrow_type T_Timestamptz = DT_Timestamp Microsecond (Some ''UTC'')"
| "arrow_type T_Interval = DT_Interval MonthDayNano"
| "arrow_type T_Timetz = DT_Time64 Microsecond"
| "arrow_type T_Bit = DT_Binary"
| "arrow_type T_Varbit = DT_Binary"
| "arrow_type T_Numeric = DT_Decimal256 38 0"
| "arrow_type T_Uuid = DT_FixedSizeBinary 16"
| "arrow_type T_Jsonb = DT_Binary"
| "arrow_type T_Jsonpath = DT_Binary"
| "arrow_type T_Xid8 = DT_UInt64"
| "arrow_type T_BoolArray = list_of DT_Boolean"
| "arrow_type T_ByteaArray = list_of DT_Binary"
| "arrow_type T_CharArray = list_of DT_UInt8"
| "arrow_type T_NameArray = list_of DT_Utf8"
| "arrow_type T_Int2Array = list_of DT_Int16"
| "arrow_type T_Int4Array = list_of DT_Int32"
| "arrow_type T_TextArray = list_of DT_Utf8"
| "arrow_type T_TidArray = list_of DT_Binary"
| "arrow_type T_XidArray = list_of DT_UInt32"
| "arrow_type T_CidArray = list_of DT_UInt32"
| "arrow_type T_VarcharArray = list_of DT_Utf8"
| "arrow_type T_Int8Array = list_of DT_Int64"
| "arrow_type T_Float4Array = list_of DT_Float32"
| "arrow_type T_Float8Array = list_of DT_Float64"
| "arrow_type T_OidArray = list_of DT_UInt32"
| "arrow_type T_TimestampArray = list_of (DT_Timestamp Microsecond None)"
| "arrow_type T_DateArray = list_of DT_Date32"
| "arrow_type T_TimeArray = list_of (DT_Time64 Microsecond)"
| "arrow_type T_TimestamptzArray = list_of (DT_Timestamp Microsecond (Some ''UTC''))"
| "arrow_type T_NumericArray = list_of (DT_Decimal256 38 0)"
| "arrow_type T_UuidArray = list_of (DT_FixedSizeBinary 16)"
| "arrow_type T_JsonbArray = list_of DT_Binary"

section \<open>Lemmas\<close>

lemma try_from_oid: "type_id_try_from (type_oid t) = Ok t"
  by (cases t) (simp_all add: type_id_try_from_def)

lemma try_from_Ok: "type_id_try_from oid = Ok t \<Longrightarrow> type_oid t = oid"
  unfolding type_id_try_from_def
  by (simp split: if_split_asm; hypsubst; simp)

lemma try_from_Err: "type_id_try_from oid = Err e \<Longrightarrow> e = oid"
  unfolding type_id_try_from_def by (simp split: if_split_asm)

lemma try_from_no_panic: "type_id_try_from oid \<noteq> Panic"
  unfolding type_id_try_from_def by (simp split: if_split)

lemma type_align_cases: "type_align t \<in> {1, 2, 4, 8}"
  by (cases t) simp_all

lemma type_len_not_cstring [simp]: "type_len t \<noteq> CString"
  by (cases t) simp_all

lemma info_tables:
  "ti_oid (info t) = type_oid t"
  "pg_align_bytes (ti_align (info t)) = type_align t"
  "type_len t = (if ti_typlen (info t) = -1 then Varlena else Fixed (word_of_int (ti_typlen (info t))))"
  "ti_typbyval (info t) \<Longrightarrow> ti_typlen (info t) \<in> {1, 2, 4, 8}"
  by (cases t; simp add: info_arms pg_type_info.defs)+

section \<open>Properties\<close>

text \<open>
  \<open>TryFrom<u32> for PgTypeId\<close> inverts \<open>oid()\<close>: an OID converts to a type exactly when it is that
  type's discriminant (so no two types share an OID), every other OID is handed back as the error,
  and the conversion never panics.
\<close>

theorem type_id_roundtrip:
  "(type_id_try_from oid = Ok t \<longleftrightarrow> type_oid t = oid) \<and>
   (type_id_try_from oid = Err e \<longleftrightarrow> e = oid \<and> oid \<notin> range type_oid) \<and>
   type_id_try_from oid \<noteq> Panic"
  using try_from_oid try_from_Ok try_from_Err try_from_no_panic
  by (cases "type_id_try_from oid") fastforce+

text \<open>
  C40: The three hand-written type tables agree on all 66 types: \<open>info()\<close> repeats the OID of
  \<open>oid()\<close> and the alignment of \<open>align()\<close>, its \<open>typlen\<close> is -1 exactly where \<open>type_len()\<close> says
  varlena and otherwise equals the fixed width, and a pass-by-value type is 1, 2, 4 or 8 bytes
  wide and aligned to its own width.
\<close>

theorem type_tables_agree:
  "ti_oid (info t) = type_oid t \<and>
   pg_align_bytes (ti_align (info t)) = type_align t \<and>
   type_len t = (if ti_typlen (info t) = -1 then Varlena
                 else Fixed (word_of_int (ti_typlen (info t)))) \<and>
   (if ti_typbyval (info t)
    then ti_typlen (info t) \<in> {1, 2, 4, 8} \<and> type_align t = nat (ti_typlen (info t))
    else True)"
  by (cases t) (simp_all add: info_arms pg_type_info.defs)

end
