(* ===== verification/Utf8.thy ===== *)
theory Utf8
  imports Errors
begin

text \<open>
  The string routines of the Rust standard library the program calls:
  \<open>std::str::from_utf8\<close> (with the \<open>valid_up_to\<close> and \<open>error_len\<close> of its error),
  \<open>String::from_utf8_lossy\<close>, and \<open>CStr::from_bytes_until_nul\<close>.  A \<open>String\<close> is its bytes.
\<close>

section \<open>One encoded scalar value\<close>

definition cont_byte :: "u8 \<Rightarrow> bool" where
  "cont_byte b \<longleftrightarrow> 0x80 \<le> b \<and> b \<le> 0xBF"

text \<open>\<open>utf8_char_width\<close>: the length announced by a first byte, 0 when it cannot start a character.\<close>

definition char_width :: "u8 \<Rightarrow> nat" where
  "char_width b =
     (if b < 0x80 then 1
      else if 0xC2 \<le> b \<and> b \<le> 0xDF then 2
      else if 0xE0 \<le> b \<and> b \<le> 0xEF then 3
      else if 0xF0 \<le> b \<and> b \<le> 0xF4 then 4
      else 0)"

text \<open>The admissible second bytes after a three- or four-byte first byte.\<close>

definition second_ok :: "u8 \<Rightarrow> u8 \<Rightarrow> bool" where
  "second_ok first b =
     (if first = 0xE0 then 0xA0 \<le> b \<and> b \<le> 0xBF
      else if first = 0xED then 0x80 \<le> b \<and> b \<le> 0x9F
      else if first = 0xF0 then 0x90 \<le> b \<and> b \<le> 0xBF
      else if first = 0xF4 then 0x80 \<le> b \<and> b \<le> 0x8F
      else cont_byte b)"

text \<open>
  The body of the validation loop at one position: the width of a well-formed character, or the
  \<open>error_len\<close> of the error (\<open>None\<close> when the input ends inside a character).
\<close>

datatype char_head = Good nat | Bad "nat option"

definition utf8_char :: "nat \<Rightarrow> u8 \<Rightarrow> bytes \<Rightarrow> char_head" where
  "utf8_char width first rest =
     (if width = 1 then Good 1
      else if width = 2 then
        (case rest of
           [] \<Rightarrow> Bad None
         | b1 # _ \<Rightarrow> if cont_byte b1 then Good 2 else Bad (Some 1))
      else if width = 3 then
        (case rest of
           [] \<Rightarrow> Bad None
         | b1 # r1 \<Rightarrow>
             if \<not> second_ok first b1 then Bad (Some 1)
             else (case r1 of
                     [] \<Rightarrow> Bad None
                   | b2 # _ \<Rightarrow> if cont_byte b2 then Good 3 else Bad (Some 2)))
      else if width = 4 then
        (case rest of
           [] \<Rightarrow> Bad None
         | b1 # r1 \<Rightarrow>
             if \<not> second_ok first b1 then Bad (Some 1)
             else (case r1 of
                     [] \<Rightarrow> Bad None
                   | b2 # r2 \<Rightarrow>
                       if \<not> cont_byte b2 then Bad (Some 2)
                       else (case r2 of
                               [] \<Rightarrow> Bad None
                             | b3 # _ \<Rightarrow> if cont_byte b3 then Good 4 else Bad (Some 3))))
      else Bad (Some 1))"

definition utf8_head :: "u8 \<Rightarrow> bytes \<Rightarrow> char_head" where
  "utf8_head first rest = utf8_char (char_width first) first rest"

section \<open>Validation and lossy conversion\<close>

fun utf8_scan :: "usize \<Rightarrow> bytes \<Rightarrow> utf8_error option" where
  "utf8_scan i [] = None"
| "utf8_scan i (b # bs) =
     (case utf8_head b bs of
        Good n \<Rightarrow> utf8_scan (i + n) (drop (n - 1) bs)
      | Bad len \<Rightarrow> Some \<lparr>valid_up_to = i, error_len = len\<rparr>)"

definition from_utf8 :: "bytes \<Rightarrow> (utf8_error, string) outcome" where
  "from_utf8 bs =
     (case utf8_scan 0 bs of
        None \<Rightarrow> Ok (str_of_bytes bs)
      | Some e \<Rightarrow> Err e)"

definition REPLACEMENT :: bytes where
  "REPLACEMENT = [0xEF, 0xBF, 0xBD]"

fun utf8_lossy :: "bytes \<Rightarrow> bytes" where
  "utf8_lossy [] = []"
| "utf8_lossy (b # bs) =
     (case utf8_head b bs of
        Good n \<Rightarrow> b # take (n - 1) bs @ utf8_lossy (drop (n - 1) bs)
      | Bad (Some k) \<Rightarrow> REPLACEMENT @ utf8_lossy (drop (k - 1) bs)
      | Bad None \<Rightarrow> REPLACEMENT)"

definition from_utf8_lossy :: "bytes \<Rightarrow> string" where
  "from_utf8_lossy bs = str_of_bytes (utf8_lossy bs)"

definition utf8_valid :: "bytes \<Rightarrow> bool" where
  "utf8_valid bs \<longleftrightarrow> utf8_scan 0 bs = None"

section \<open>C strings\<close>

text \<open>The contents of \<open>CStr::from_bytes_until_nul\<close>, without the terminator.\<close>

definition cstr_until_nul :: "bytes \<Rightarrow> bytes option" where
  "cstr_until_nul bs = (if 0 \<in> set bs then Some (takeWhile (\<lambda>b. b \<noteq> 0) bs) else None)"

section \<open>Lemmas\<close>

lemma list_upto3_cases:
  obtains "xs = []" | x where "xs = [x]" | x y where "xs = [x, y]"
    | x y z zs where "xs = x # y # z # zs"
  by (metis list.exhaust)

lemma utf8_char_Good:
  assumes "utf8_char w b bs = Good n"
  shows "n = w \<and> 1 \<le> n \<and> n \<le> 4 \<and> n \<le> Suc (length bs)"
  using assms by (auto simp: utf8_char_def split: list.splits if_splits)

lemma utf8_char_Good_prefix:
  assumes "utf8_char w b bs = Good w"
  shows "utf8_char w b (take (w - 1) bs @ rest) = Good w"
proof -
  consider "w = 1" | "w = 2" | "w = 3" | "w = 4"
    using assms by (auto simp: utf8_char_def split: if_splits)
  then show ?thesis
    using assms by cases (cases bs rule: list_upto3_cases; simp add: utf8_char_def split: if_splits)+
qed

lemma utf8_head_Good: "utf8_head b bs = Good n \<Longrightarrow> 1 \<le> n \<and> n \<le> 4 \<and> n \<le> Suc (length bs)"
  unfolding utf8_head_def by (drule utf8_char_Good) simp

text \<open>A well-formed character is recognised from its own bytes alone, whatever follows.\<close>

lemma utf8_head_Good_prefix:
  "utf8_head b bs = Good n \<Longrightarrow> utf8_head b (take (n - 1) bs @ rest) = Good n"
  unfolding utf8_head_def using utf8_char_Good utf8_char_Good_prefix by metis

lemma utf8_scan_shift: "(utf8_scan i bs = None) = (utf8_scan j bs = None)"
proof (induction i bs arbitrary: j rule: utf8_scan.induct)
  case (2 i b bs)
  show ?case
  proof (cases "utf8_head b bs")
    case (Good n)
    then show ?thesis using "2.IH" [OF Good, of "j + n"] by simp
  qed simp
qed simp

lemma utf8_valid_Nil [simp]: "utf8_valid []"
  by (simp add: utf8_valid_def)

lemma utf8_valid_Cons:
  "utf8_valid (b # bs) \<longleftrightarrow> (\<exists>n. utf8_head b bs = Good n \<and> utf8_valid (drop (n - 1) bs))"
proof (cases "utf8_head b bs")
  case (Good n)
  then show ?thesis
    using utf8_scan_shift [of n "drop (n - 1) bs" 0] by (simp add: utf8_valid_def)
qed (simp add: utf8_valid_def)

lemma utf8_valid_append_head:
  assumes "utf8_head b bs = Good n" and "utf8_valid rest"
  shows "utf8_valid (b # take (n - 1) bs @ rest)"
proof -
  have "drop (n - 1) (take (n - 1) bs @ rest) = rest"
    using utf8_head_Good [OF assms(1)] by (simp add: min_def)
  then show ?thesis
    using utf8_head_Good_prefix [OF assms(1), of rest] assms(2) by (auto simp: utf8_valid_Cons)
qed

lemma utf8_valid_REPLACEMENT: "utf8_valid rest \<Longrightarrow> utf8_valid (REPLACEMENT @ rest)"
  by (simp add: REPLACEMENT_def utf8_valid_Cons utf8_head_def utf8_char_def char_width_def second_ok_def cont_byte_def)

lemma utf8_lossy_valid: "utf8_valid (utf8_lossy bs)"
proof (induction bs rule: utf8_lossy.induct)
  case (2 b bs)
  show ?case
  proof (cases "utf8_head b bs")
    case (Good n)
    then show ?thesis using utf8_valid_append_head [OF Good "2.IH"(1) [OF Good]] by simp
  next
    case (Bad len)
    show ?thesis
    proof (cases len)
      case None
      then show ?thesis using Bad utf8_valid_REPLACEMENT [of "[]"] by simp
    next
      case (Some k)
      then show ?thesis using Bad utf8_valid_REPLACEMENT [OF "2.IH"(2) [OF Bad Some]] by simp
    qed
  qed
qed simp

lemma utf8_lossy_id: "utf8_valid bs \<Longrightarrow> utf8_lossy bs = bs"
proof (induction bs rule: utf8_lossy.induct)
  case (2 b bs)
  then obtain n where "utf8_head b bs = Good n" "utf8_valid (drop (n - 1) bs)"
    by (auto simp: utf8_valid_Cons)
  with 2 show ?case by simp
qed simp

lemma from_utf8_Ok: "from_utf8 bs = Ok s \<longleftrightarrow> utf8_valid bs \<and> s = str_of_bytes bs"
  by (auto simp: from_utf8_def utf8_valid_def split: option.splits)

lemma from_utf8_no_panic [simp]: "from_utf8 bs \<noteq> Panic"
  by (simp add: from_utf8_def split: option.splits)

lemma from_utf8_Err: "(\<exists>e. from_utf8 bs = Err e) \<longleftrightarrow> \<not> utf8_valid bs"
  by (auto simp: from_utf8_def utf8_valid_def split: option.splits)

lemma ascii_valid: "(\<And>b. b \<in> set bs \<Longrightarrow> b < 0x80) \<Longrightarrow> utf8_valid bs"
  by (induction bs) (auto simp: utf8_valid_Cons utf8_head_def utf8_char_def char_width_def)

end
