(* ===== verification/Codec.thy ===== *)
theory Codec
  imports TypeId Utf8
begin

text \<open>
  \<open>src/types/codec.rs\<close>, the datum codec: \<open>PgDatum\<close>, \<open>decode_fixed\<close>, \<open>decode_varlena\<close>,
  \<open>read_varlena_header\<close>, \<open>decode_datum\<close> and its lightweight counterpart \<open>skip_datum\<close>; and the byte
  extractors \<open>extract_column_bytes\<close> and \<open>extract_fixed_bytes\<close> of \<open>src/types/arrow.rs\<close>, which walk
  the same encoding for the Arrow path.  A float is its bit pattern: the program only moves it.
\<close>

section \<open>Datums\<close>

datatype (plugins only: code size) pg_datum =
    D_Bool bool
  | D_Int2 i16
  | D_Int4 i32
  | D_Int8 i64
  | D_Float4 u32
  | D_Float8 u64
  | D_Oid u32
  | D_Date i32
  | D_Time i64
  | D_Timestamp i64
  | D_TimestampTz i64
  | D_Money i64
  | D_Xid u32
  | D_Cid u32
  | D_Xid8 u64
  | D_Char u8
  | D_Name bytes
  | D_Tid u32 u16                    \<comment> \<open>block, offset\<close>
  | D_MacAddr bytes
  | D_MacAddr8 bytes
  | D_Uuid bytes
  | D_Interval i64 i32 i32           \<comment> \<open>microseconds, days, months\<close>
  | D_TimeTz i64 i32                 \<comment> \<open>\<open>time_usec\<close>, \<open>tz_offset\<close>\<close>
  | D_Point u64 u64
  | D_Line u64 u64 u64
  | D_Lseg u64 u64 u64 u64
  | D_Box u64 u64 u64 u64
  | D_Circle u64 u64 u64
  | D_Text string
  | D_Varchar string
  | D_BpChar string
  | D_Bytea bytes
  | D_Json string
  | D_Jsonb bytes
  | D_JsonPath bytes
  | D_Xml string
  | D_Numeric bytes
  | D_Inet bytes
  | D_Cidr bytes
  | D_Bit bytes
  | D_VarBit bytes
  | D_Path bytes
  | D_Polygon bytes
  | D_RawBytes u32 bytes             \<comment> \<open>oid, data\<close>
  | D_Null

section \<open>Fixed-width types\<close>

definition check_len :: "string \<Rightarrow> usize \<Rightarrow> usize \<Rightarrow> unit decode_result" where
  "check_len type_name expected actual =
     (if actual < expected then Err (BufferTooShort type_name expected actual) else Ok ())"

text \<open>An arm that checks the length and reads one native-endian word from the front.\<close>

definition scalar :: "string \<Rightarrow> nat \<Rightarrow> ('a::len word \<Rightarrow> pg_datum) \<Rightarrow> bytes \<Rightarrow> pg_datum decode_result" where
  "scalar type_name k con bytes =
     obind (check_len type_name k (length bytes)) (\<lambda>_.
     obind (read_ne k bytes 0) (\<lambda>v. Ok (con v)))"

text \<open>An arm that checks the length and copies \<open>k\<close> bytes.\<close>

definition copied :: "string \<Rightarrow> nat \<Rightarrow> (bytes \<Rightarrow> pg_datum) \<Rightarrow> bytes \<Rightarrow> pg_datum decode_result" where
  "copied type_name k con bytes =
     obind (check_len type_name k (length bytes)) (\<lambda>_.
     obind (index_range bytes 0 k) (\<lambda>buf. Ok (con buf)))"

text \<open>The arms from \<open>aclitem\<close> on, the types of 24 bytes and more, and the last arm, for all other types.\<close>

definition decode_fixed_wide :: "pg_type_id \<Rightarrow> bytes \<Rightarrow> pg_datum decode_result" where
  "decode_fixed_wide type_id bytes =
    (let len = length bytes in
     case type_id of
       T_Aclitem \<Rightarrow> copied ''aclitem'' 16 (D_RawBytes (type_oid T_Aclitem)) bytes
     | T_Line \<Rightarrow>
         obind (check_len ''line'' 24 len) (\<lambda>_.
         obind (read_u64 bytes 0) (\<lambda>a.
         obind (read_u64 bytes 8) (\<lambda>b.
         obind (read_u64 bytes 16) (\<lambda>c. Ok (D_Line a b c)))))
     | T_Circle \<Rightarrow>
         obind (check_len ''circle'' 24 len) (\<lambda>_.
         obind (read_u64 bytes 0) (\<lambda>x.
         obind (read_u64 bytes 8) (\<lambda>y.
         obind (read_u64 bytes 16) (\<lambda>radius. Ok (D_Circle x y radius)))))
     | T_Lseg \<Rightarrow>
         obind (check_len ''lseg'' 32 len) (\<lambda>_.
         obind (read_u64 bytes 0) (\<lambda>x1.
         obind (read_u64 bytes 8) (\<lambda>y1.
         obind (read_u64 bytes 16) (\<lambda>x2.
         obind (read_u64 bytes 24) (\<lambda>y2. Ok (D_Lseg x1 y1 x2 y2))))))
     | T_Box \<Rightarrow>
         obind (check_len ''box'' 32 len) (\<lambda>_.
         obind (read_u64 bytes 0) (\<lambda>x1.
         obind (read_u64 bytes 8) (\<lambda>y1.
         obind (read_u64 bytes 16) (\<lambda>x2.
         obind (read_u64 bytes 24) (\<lambda>y2. Ok (D_Box x1 y1 x2 y2))))))
     | T_Name \<Rightarrow>
         \<comment> \<open>both \<open>unwrap\<close>s of the source panic: no NUL byte, or invalid UTF-8\<close>
         obind (check_len ''name'' 64 len) (\<lambda>_.
         obind (index_range bytes 0 64) (\<lambda>front.
         obind (unwrap_opt (cstr_until_nul front)) (\<lambda>column.
         obind (unwrap (from_utf8 column)) (\<lambda>s. Ok (D_Text s)))))
     | _ \<Rightarrow> Ok (D_RawBytes (type_oid type_id) bytes))"

definition decode_fixed :: "pg_type_id \<Rightarrow> bytes \<Rightarrow> pg_datum decode_result" where
  "decode_fixed type_id bytes =
    (let len = length bytes in
     case type_id of
       T_Bool \<Rightarrow>
         obind (check_len ''bool'' 1 len) (\<lambda>_.
         obind (index bytes 0) (\<lambda>b. Ok (D_Bool (b \<noteq> 0))))
     | T_Char \<Rightarrow>
         obind (check_len ''char'' 1 len) (\<lambda>_.
         obind (index bytes 0) (\<lambda>b. Ok (D_Char b)))
     | T_Int2 \<Rightarrow> scalar ''int2'' 2 D_Int2 bytes
     | T_Int4 \<Rightarrow> scalar ''int4'' 4 D_Int4 bytes
     | T_Oid \<Rightarrow> scalar ''oid'' 4 D_Oid bytes
     | T_Xid \<Rightarrow> scalar ''xid'' 4 D_Xid bytes
     | T_Cid \<Rightarrow> scalar ''cid'' 4 D_Cid bytes
     | T_Float4 \<Rightarrow> scalar ''float4'' 4 D_Float4 bytes
     | T_Date \<Rightarrow> scalar ''date'' 4 D_Date bytes
     | T_Int8 \<Rightarrow> scalar ''int8'' 8 D_Int8 bytes
     | T_Float8 \<Rightarrow> scalar ''float8'' 8 D_Float8 bytes
     | T_Money \<Rightarrow> scalar ''money'' 8 D_Money bytes
     | T_Time \<Rightarrow> scalar ''time'' 8 D_Time bytes
     | T_Timestamp \<Rightarrow> scalar ''timestamp'' 8 D_Timestamp bytes
     | T_Timestamptz \<Rightarrow> scalar ''timestamptz'' 8 D_TimestampTz bytes
     | T_Xid8 \<Rightarrow> scalar ''xid8'' 8 D_Xid8 bytes
     | T_Macaddr8 \<Rightarrow> copied ''macaddr8'' 8 D_MacAddr8 bytes
     | T_Tid \<Rightarrow>
         obind (check_len ''tid'' 6 len) (\<lambda>_.
         obind (read_u32 bytes 0) (\<lambda>block.
         obind (read_u16 bytes 4) (\<lambda>offset. Ok (D_Tid block offset))))
     | T_Macaddr \<Rightarrow> copied ''macaddr'' 6 D_MacAddr bytes
     | T_Timetz \<Rightarrow>
         obind (check_len ''timetz'' 12 len) (\<lambda>_.
         obind (read_u64 bytes 0) (\<lambda>time_usec.
         obind (read_u32 bytes 8) (\<lambda>tz_offset. Ok (D_TimeTz time_usec tz_offset))))
     | T_Interval \<Rightarrow>
         obind (check_len ''interval'' 16 len) (\<lambda>_.
         obind (read_u64 bytes 0) (\<lambda>microseconds.
         obind (read_u32 bytes 8) (\<lambda>days.
         obind (read_u32 bytes 12) (\<lambda>months. Ok (D_Interval microseconds days months)))))
     | T_Point \<Rightarrow>
         obind (check_len ''point'' 16 len) (\<lambda>_.
         obind (read_u64 bytes 0) (\<lambda>x.
         obind (read_u64 bytes 8) (\<lambda>y. Ok (D_Point x y))))
     | T_Uuid \<Rightarrow> copied ''uuid'' 16 D_Uuid bytes
     | _ \<Rightarrow> decode_fixed_wide type_id bytes)"

lemmas decode_fixed_arms = decode_fixed_def decode_fixed_wide_def

section \<open>Varlena types\<close>

text \<open>The \<open>from_utf8(..).map_err(..)\<close> of the string arms.\<close>

definition utf8_payload :: "string \<Rightarrow> (string \<Rightarrow> pg_datum) \<Rightarrow> bytes \<Rightarrow> pg_datum decode_result" where
  "utf8_payload type_name con raw_payload =
     obind (map_err (\<lambda>e. InvalidUtf8 type_name (valid_up_to e) e) (from_utf8 raw_payload)) (\<lambda>s. Ok (con s))"

definition decode_varlena :: "pg_type_id \<Rightarrow> bytes \<Rightarrow> pg_datum decode_result" where
  "decode_varlena type_id raw_payload =
    (case type_id of
       T_Text \<Rightarrow> utf8_payload ''text'' D_Text raw_payload
     | T_Varchar \<Rightarrow> utf8_payload ''varchar'' D_Varchar raw_payload
     | T_Bpchar \<Rightarrow> utf8_payload ''bpchar'' D_BpChar raw_payload
     | T_Json \<Rightarrow> utf8_payload ''json'' D_Json raw_payload
     | T_Xml \<Rightarrow> utf8_payload ''xml'' D_Xml raw_payload
     | T_Bytea \<Rightarrow> Ok (D_Bytea raw_payload)
     | T_Jsonb \<Rightarrow> Ok (D_Jsonb raw_payload)
     | T_Jsonpath \<Rightarrow> Ok (D_JsonPath raw_payload)
     | T_Numeric \<Rightarrow> Ok (D_Numeric raw_payload)
     | T_Inet \<Rightarrow> Ok (D_Inet raw_payload)
     | T_Cidr \<Rightarrow> Ok (D_Cidr raw_payload)
     | T_Bit \<Rightarrow> Ok (D_Bit raw_payload)
     | T_Varbit \<Rightarrow> Ok (D_VarBit raw_payload)
     | T_Path \<Rightarrow> Ok (D_Path raw_payload)
     | T_Polygon \<Rightarrow> Ok (D_Polygon raw_payload)
     | _ \<Rightarrow> Ok (D_RawBytes (type_oid type_id) raw_payload))"

text \<open>The result is \<open>(payload_start, payload_len)\<close>.\<close>

definition read_varlena_header :: "bytes \<Rightarrow> usize \<Rightarrow> (usize \<times> usize) decode_result" where
  "read_varlena_header data offset =
     obind (ok_or (get data offset) (BufferTooShort ''varlena header'' 1 0)) (\<lambda>first.
     if first = 0x01 then
       obind (ok_or (get data (offset + 1)) (BufferTooShort ''varlena external tag'' 2 1)) (\<lambda>tag.
       obind (if tag = 18 then Ok 18 else Err (InvalidVarlenaHeader offset first)) (\<lambda>pointer_size.
         Ok (offset + pointer_size, 0)))
     else if first AND 0x01 \<noteq> 0 then
       let total_len = unat (drop_bit 1 first);
           payload_start = offset + 1;
           payload_len = total_len - 1
       in Ok (payload_start, payload_len)
     else if length data < offset + 4 then
       Err (BufferTooShort ''varlena header (4-byte)'' 4 (length data - offset))
     else
       obind (read_u32 data offset) (\<lambda>header_word.
       let tag = header_word AND 0x03 in
       if tag = 0x00 \<or> tag = 0x02 then
         let total_len = unat (drop_bit 2 header_word);
             payload_start = offset + 4;
             payload_len = total_len - 4
         in Ok (payload_start, payload_len)
       else Err (InvalidVarlenaHeader offset first)))"

section \<open>Decoding and skipping one column\<close>

text \<open>The datum and the number of bytes consumed.\<close>

definition decode_datum :: "pg_type_id \<Rightarrow> bytes \<Rightarrow> usize \<Rightarrow> (pg_datum \<times> usize) decode_result" where
  "decode_datum type_id data offset =
    (case type_len type_id of
       Fixed w \<Rightarrow>
         let n = unat w; stop = offset + n in
         obind (ok_or (get_range data offset stop)
                  (BufferTooShort (ti_name (info type_id)) n (length data - offset))) (\<lambda>bytes.
         obind (decode_fixed type_id bytes) (\<lambda>datum. Ok (datum, n)))
     | Varlena \<Rightarrow>
         obind (read_varlena_header data offset) (\<lambda>(payload_start, payload_len).
         let payload_end = payload_start + payload_len in
         obind (ok_or (get_range data payload_start payload_end)
                  (BufferTooShort (ti_name (info type_id)) payload_len (length data - payload_start))) (\<lambda>payload.
         obind (decode_varlena type_id payload) (\<lambda>datum. Ok (datum, payload_end - offset))))
     | CString \<Rightarrow>
         obind (index_range data offset (length data)) (\<lambda>remaining.
         obind (ok_or (cstr_until_nul remaining) MissingNulTerminator) (\<lambda>cstr.
         obind (map_err (\<lambda>e. InvalidUtf8 ''cstring'' (valid_up_to e) e) (from_utf8 cstr)) (\<lambda>s.
           Ok (D_Text s, length s + 1)))))"

text \<open>\<open>iter().position(|&b| b == 0)\<close>.\<close>

definition nul_position :: "bytes \<Rightarrow> usize option" where
  "nul_position bs = (if 0 \<in> set bs then Some (length (takeWhile (\<lambda>b. b \<noteq> 0) bs)) else None)"

definition skip_datum :: "pg_type_len \<Rightarrow> bytes \<Rightarrow> usize \<Rightarrow> usize decode_result" where
  "skip_datum tlen data offset =
    (case tlen of
       Fixed n \<Rightarrow> Ok (unat n)
     | Varlena \<Rightarrow>
         obind (read_varlena_header data offset) (\<lambda>(payload_start, payload_len).
           Ok (payload_start + payload_len - offset))
     | CString \<Rightarrow>
         obind (ok_or (get_range data offset (length data)) (BufferTooShort ''cstring'' 1 0)) (\<lambda>remaining.
         obind (ok_or (nul_position remaining) MissingNulTerminator) (\<lambda>nul_pos.
           Ok (nul_pos + 1))))"

definition extract_column_bytes :: "pg_type_len \<Rightarrow> bytes \<Rightarrow> usize \<Rightarrow> (bytes \<times> usize) pg_result" where
  "extract_column_bytes tlen data offset =
    (case tlen of
       Fixed w \<Rightarrow>
         let n = unat w; stop = offset + n in
         obind (ok_or (get_range data offset stop)
                  (DecodeError ''buffer too short for fixed column'')) (\<lambda>bytes. Ok (bytes, n))
     | Varlena \<Rightarrow>
         obind (map_err (\<lambda>e. DecodeError (decode_error_to_string e)) (read_varlena_header data offset))
           (\<lambda>(payload_start, payload_len).
         let payload_end = payload_start + payload_len in
         obind (ok_or (get_range data payload_start payload_end)
                  (DecodeError ''buffer too short for varlena payload'')) (\<lambda>payload.
           Ok (payload, payload_end - offset)))
     | CString \<Rightarrow>
         obind (ok_or (get_range data offset (length data))
                  (DecodeError ''buffer too short for cstring'')) (\<lambda>remaining.
         obind (ok_or (nul_position remaining)
                  (DecodeError ''missing null terminator in cstring'')) (\<lambda>nul_pos.
           Ok (take nul_pos remaining, nul_pos + 1))))"

definition extract_fixed_bytes :: "bytes \<Rightarrow> usize \<Rightarrow> usize \<Rightarrow> (bytes \<times> usize) pg_result" where
  "extract_fixed_bytes data offset n =
     obind (index_range data offset (offset + n)) (\<lambda>bytes. Ok (bytes, n))"

section \<open>The reference encoding\<close>

text \<open>
  \<open>datum_payload t d\<close> is the on-disk payload of the datum \<open>d\<close> as a value of type \<open>t\<close>, without
  varlena header and padding; \<open>None\<close> when \<open>d\<close> is not what the decoder produces for a value of \<open>t\<close>.
  A value of type \<open>name\<close> is decoded to a \<open>D_Text\<close>.
\<close>

definition utf8_str :: "string \<Rightarrow> bytes option" where
  "utf8_str s = (if utf8_valid (bytes_of_str s) then Some (bytes_of_str s) else None)"

definition if_type :: "bool \<Rightarrow> bytes \<Rightarrow> bytes option" where
  "if_type b p = (if b then Some p else None)"

primrec datum_payload :: "pg_type_id \<Rightarrow> pg_datum \<Rightarrow> bytes option" where
  "datum_payload t (D_Bool v) = if_type (t = T_Bool) [if v then 1 else 0]"
| "datum_payload t (D_Int2 v) = if_type (t = T_Int2) (u16_bytes v)"
| "datum_payload t (D_Int4 v) = if_type (t = T_Int4) (u32_bytes v)"
| "datum_payload t (D_Int8 v) = if_type (t = T_Int8) (u64_bytes v)"
| "datum_payload t (D_Float4 v) = if_type (t = T_Float4) (u32_bytes v)"
| "datum_payload t (D_Float8 v) = if_type (t = T_Float8) (u64_bytes v)"
| "datum_payload t (D_Oid v) = if_type (t = T_Oid) (u32_bytes v)"
| "datum_payload t (D_Date v) = if_type (t = T_Date) (u32_bytes v)"
| "datum_payload t (D_Time v) = if_type (t = T_Time) (u64_bytes v)"
| "datum_payload t (D_Timestamp v) = if_type (t = T_Timestamp) (u64_bytes v)"
| "datum_payload t (D_TimestampTz v) = if_type (t = T_Timestamptz) (u64_bytes v)"
| "datum_payload t (D_Money v) = if_type (t = T_Money) (u64_bytes v)"
| "datum_payload t (D_Xid v) = if_type (t = T_Xid) (u32_bytes v)"
| "datum_payload t (D_Cid v) = if_type (t = T_Cid) (u32_bytes v)"
| "datum_payload t (D_Xid8 v) = if_type (t = T_Xid8) (u64_bytes v)"
| "datum_payload t (D_Char v) = if_type (t = T_Char) [v]"
| "datum_payload t (D_Name b) = None"
| "datum_payload t (D_Tid block offset) = if_type (t = T_Tid) (u32_bytes block @ u16_bytes offset)"
| "datum_payload t (D_MacAddr b) = if_type (t = T_Macaddr \<and> length b = 6) b"
| "datum_payload t (D_MacAddr8 b) = if_type (t = T_Macaddr8 \<and> length b = 8) b"
| "datum_payload t (D_Uuid b) = if_type (t = T_Uuid \<and> length b = 16) b"
| "datum_payload t (D_Interval us days months) =
     if_type (t = T_Interval) (u64_bytes us @ u32_bytes days @ u32_bytes months)"
| "datum_payload t (D_TimeTz us tz) = if_type (t = T_Timetz) (u64_bytes us @ u32_bytes tz)"
| "datum_payload t (D_Point x y) = if_type (t = T_Point) (u64_bytes x @ u64_bytes y)"
| "datum_payload t (D_Line a b c) = if_type (t = T_Line) (u64_bytes a @ u64_bytes b @ u64_bytes c)"
| "datum_payload t (D_Lseg x1 y1 x2 y2) =
     if_type (t = T_Lseg) (u64_bytes x1 @ u64_bytes y1 @ u64_bytes x2 @ u64_bytes y2)"
| "datum_payload t (D_Box x1 y1 x2 y2) =
     if_type (t = T_Box) (u64_bytes x1 @ u64_bytes y1 @ u64_bytes x2 @ u64_bytes y2)"
| "datum_payload t (D_Circle x y r) = if_type (t = T_Circle) (u64_bytes x @ u64_bytes y @ u64_bytes r)"
| "datum_payload t (D_Text s) =
     (if t = T_Text then utf8_str s
      else if_type (t = T_Name \<and> length s < 64 \<and> utf8_valid (bytes_of_str s) \<and> 0 \<notin> set (bytes_of_str s))
             (bytes_of_str s @ replicate (64 - length s) 0))"
| "datum_payload t (D_Varchar s) = (if t = T_Varchar then utf8_str s else None)"
| "datum_payload t (D_BpChar s) = (if t = T_Bpchar then utf8_str s else None)"
| "datum_payload t (D_Bytea b) = if_type (t = T_Bytea) b"
| "datum_payload t (D_Json s) = (if t = T_Json then utf8_str s else None)"
| "datum_payload t (D_Jsonb b) = if_type (t = T_Jsonb) b"
| "datum_payload t (D_JsonPath b) = if_type (t = T_Jsonpath) b"
| "datum_payload t (D_Xml s) = (if t = T_Xml then utf8_str s else None)"
| "datum_payload t (D_Numeric b) = if_type (t = T_Numeric) b"
| "datum_payload t (D_Inet b) = if_type (t = T_Inet) b"
| "datum_payload t (D_Cidr b) = if_type (t = T_Cidr) b"
| "datum_payload t (D_Bit b) = if_type (t = T_Bit) b"
| "datum_payload t (D_VarBit b) = if_type (t = T_Varbit) b"
| "datum_payload t (D_Path b) = if_type (t = T_Path) b"
| "datum_payload t (D_Polygon b) = if_type (t = T_Polygon) b"
| "datum_payload t (D_RawBytes oid b) =
     if_type (oid = type_oid t \<and> (t = T_Aclitem \<and> length b = 16 \<or> ti_category (info t) = C_Array)) b"
| "datum_payload t D_Null = None"

text \<open>
  A stored varlena: a one-byte header when the payload has at most 126 bytes, otherwise the
  four-byte header of an uncompressed value.
\<close>

definition varlena_bytes :: "bytes \<Rightarrow> bytes" where
  "varlena_bytes p =
     (if length p \<le> 126 then word_of_nat (2 * (length p + 1) + 1) # p
      else u32_bytes (word_of_nat (4 * (length p + 4))) @ p)"

definition stored_bytes :: "pg_type_id \<Rightarrow> bytes \<Rightarrow> bytes" where
  "stored_bytes t p = (case type_len t of Fixed n \<Rightarrow> p | _ \<Rightarrow> varlena_bytes p)"

text \<open>
  What \<open>decode_datum\<close> does with the payload once it is extracted, the payload sizes a type admits,
  and the content that makes a \<open>name\<close> undecodable.
\<close>

definition decode_payload :: "pg_type_id \<Rightarrow> bytes \<Rightarrow> pg_datum decode_result" where
  "decode_payload t p = (case type_len t of Fixed w \<Rightarrow> decode_fixed t p | _ \<Rightarrow> decode_varlena t p)"

definition payload_fits :: "pg_type_len \<Rightarrow> bytes \<Rightarrow> bool" where
  "payload_fits tlen p = (case tlen of Fixed w \<Rightarrow> length p = unat w | _ \<Rightarrow> True)"

definition name_bytes_bad :: "bytes \<Rightarrow> bool" where
  "name_bytes_bad p \<longleftrightarrow> 0 \<notin> set p \<or> \<not> utf8_valid (takeWhile (\<lambda>b. b \<noteq> 0) p)"

section \<open>\<open>PgDatum::arrow_type\<close>\<close>

primrec datum_arrow_type :: "pg_datum \<Rightarrow> data_type" where
  "datum_arrow_type (D_Bool v) = DT_Boolean"
| "datum_arrow_type (D_Int2 v) = DT_Int16"
| "datum_arrow_type (D_Int4 v) = DT_Int32"
| "datum_arrow_type (D_Int8 v) = DT_Int64"
| "datum_arrow_type (D_Float4 v) = DT_Float32"
| "datum_arrow_type (D_Float8 v) = DT_Float64"
| "datum_arrow_type (D_Oid v) = DT_UInt32"
| "datum_arrow_type (D_Xid v) = DT_UInt32"
| "datum_arrow_type (D_Cid v) = DT_UInt32"
| "datum_arrow_type (D_Xid8 v) = DT_UInt64"
| "datum_arrow_type (D_Date v) = DT_Date32"
| "datum_arrow_type (D_Time v) = DT_Time64 Microsecond"
| "datum_arrow_type (D_Timestamp v) = DT_Timestamp Microsecond None"
| "datum_arrow_type (D_TimestampTz v) = DT_Timestamp Microsecond (Some ''UTC'')"
| "datum_arrow_type (D_Interval us days months) = DT_Interval MonthDayNano"
| "datum_arrow_type (D_TimeTz us tz) = DT_Time64 Microsecond"
| "datum_arrow_type (D_Money v) = DT_Int64"
| "datum_arrow_type (D_Char v) = DT_UInt8"
| "datum_arrow_type (D_Name b) = DT_Utf8"
| "datum_arrow_type (D_Tid block offset) = DT_Binary"
| "datum_arrow_type (D_MacAddr b) = DT_FixedSizeBinary 6"
| "datum_arrow_type (D_MacAddr8 b) = DT_FixedSizeBinary 8"
| "datum_arrow_type (D_Uuid b) = DT_FixedSizeBinary 16"
| "datum_arrow_type (D_Point x y) = DT_FixedSizeBinary 16"
| "datum_arrow_type (D_Line a b c) = DT_FixedSizeBinary 24"
| "datum_arrow_type (D_Lseg x1 y1 x2 y2) = DT_FixedSizeBinary 32"
| "datum_arrow_type (D_Box x1 y1 x2 y2) = DT_FixedSizeBinary 32"
| "datum_arrow_type (D_Circle x y r) = DT_FixedSizeBinary 24"
| "datum_arrow_type (D_Text s) = DT_Utf8"
| "datum_arrow_type (D_Varchar s) = DT_Utf8"
| "datum_arrow_type (D_BpChar s) = DT_Utf8"
| "datum_arrow_type (D_Json s) = DT_Utf8"
| "datum_arrow_type (D_Xml s) = DT_Utf8"
| "datum_arrow_type (D_Bytea b) = DT_Binary"
| "datum_arrow_type (D_Jsonb b) = DT_Binary"
| "datum_arrow_type (D_JsonPath b) = DT_Binary"
| "datum_arrow_type (D_Numeric b) = DT_Decimal256 38 0"
| "datum_arrow_type (D_Inet b) = DT_Binary"
| "datum_arrow_type (D_Cidr b) = DT_Binary"
| "datum_arrow_type (D_Bit b) = DT_Binary"
| "datum_arrow_type (D_VarBit b) = DT_Binary"
| "datum_arrow_type (D_Path b) = DT_Binary"
| "datum_arrow_type (D_Polygon b) = DT_Binary"
| "datum_arrow_type (D_RawBytes oid b) = DT_Binary"
| "datum_arrow_type D_Null = DT_Null"

section \<open>Lemmas\<close>

lemma u8_and_1: "(b AND 1 = (0 :: u8)) = even (unat b)"
proof -
  have "(b AND 2 ^ 0 = 0) = (\<not> bit b 0)" by (rule and_exp_eq_0_iff_not_bit)
  moreover have "bit (unat b) 0 = bit b 0" by (simp only: bit_unsigned_iff) simp
  ultimately show ?thesis by (simp add: bit_0)
qed

lemma le_bytes_numeral: "le_bytes (numeral k) n = word_of_nat n # le_bytes (pred_numeral k) (n div 256)"
  by (simp only: numeral_eq_Suc le_bytes.simps)

lemma read_varlena_no_panic: "read_varlena_header data offset \<noteq> Panic"
  by (auto simp: read_varlena_header_def outcome_simps Let_def split: if_splits)

lemma read_varlena_Ok:
  "read_varlena_header data offset = Ok (start, len) \<Longrightarrow> offset < length data \<and> offset < start"
  by (auto simp: read_varlena_header_def outcome_simps Let_def get_eq_Some split: if_splits)

text \<open>The header of a stored varlena, wherever it starts.\<close>

lemma unat_word_of_nat_less:
  "n < 2 ^ LENGTH('a) \<Longrightarrow> unat (word_of_nat n :: 'a::len word) = n"
  by (simp add: unsigned_of_nat take_bit_nat_eq_self)

lemma short_header:
  assumes "length p \<le> 126"
  shows "unat (word_of_nat (2 * (length p + 1) + 1) :: u8) = 2 * (length p + 1) + 1"
  by (rule unat_word_of_nat_less) (use assms in simp)

lemma long_header:
  assumes "length p + 4 < 2 ^ 30"
  shows "unat (word_of_nat (4 * (length p + 4)) :: u32) = 4 * (length p + 4)"
  by (rule unat_word_of_nat_less) (use assms in simp)

lemma varlena_bytes_length:
  "length (varlena_bytes p) = length p + (if length p \<le> 126 then 1 else 4)"
  by (simp add: varlena_bytes_def u32.enc_length)

lemma unat_drop_bit: "unat (drop_bit k (w :: 'a::len word)) = unat w div 2 ^ k"
  by (simp only: unsigned_drop_bit_eq) (simp add: drop_bit_eq_div take_bit_nat_eq_self unsigned_drop_bit_eq)

lemma u32_and_3: "(w AND 3 = (0 :: u32)) = (unat w mod 4 = 0)"
proof -
  have "w AND 3 = take_bit 2 w"
    by (simp add: take_bit_eq_mask mask_eq_exp_minus_1)
  then have "unat (w AND 3) = unat w mod 4"
    by (simp add: unsigned_take_bit_eq take_bit_eq_mod del: take_bit_word_eq_self) (simp add: unat_mod)
  then show ?thesis
    by (metis unsigned_eq_0_iff)
qed

lemma read_varlena_bytes:
  assumes d: "drop offset data = varlena_bytes p @ rest" and p: "length p + 4 < 2 ^ 30"
  shows "\<exists>start. read_varlena_header data offset = Ok (start, length p) \<and>
    start + length p = offset + length (varlena_bytes p) \<and>
    get_range data start (start + length p) = Some p"
proof -
  have len: "length data - offset = length p + (if length p \<le> 126 then 1 else 4) + length rest"
    using arg_cong [OF d, of length] by (simp add: varlena_bytes_length)
  then have off: "offset < length data" by (cases "length p \<le> 126") auto
  show ?thesis
  proof (cases "length p \<le> 126")
    case True
    define h where "h = (word_of_nat (2 * (length p + 1) + 1) :: u8)"
    have uh: "unat h = 2 * (length p + 1) + 1" unfolding h_def by (rule short_header) (rule True)
    have split: "drop offset data = h # p @ rest" using d True by (simp add: varlena_bytes_def h_def)
    then have "get data offset = Some h" using off by (simp add: Cons_nth_drop_Suc [symmetric])
    moreover have "h \<noteq> 1"
    proof
      assume "h = 1"
      then have "unat h = 1" by (simp only: unsigned_1)
      then show False unfolding uh by simp
    qed
    moreover have "h AND 1 \<noteq> 0"
      unfolding u8_and_1 uh by simp
    moreover have "unat (drop_bit 1 h) = length p + 1"
      by (simp only: unat_drop_bit uh) simp
    moreover have "drop (Suc offset) data = p @ rest"
      using split by (metis drop_Suc drop_drop list.sel(3) tl_drop plus_1_eq_Suc add.commute)
    ultimately show ?thesis
      using True len off
      by (simp add: read_varlena_header_def Let_def get_range_eq_Some varlena_bytes_length)
  next
    case False
    define w where "w = (word_of_nat (4 * (length p + 4)) :: u32)"
    have split: "drop offset data = u32_bytes w @ p @ rest" using d False by (simp add: varlena_bytes_def w_def)
    have w: "unat w = 4 * (length p + 4)" unfolding w_def by (rule long_header) (rule p)
    have rd: "(read_u32 data offset :: u32 decode_result) = Ok w"
      unfolding read_u32_def by (rule u32.read_at) (rule split)
    have "u32_bytes w = word_of_nat (unat w) # le_bytes 3 (unat w div 256)"
      using le_bytes.simps(2) [of 3 "unat w"] by (simp add: u32_bytes_def del: le_bytes.simps)
    then have "data ! offset = word_of_nat (unat w)"
      using split off by (metis hd_drop_conv_nth append_Cons list.sel(1))
    moreover have "even (unat (word_of_nat (unat w) :: u8))"
      by (simp only: w unsigned_of_nat) (simp add: even_take_bit_eq)
    ultimately have even: "even (unat (data ! offset))" by simp
    then have "data ! offset \<noteq> 1" "data ! offset AND 1 = 0" by (auto simp: u8_and_1)
    moreover have "w AND 3 = 0" by (simp only: u32_and_3 w) simp
    moreover have "unat (drop_bit 2 w) = length p + 4"
      by (simp only: unat_drop_bit w) simp
    moreover have "drop (offset + 4) data = p @ rest"
      using arg_cong [OF split, of "drop 4"] u32.enc_length by (simp add: add.commute)
    moreover have "offset + 4 + length p \<le> length data"
      using len off False by simp
    ultimately show ?thesis
      using False off rd
      by (simp add: read_varlena_header_def Let_def get_range_eq_Some varlena_bytes_length)
  qed
qed
lemma decode_datum_via_extract:
  "(decode_datum t data off = Ok (d, n)) =
    (\<exists>p. extract_column_bytes (type_len t) data off = Ok (p, n) \<and> decode_payload t p = Ok d)"
  by (cases "type_len t")
    (auto simp: decode_datum_def extract_column_bytes_def decode_payload_def outcome_simps Let_def
      split: prod.splits)

lemma takeWhile_shorter: "x \<in> set xs \<Longrightarrow> \<not> P x \<Longrightarrow> length (takeWhile P xs) < length xs"
  by (induction xs) auto

lemma nul_position_bound: "nul_position bs = Some n \<Longrightarrow> n < length bs"
  by (auto simp: nul_position_def intro: takeWhile_shorter split: if_splits)

lemma extract_iff_skip:
  "(\<exists>p. extract_column_bytes tlen data off = Ok (p, n)) =
    (skip_datum tlen data off = Ok n \<and> off + n \<le> length data)"
proof (cases tlen)
  case (Fixed w)
  then show ?thesis
    by (auto simp: extract_column_bytes_def skip_datum_def outcome_simps get_range_eq_Some Let_def)
next
  case Varlena
  show ?thesis
  proof (cases "read_varlena_header data off")
    case (Ok h)
    obtain s l where "h = (s, l)" by (cases h)
    moreover then have "off < s" using Ok read_varlena_Ok by blast
    ultimately show ?thesis
      using Varlena Ok
      by (auto simp: extract_column_bytes_def skip_datum_def outcome_simps get_range_eq_Some Let_def)
  qed (use Varlena in \<open>simp_all add: extract_column_bytes_def skip_datum_def\<close>)
next
  case CString
  then show ?thesis
    using nul_position_bound [of "drop off data"]
    by (fastforce simp: extract_column_bytes_def skip_datum_def outcome_simps get_range_eq_Some)
qed
lemma from_utf8_cases: "from_utf8 bs = (if utf8_valid bs then Ok (str_of_bytes bs) else Err (the (utf8_scan 0 bs)))"
  by (auto simp: from_utf8_def utf8_valid_def split: option.splits)

lemma decode_varlena_no_panic: "decode_varlena t p \<noteq> Panic"
  by (cases t) (simp_all add: decode_varlena_def utf8_payload_def outcome_simps from_utf8_no_panic)

lemma decode_fixed_exact:
  assumes "type_len t = Fixed w" and "length p = unat w"
  shows "if t = T_Name \<and> name_bytes_bad p then decode_fixed t p = Panic else \<exists>d. decode_fixed t p = Ok d"
  using assms
  by (cases t)
    (simp_all add: decode_fixed_arms scalar_def copied_def check_len_def read_uint_defs read_simps
      cstr_until_nul_def from_utf8_cases name_bytes_bad_def)

lemma decode_datum_panic:
  "(decode_datum t data off = Panic) =
    (t = T_Name \<and> off + 64 \<le> length data \<and> name_bytes_bad (take 64 (drop off data)))"
proof (cases "type_len t")
  case (Fixed w)
  have "t = T_Name \<Longrightarrow> unat w = 64" using Fixed by simp
  moreover have "off + unat w \<le> length data \<Longrightarrow> decode_fixed t (take (unat w) (drop off data)) = Panic \<longleftrightarrow>
    t = T_Name \<and> name_bytes_bad (take (unat w) (drop off data))"
    using decode_fixed_exact [OF Fixed, of "take (unat w) (drop off data)"] by (auto split: if_splits)
  ultimately show ?thesis
    using Fixed by (auto simp: decode_datum_def outcome_simps get_range_eq_Some Let_def)
next
  case Varlena
  then show ?thesis
    using read_varlena_no_panic [of data off]
    by (auto simp: decode_datum_def outcome_simps Let_def decode_varlena_no_panic split: prod.splits)
qed simp

lemmas codec_arm_simps = decode_fixed_arms scalar_def copied_def check_len_def read_uint_defs read_simps

lemma read_uint_bytes:
  "length p = 2 \<Longrightarrow> u16_bytes (word_of_nat (le_val p)) = p"
  "length p = 4 \<Longrightarrow> u32_bytes (word_of_nat (le_val p)) = p"
  "length p = 8 \<Longrightarrow> u64_bytes (word_of_nat (le_val p)) = p"
  by (simp_all add: u16.enc_dec u32.enc_dec u64.enc_dec)

lemma fields_glue:
  "take 8 (drop 16 p) @ drop 24 p = drop 16 p"
  "take 8 (drop 8 p) @ drop 16 p = drop 8 p"
  "take 4 (drop 8 p) @ drop 12 p = drop 8 p"
  "length q = Suc 0 \<Longrightarrow> [q ! 0] = q"
  using append_take_drop_id [of 8 "drop 16 p"] append_take_drop_id [of 8 "drop 8 p"]
    append_take_drop_id [of 4 "drop 8 p"]
  by (simp_all add: length_Suc_conv) auto

lemma datum_payload_fixed:
  assumes "type_len t = Fixed w" and "length p = unat w" and "t \<noteq> T_Bool" "t \<noteq> T_Name"
    and "decode_fixed t p = Ok d"
  shows "datum_payload t d = Some p"
  using assms
  by (cases t)
    (auto simp: codec_arm_simps read_uint_bytes if_type_def fields_glue)

lemma uint_bytes_length [simp]:
  "length (u16_bytes v) = 2" "length (u32_bytes w) = 4" "length (u64_bytes x) = 8"
  by (simp_all add: u16.enc_length u32.enc_length u64.enc_length)

lemma le_val_uint_bytes [simp]:
  "word_of_nat (le_val (u16_bytes v)) = v" "word_of_nat (le_val (u32_bytes w)) = w"
  "word_of_nat (le_val (u64_bytes x)) = x"
  by (simp_all add: u16.dec_enc u32.dec_enc u64.dec_enc)

lemma takeWhile_nonzero_pad:
  "0 \<notin> set q \<Longrightarrow> takeWhile (\<lambda>b. b \<noteq> 0) (q @ replicate k 0) = (q :: bytes)"
  by (induction q) (auto simp: takeWhile_eq_Nil_iff hd_replicate split: if_splits)

lemma cstr_pad: "0 \<notin> set q \<Longrightarrow> 0 < k \<Longrightarrow> cstr_until_nul (q @ replicate k 0) = Some q"
  by (simp add: cstr_until_nul_def takeWhile_nonzero_pad)

lemma bytes_of_str_length [simp]: "length (bytes_of_str s) = length s"
  by (simp add: bytes_of_str_def)

lemmas payload_simps = decode_payload_def payload_fits_def codec_arm_simps decode_varlena_def utf8_payload_def
  from_utf8_cases utf8_str_def

lemma array_varlena:
  "ti_category (info t) = C_Array \<Longrightarrow> type_len t = Varlena \<and> decode_varlena t p = Ok (D_RawBytes (type_oid t) p)"
  by (cases t) (simp_all add: info_arms pg_type_info.defs decode_varlena_def)

lemma datum_payload_decodes:
  assumes "datum_payload t d = Some p"
  shows "payload_fits (type_len t) p \<and> decode_payload t p = Ok d"
proof (cases d)
  case (D_RawBytes oid b)
  show ?thesis
  proof (cases "t = T_Aclitem")
    case True
    then show ?thesis using assms D_RawBytes
      by (simp add: payload_simps if_type_def info_arms pg_type_info.defs split: if_splits)
  next
    case False
    then show ?thesis
      using assms D_RawBytes array_varlena [of t p]
      by (auto simp: decode_payload_def payload_fits_def if_type_def split: if_splits)
  qed
qed (use assms in \<open>auto simp: payload_simps if_type_def cstr_pad split: if_splits\<close>)

lemma varlena_payload:
  assumes "type_len t = Varlena" and "decode_varlena t p = Ok d"
  shows "datum_payload t d = Some p"
  using assms
  by (cases t) (auto simp: decode_varlena_def utf8_payload_def from_utf8_cases utf8_str_def if_type_def
     outcome_simps info_arms pg_type_info.defs split: if_splits)

lemma decode_payload_iff:
  assumes "t \<noteq> T_Bool" "t \<noteq> T_Name"
  shows "(payload_fits (type_len t) p \<and> decode_payload t p = Ok d) = (datum_payload t d = Some p)"
proof
  assume *: "payload_fits (type_len t) p \<and> decode_payload t p = Ok d"
  show "datum_payload t d = Some p"
  proof (cases "type_len t")
    case (Fixed w)
    then show ?thesis using * assms datum_payload_fixed [OF Fixed] by (simp add: payload_fits_def decode_payload_def)
  next
    case Varlena
    then show ?thesis using * varlena_payload by (simp add: decode_payload_def)
  qed simp
qed (rule datum_payload_decodes)

lemma extract_stored:
  assumes "drop off data = stored_bytes t p @ rest" and "payload_fits (type_len t) p" and "length p + 4 < 2 ^ 30"
    and "off \<le> length data"
  shows "extract_column_bytes (type_len t) data off = Ok (p, length (stored_bytes t p))"
proof (cases "type_len t")
  case (Fixed w)
  then have "stored_bytes t p = p" "length p = unat w" using assms(2) by (simp_all add: stored_bytes_def payload_fits_def)
  moreover have "length data - off = length (p @ rest)"
    using arg_cong [OF assms(1), of length] calculation by simp
  ultimately show ?thesis
    using Fixed assms by (simp add: extract_column_bytes_def get_range_def Let_def)
next
  case Varlena
  then have st: "stored_bytes t p = varlena_bytes p" by (simp add: stored_bytes_def)
  obtain s where s: "read_varlena_header data off = Ok (s, length p)"
    "s + length p = off + length (varlena_bytes p)" "get_range data s (s + length p) = Some p"
    using read_varlena_bytes [OF assms(1) [unfolded st] assms(3)] by blast
  show ?thesis
    using Varlena s by (simp add: st extract_column_bytes_def Let_def)
qed simp

lemma decode_stored:
  assumes "datum_payload t d = Some p" and "drop off data = stored_bytes t p @ rest"
    and "length p + 4 < 2 ^ 30" and "off \<le> length data"
  shows "decode_datum t data off = Ok (d, length (stored_bytes t p))"
  using extract_stored [OF assms(2) _ assms(3,4)] datum_payload_decodes [OF assms(1)]
  by (auto simp: decode_datum_via_extract)

lemma decode_payload_arrow:
  assumes "decode_payload t p = Ok d" and "payload_fits (type_len t) p"
  shows "datum_arrow_type d = (if ti_category (info t) = C_Array then DT_Binary else arrow_type t)"
  using assms
  by (cases t)
    (auto simp: payload_simps outcome_simps info_arms pg_type_info.defs split: if_splits)

lemma extract_payload_fits:
  "extract_column_bytes tlen data off = Ok (p, n) \<Longrightarrow> payload_fits tlen p"
  by (cases tlen)
    (auto simp: extract_column_bytes_def payload_fits_def outcome_simps Let_def dest: get_range_length)

section \<open>Properties\<close>

text \<open>
  C11: \<open>decode_datum\<close>, \<open>extract_column_bytes\<close> and \<open>skip_datum\<close> walk the same encoding.  A column
  decodes exactly when its bytes can be extracted and the payload decodes, with the same number of
  bytes consumed; and the bytes can be extracted exactly when the column can be skipped and the
  skipped bytes lie inside the tuple data (the check \<open>skip_datum\<close> leaves out).
\<close>

theorem decode_extract_skip_agree:
  "((decode_datum t data off = Ok (d, n)) =
      (\<exists>p. extract_column_bytes (type_len t) data off = Ok (p, n) \<and> decode_payload t p = Ok d)) \<and>
   ((\<exists>p. extract_column_bytes (type_len t) data off = Ok (p, n)) =
      (skip_datum (type_len t) data off = Ok n \<and> off + n \<le> length data))"
  by (simp add: decode_datum_via_extract extract_iff_skip)

text \<open>
  C37: \<open>decode_datum\<close> panics on one kind of input only: a complete 64-byte value of type \<open>name\<close>
  that holds no NUL byte or is not valid UTF-8 before it.  Everything else is reported as an error
  or decoded, although the error type has variants for both of these cases.
\<close>

theorem decode_datum_panics_iff:
  "(decode_datum t data off = Panic) =
    (t = T_Name \<and> off + 64 \<le> length data \<and> name_bytes_bad (take 64 (drop off data)))"
  by (rule decode_datum_panic)

text \<open>
  The payload decoders invert the reference encoding: for every type except \<open>bool\<close> and \<open>name\<close>
  (which map several payloads to one datum), a payload of admissible size decodes to \<open>d\<close> exactly
  when it is the encoding of \<open>d\<close>.
\<close>

theorem decode_payload_inverse:
  assumes "t \<noteq> T_Bool" and "t \<noteq> T_Name"
  shows "(payload_fits (type_len t) p \<and> decode_payload t p = Ok d) = (datum_payload t d = Some p)"
  using assms by (rule decode_payload_iff)

theorem decode_payload_inverse_witness:
  "decode_payload T_Tid [1, 0, 2, 0, 3, 0] = Ok (D_Tid 0x20001 3) \<and>
   datum_payload T_Tid (D_Tid 0x20001 3) = Some [1, 0, 2, 0, 3, 0]"
proof -
  have "datum_payload T_Tid (D_Tid 0x20001 3) = Some [1, 0, 2, 0, 3, 0]"
    by (simp add: if_type_def u32_bytes_def u16_bytes_def le_bytes_numeral)
  then show ?thesis
    using decode_payload_inverse [of T_Tid "[1, 0, 2, 0, 3, 0]" "D_Tid 0x20001 3"] by simp
qed

text \<open>
  C8: Reading back a stored column: wherever the stored form of a datum (with its one-byte or
  four-byte varlena header) stands in the tuple data, \<open>decode_datum\<close> returns the datum and the
  length of the stored form, for all 66 types.
\<close>

theorem decode_stored_datum:
  assumes "datum_payload t d = Some p" and "length p + 4 < 2 ^ 30"
  shows "decode_datum t (before @ stored_bytes t p @ rest) (length before) =
    Ok (d, length (stored_bytes t p))"
  by (rule decode_stored [OF assms(1) _ assms(2)]) simp_all

theorem decode_stored_datum_witness:
  "decode_datum T_Varchar ([9] @ stored_bytes T_Varchar [104, 105] @ [7]) (length [9 :: u8]) =
    Ok (D_Varchar ''hi'', length (stored_bytes T_Varchar [104, 105]))"
proof (rule decode_stored_datum)
  show "datum_payload T_Varchar (D_Varchar ''hi'') = Some [104, 105]"
    by (simp add: utf8_str_def bytes_of_str_def utf8_valid_Cons utf8_head_def utf8_char_def char_width_def)
qed simp

text \<open>
  The two mappings to Arrow agree: a datum that \<open>decode_datum\<close> returns for a column of a
  type has, by \<open>PgDatum::arrow_type\<close>, the Arrow type \<open>PgTypeId::arrow_type\<close> gives the column; an
  array is decoded to raw bytes, hence \<open>Binary\<close>, where the schema announces a list.
\<close>

theorem decoded_arrow_type:
  assumes "decode_datum t data off = Ok (d, n)"
  shows "datum_arrow_type d = (if ti_category (info t) = C_Array then DT_Binary else arrow_type t)"
  using assms decode_payload_arrow extract_payload_fits by (auto simp: decode_datum_via_extract)

theorem decoded_arrow_type_witness:
  "datum_arrow_type (D_Int2 258) = arrow_type T_Int2"
proof -
  have "decode_datum T_Int2 [2, 1] 0 = Ok (D_Int2 258, 2)"
    by (simp add: decode_datum_def codec_arm_simps get_range_def Let_def)
  from decoded_arrow_type [OF this] show ?thesis
    by (simp add: info_arms pg_type_info.defs)
qed

end
