(* ===== verification/Schema.thy ===== *)
theory Schema
  imports Codec "HOL-Library.Multiset"
begin

text \<open>
  \<open>src/types/column.rs\<close>, \<open>src/types/schema.rs\<close> and the trait of \<open>src/types/catalog.rs\<close>: column
  descriptors, the schema of a relation, how it is built from \<open>pg_attribute\<close> rows or from
  compile-time catalog metadata, and its Arrow schema (\<open>numeric_typmod_to_arrow_type\<close> is the
  function of \<open>src/types/arrow.rs\<close> the column conversion calls).  The trait is the locale
  \<open>catalog_relation\<close>; its implementations are in the theory \<open>Catalogs\<close>.
\<close>

section \<open>Columns\<close>

record pg_column =
  col_name :: string
  type_id :: pg_type_id
  nullable :: bool
  typmod :: i32

definition pg_column_new :: "string \<Rightarrow> pg_type_id \<Rightarrow> bool \<Rightarrow> i32 \<Rightarrow> pg_column" where
  "pg_column_new name t nul tm = \<lparr>col_name = name, type_id = t, nullable = nul, typmod = tm\<rparr>"

text \<open>The casts \<open>as u8\<close> and \<open>as i8\<close> of the source truncate.\<close>

definition numeric_typmod_to_arrow_type :: "i32 \<Rightarrow> data_type" where
  "numeric_typmod_to_arrow_type tmod =
     (if 0 < sint tmod then
        let tm = tmod - 4;
            precision = ucast (drop_bit 16 tm) :: u8;
            scale = ucast (tm AND 0xFFFF) :: u8
        in if precision \<le> 38 then DT_Decimal128 precision scale else DT_Decimal256 precision scale
      else DT_Decimal256 38 0)"

definition to_arrow_field :: "pg_column \<Rightarrow> arrow_field" where
  "to_arrow_field c =
     (let dt = (if type_id c = T_Numeric then numeric_typmod_to_arrow_type (typmod c)
                else arrow_type (type_id c))
      in Field (col_name c) dt (nullable c))"

text \<open>A decoded row of \<open>pg_attribute\<close> (\<open>PgAttribute\<close> of \<open>src/types/pg_type.rs\<close>).\<close>

record pg_attribute =
  attrelid :: u32
  attname :: string
  atttypid :: u32
  attlen :: i16
  attnum :: i16
  atttypmod :: i32
  attndims :: i16
  attbyval :: bool
  attalign :: u8
  attstorage :: u8
  attcompression :: u8
  attnotnull :: bool
  atthasdef :: bool
  atthasmissing :: bool
  attidentity :: u8
  attgenerated :: u8
  attisdropped :: bool
  attislocal :: bool
  attinhcount :: i16
  attcollation :: u32

text \<open>\<open>impl From<&PgAttribute> for PgColumn\<close>: an unknown type OID is read as \<open>text\<close>.\<close>

definition pg_column_from :: "pg_attribute \<Rightarrow> pg_column" where
  "pg_column_from a =
     \<lparr>col_name = attname a,
      type_id = (case type_id_try_from (atttypid a) of Ok t \<Rightarrow> t | _ \<Rightarrow> T_Text),
      nullable = (\<not> attnotnull a),
      typmod = atttypmod a\<rparr>"

section \<open>Schemas\<close>

record pg_schema =
  schema_name :: string
  columns :: "pg_column list"

definition pg_schema_new :: "string \<Rightarrow> pg_column list \<Rightarrow> pg_schema" where
  "pg_schema_new name cols = \<lparr>schema_name = name, columns = cols\<rparr>"

definition user_attribute :: "pg_attribute \<Rightarrow> bool" where
  "user_attribute a \<longleftrightarrow> \<not> attisdropped a \<and> 0 < sint (attnum a)"

definition from_attributes :: "string \<Rightarrow> pg_attribute list \<Rightarrow> pg_schema" where
  "from_attributes name attrs =
     (let user_attrs = sort_key (\<lambda>a. sint (attnum a)) (filter user_attribute attrs)
      in \<lparr>schema_name = name, columns = map pg_column_from user_attrs\<rparr>)"

definition to_arrow_schema :: "pg_schema \<Rightarrow> arrow_field list" where
  "to_arrow_schema s = map to_arrow_field (columns s)"

definition num_columns :: "pg_schema \<Rightarrow> usize" where
  "num_columns s = length (columns s)"

definition column :: "pg_schema \<Rightarrow> usize \<Rightarrow> pg_column option" where
  "column s i = get (columns s) i"

definition column_by_name :: "pg_schema \<Rightarrow> string \<Rightarrow> pg_column option" where
  "column_by_name s name = List.find (\<lambda>c. col_name c = name) (columns s)"

definition project :: "pg_schema \<Rightarrow> usize list \<Rightarrow> (pg_error, pg_schema) outcome" where
  "project s indices =
     obind (omap (\<lambda>i. index (columns s) i) indices) (\<lambda>cols. Ok (pg_schema_new (schema_name s) cols))"

section \<open>The trait of the system catalogs\<close>

text \<open>\<open>PgCatalogRelation::catalog_schema\<close>, the default method, over the trait's constants.\<close>

definition catalog_schema :: "string \<Rightarrow> pg_type_id list \<Rightarrow> string list \<Rightarrow> pg_schema" where
  "catalog_schema catalog_name attr_types attr_names =
     pg_schema_new catalog_name
       (map (\<lambda>(name, t). pg_column_new name t True (-1)) (zip attr_names attr_types))"

text \<open>
  What the decoders rely on in an implementation: the two tables have the declared length, the
  names are distinct, and every listed attribute has a fixed width, so its offset in a tuple
  without nulls does not depend on the data.
\<close>

locale catalog_relation =
  fixes relation_oid :: u32
    and num_fixed_attrs :: usize
    and attr_types :: "pg_type_id list"
    and attr_names :: "string list"
    and catalog_name :: string
  assumes types_length: "length attr_types = num_fixed_attrs"
    and names_length: "length attr_names = num_fixed_attrs"
    and names_distinct: "distinct attr_names"
    and types_fixed: "t \<in> set attr_types \<Longrightarrow> type_len t \<noteq> Varlena"
begin

lemma schema_num_columns: "num_columns (catalog_schema catalog_name attr_types attr_names) = num_fixed_attrs"
  by (simp add: num_columns_def catalog_schema_def pg_schema_new_def types_length names_length)

lemma schema_columns:
  "columns (catalog_schema catalog_name attr_types attr_names) =
    map (\<lambda>i. pg_column_new (attr_names ! i) (attr_types ! i) True (-1)) [0..<num_fixed_attrs]"
  by (rule nth_equalityI)
    (simp_all add: catalog_schema_def pg_schema_new_def types_length names_length)

lemma schema_types: "map type_id (columns (catalog_schema catalog_name attr_types attr_names)) = attr_types"
  by (rule nth_equalityI)
    (simp_all add: schema_columns pg_column_new_def types_length del: upt_Suc)

lemma schema_column:
  "i < num_fixed_attrs \<Longrightarrow> column (catalog_schema catalog_name attr_types attr_names) i =
    Some (pg_column_new (attr_names ! i) (attr_types ! i) True (-1))"
  by (simp add: column_def schema_columns)

lemma schema_by_name:
  assumes "i < num_fixed_attrs"
  shows "column_by_name (catalog_schema catalog_name attr_types attr_names) (attr_names ! i) =
    column (catalog_schema catalog_name attr_types attr_names) i"
proof -
  let ?cols = "columns (catalog_schema catalog_name attr_types attr_names)"
  have "\<not> col_name (?cols ! j) = attr_names ! i" if "j < i" for j
    using that assms names_distinct names_length
    by (simp add: schema_columns pg_column_new_def nth_eq_iff_index_eq)
  moreover have "i < length ?cols" "col_name (?cols ! i) = attr_names ! i"
    using assms by (simp_all add: schema_columns pg_column_new_def)
  ultimately show ?thesis
    by (auto simp: column_by_name_def column_def find_Some_iff)
qed

end

section \<open>Lemmas\<close>

text \<open>In a list sorted by distinct keys, an element stands at its rank.\<close>

lemma strictly_sorted_rank:
  fixes f :: "'a \<Rightarrow> int"
  assumes "sorted_wrt (\<lambda>a b. f a < f b) ys" and "i < length ys"
  shows "filter (\<lambda>b. f b < f (ys ! i)) ys = take i ys"
proof -
  have "filter (\<lambda>b. f b < f (ys ! i)) (take i ys) = take i ys"
  proof (rule filter_True, rule ballI)
    fix b assume "b \<in> set (take i ys)"
    then obtain j where "j < i" "b = ys ! j" using assms(2) by (auto simp: in_set_conv_nth)
    then show "f b < f (ys ! i)" using assms sorted_wrt_nth_less by blast
  qed
  moreover have "filter (\<lambda>b. f b < f (ys ! i)) (drop i ys) = []"
  proof -
    have "\<not> f b < f (ys ! i)" if "b \<in> set (drop i ys)" for b
    proof -
      obtain k where "k < length ys - i" "b = ys ! (i + k)"
        using \<open>b \<in> set (drop i ys)\<close> by (auto simp: in_set_conv_nth)
      then obtain j where j: "i \<le> j" "j < length ys" "b = ys ! j"
        by (metis add.commute le_add1 less_diff_conv)
      show ?thesis
      proof (cases "j = i")
        case False
        then have "f (ys ! i) < f (ys ! j)" using sorted_wrt_nth_less [OF assms(1), of i j] j by simp
        then show ?thesis using j by simp
      qed (use j in simp)
    qed
    then show ?thesis by (simp add: filter_empty_conv)
  qed
  ultimately show ?thesis
    by (metis append_Nil2 append_take_drop_id filter_append)
qed

lemma sort_key_strict:
  fixes f :: "'a \<Rightarrow> int"
  assumes "distinct (map f xs)"
  shows "sorted_wrt (\<lambda>a b. f a < f b) (sort_key f xs)"
proof -
  have "mset (map f (sort_key f xs)) = mset (map f xs)" by simp
  then have "distinct (map f (sort_key f xs))" using assms by (metis mset_eq_imp_distinct_iff)
  then have "sorted_wrt (<) (map f (sort_key f xs))"
    by (simp add: strict_sorted_iff)
  then show ?thesis by (simp add: sorted_wrt_map)
qed

lemma sort_key_rank:
  fixes f :: "'a \<Rightarrow> int"
  assumes "distinct (map f xs)"
  shows "(i < length xs \<and> sort_key f xs ! i = a) =
    (a \<in> set xs \<and> i = length (filter (\<lambda>b. f b < f a) xs))"
proof -
  let ?ys = "sort_key f xs"
  have count: "length (filter P ?ys) = length (filter P xs)" for P
    by (metis mset_filter mset_sort size_mset)
  have rank: "length (filter (\<lambda>b. f b < f (?ys ! j)) xs) = j" if "j < length xs" for j
    using strictly_sorted_rank [OF sort_key_strict [OF assms], of j] that
    by (simp add: count [symmetric])
  show ?thesis
  proof
    assume "i < length xs \<and> sort_key f xs ! i = a"
    then show "a \<in> set xs \<and> i = length (filter (\<lambda>b. f b < f a) xs)"
      using rank [of i] by (metis length_sort nth_mem set_sort)
  next
    assume *: "a \<in> set xs \<and> i = length (filter (\<lambda>b. f b < f a) xs)"
    then obtain j where "j < length xs" "?ys ! j = a"
      by (metis in_set_conv_nth length_sort set_sort)
    then show "i < length xs \<and> sort_key f xs ! i = a" using rank [of j] * by auto
  qed
qed

lemma project_eq:
  "project s indices =
    (if \<forall>i \<in> set indices. i < num_columns s
     then Ok (pg_schema_new (schema_name s) (map ((!) (columns s)) indices)) else Panic)"
proof (cases "\<forall>i \<in> set indices. i < num_columns s")
  case True
  then have "(omap (index (columns s)) indices :: pg_column list pg_result) =
      Ok (map ((!) (columns s)) indices)"
    by (intro omap_all_Ok) (simp add: index_Ok num_columns_def)
  then show ?thesis using True by (simp add: project_def)
next
  case False
  then have "(omap (index (columns s)) indices :: pg_column list pg_result) = Panic"
    by (induction indices) (auto simp: outcome_simps num_columns_def not_less intro: index_Ok)
  then show ?thesis using False by (simp add: project_def)
qed

text \<open>An \<open>int4\<close> attribute with a given number, as the witnesses use it.\<close>

definition attribute_row :: "i16 \<Rightarrow> bool \<Rightarrow> pg_attribute" where
  "attribute_row n dropped =
     \<lparr>attrelid = 1, attname = ''a'', atttypid = 23, attlen = 4, attnum = n, atttypmod = -1,
      attndims = 0, attbyval = True, attalign = 105, attstorage = 112, attcompression = 0,
      attnotnull = False, atthasdef = False, atthasmissing = False, attidentity = 0,
      attgenerated = 0, attisdropped = dropped, attislocal = True, attinhcount = 0,
      attcollation = 0\<rparr>"

lemma omap_index_map:
  "obind (omap (index xs) is) (\<lambda>ys. Ok (map f ys)) = omap (index (map f xs)) is"
proof (induction "is")
  case (Cons i "is")
  show ?case
  proof (cases "i < length xs")
    case True
    then show ?thesis by (simp add: index_Ok obind_assoc flip: Cons)
  next
    case False
    then show ?thesis by (simp add: index_def)
  qed
qed simp

section \<open>Properties\<close>

text \<open>
  The schema built from \<open>pg_attribute\<close> rows lists exactly the live user attributes, each at its
  rank by attribute number: column \<open>i\<close> is attribute \<open>a\<close> just when \<open>i\<close> live attributes have a
  smaller \<open>attnum\<close>.  The rank is the position in the tuple (\<open>attnum - 1\<close>) only while no attribute
  with a smaller number is dropped, although a dropped attribute stays in the tuple layout and in
  the null bitmap.
\<close>

theorem from_attributes_rank:
  assumes "distinct (map (\<lambda>a. sint (attnum a)) (filter user_attribute attrs))"
  shows "(column (from_attributes name attrs) i = Some c) =
    (\<exists>a \<in> set attrs. user_attribute a \<and> c = pg_column_from a \<and>
      i = length (filter (\<lambda>b. user_attribute b \<and> sint (attnum b) < sint (attnum a)) attrs))"
proof -
  let ?us = "filter user_attribute attrs" and ?f = "\<lambda>a. sint (attnum a)"
  have "(column (from_attributes name attrs) i = Some c) =
      (\<exists>a. (i < length ?us \<and> sort_key ?f ?us ! i = a) \<and> c = pg_column_from a)"
    by (auto simp: column_def from_attributes_def Let_def get_eq_Some)
  also have "\<dots> = (\<exists>a. (a \<in> set ?us \<and> i = length (filter (\<lambda>b. ?f b < ?f a) ?us)) \<and> c = pg_column_from a)"
    by (simp only: sort_key_rank [OF assms])
  also have "\<dots> = (\<exists>a \<in> set attrs. user_attribute a \<and> c = pg_column_from a \<and>
      i = length (filter (\<lambda>b. user_attribute b \<and> ?f b < ?f a) attrs))"
    by (auto simp: conj_commute)
  finally show ?thesis .
qed

theorem from_attributes_rank_witness:
  "column (from_attributes ''t'' [attribute_row 3 False, attribute_row 1 False, attribute_row 2 True]) 1 =
    Some (pg_column_from (attribute_row 3 False))"
  by (rule iffD2 [OF from_attributes_rank])
    (simp_all add: attribute_row_def user_attribute_def)

text \<open>
  \<open>project\<close> panics exactly on an index out of range, and otherwise selects columns in the order
  of the indices, so that taking the Arrow schema commutes with it: the Arrow schema of the
  projection holds, for each index, the field of the original Arrow schema.
\<close>

theorem project_arrow_schema:
  "(project s indices = Panic) = (\<exists>i \<in> set indices. num_columns s \<le> i) \<and>
   obind (project s indices) (\<lambda>s'. Ok (to_arrow_schema s')) = omap (index (to_arrow_schema s)) indices"
proof -
  have "(project s indices = Panic) = (\<exists>i \<in> set indices. num_columns s \<le> i)"
    by (auto simp: project_eq not_less)
  moreover have "obind (project s indices) (\<lambda>s'. Ok (to_arrow_schema s')) =
      obind (omap (index (columns s)) indices) (\<lambda>ys. Ok (map to_arrow_field ys))"
    by (simp add: project_def obind_assoc to_arrow_schema_def pg_schema_new_def)
  ultimately show ?thesis
    by (simp add: omap_index_map to_arrow_schema_def)
qed

text \<open>
  The Arrow decimal type of a \<open>NUMERIC(p, s)\<close> column, for every modifier PostgreSQL packs as
  \<open>((p << 16) | s) + 4\<close>: the precision is taken modulo 256 before it is compared with 38 and the
  scale is reinterpreted as a signed byte, so \<open>NUMERIC(266, 2)\<close>, say, becomes a \<open>Decimal128\<close> of
  precision 10.
\<close>

theorem numeric_typmod_decoded:
  assumes "p < 32767" and "s < 65536"
  shows "numeric_typmod_to_arrow_type (word_of_nat (p * 65536 + s + 4)) =
    (if p mod 256 \<le> 38 then DT_Decimal128 (word_of_nat p) (word_of_nat s)
     else DT_Decimal256 (word_of_nat p) (word_of_nat s))"
proof -
  define n where "n = p * 65536 + s"
  have n: "n + 4 < 2 ^ 31" using assms by (simp add: n_def)
  define tm where "tm = (word_of_nat n :: i32)"
  have "sint (word_of_nat (n + 4) :: i32) = int (n + 4)"
    using n by (simp only: signed_of_nat) (simp add: signed_take_bit_int_eq_self)
  moreover have "word_of_nat (n + 4) - 4 = tm" by (simp add: tm_def)
  moreover have un: "unat tm = n" unfolding tm_def by (rule unat_word_of_nat_less) (use n in simp)
  have "unat (drop_bit 16 tm) = p"
    using assms un by (simp add: unat_drop_bit n_def)
  then have "(ucast (drop_bit 16 tm) :: u8) = word_of_nat p"
    by (metis of_nat_unat)
  moreover have "(ucast (tm AND 0xFFFF) :: u8) = word_of_nat s"
  proof -
    have "unat (take_bit 16 tm) = s"
      using assms un by (simp only: unsigned_take_bit_eq) (simp add: take_bit_eq_mod n_def)
    moreover have "tm AND 0xFFFF = take_bit 16 tm" by (simp add: take_bit_eq_mask mask_eq_exp_minus_1)
    ultimately show ?thesis by (metis of_nat_unat)
  qed
  moreover have "((word_of_nat p :: u8) \<le> 38) = (p mod 256 \<le> 38)"
    by (simp add: word_le_nat_alt unsigned_of_nat take_bit_eq_mod)
  ultimately show ?thesis
    by (simp add: numeric_typmod_to_arrow_type_def Let_def flip: n_def)
qed

theorem numeric_typmod_decoded_witness:
  "numeric_typmod_to_arrow_type (word_of_nat (266 * 65536 + 2 + 4)) = DT_Decimal128 10 2"
  using numeric_typmod_decoded [of 266 2] by simp

end
