(* ===== verification/Rows.thy ===== *)
theory Rows
  imports Tuple Schema
begin

text \<open>
  Walking the columns of a tuple: \<open>get_column\<close> and \<open>skip_column\<close> of \<open>src/heap/tuple.rs\<close>,
  the alignment step before each column, and \<open>PgRow\<close>, \<open>decode_row\<close> and
  \<open>decode_row_projected\<close> of \<open>src/table/mod.rs\<close>.

  The walks of the program share one interface, the locale \<open>cell_codec\<close>: a reader of one column at
  an offset inverts a writer of one cell.  From it follows that walking a tuple gives back the
  values it was formed from; it is interpreted for the datum reader.
\<close>

section \<open>Columns of a tuple\<close>

datatype column_search_arg = ColumnIndex usize | ColumnName string

text \<open>
  The \<open>unwrap\<close> of an index out of range panics; a name is looked up with its position.
\<close>

definition resolve_column :: "column_search_arg \<Rightarrow> pg_schema \<Rightarrow> (usize \<times> pg_column) pg_result" where
  "resolve_column target s =
     (case target of
        ColumnIndex idx \<Rightarrow> obind (unwrap_opt (column s idx)) (\<lambda>col. Ok (idx, col))
      | ColumnName name \<Rightarrow>
          ok_or (List.find (\<lambda>(_, c). col_name c = name) (enumerate 0 (columns s))) (ColumnNotFound name))"

definition get_column ::
    "heap_tuple_data \<Rightarrow> column_search_arg \<Rightarrow> pg_schema \<Rightarrow> usize \<Rightarrow> (pg_datum \<times> usize) pg_result" where
  "get_column t target s column_offset =
     obind (resolve_column target s) (\<lambda>(column_index, col).
     if is_null t column_index then Err (NullColumnValue column_index)
     else map_err (\<lambda>e. DecodeError (decode_error_to_string e))
            (decode_datum (type_id col) (data t) column_offset))"

definition skip_column :: "heap_tuple_data \<Rightarrow> usize \<Rightarrow> pg_schema \<Rightarrow> usize \<Rightarrow> usize pg_result" where
  "skip_column t col_index s column_offset =
     obind (ok_or (column s col_index) (ColumnNotFound (''index '' @ show_nat col_index))) (\<lambda>col.
     if is_null t col_index then Err (NullColumnValue col_index)
     else map_err (\<lambda>e. DecodeError (decode_error_to_string e))
            (skip_datum (type_len (type_id col)) (data t) column_offset))"

text \<open>
  The alignment step, the same in every walk: a fixed-width column is always aligned; a varlena
  only when the byte at the offset is a pad byte (or is missing).
\<close>

definition align_offset :: "pg_type_id \<Rightarrow> bytes \<Rightarrow> usize \<Rightarrow> usize" where
  "align_offset t buf offset =
     (let align = type_align t in
      if 1 < align then
        (if type_len t = Varlena then
           (case get buf offset of
              Some b \<Rightarrow> if b = 0 then align_expr offset align else offset
            | None \<Rightarrow> align_expr offset align)
         else align_expr offset align)
      else offset)"

section \<open>Rows\<close>

record pg_row =
  row_columns :: "pg_datum list"

definition row_get :: "pg_row \<Rightarrow> usize \<Rightarrow> pg_datum option" where
  "row_get r i = get (row_columns r) i"

definition row_num_columns :: "pg_row \<Rightarrow> usize" where
  "row_num_columns r = length (row_columns r)"

definition row_is_null :: "pg_row \<Rightarrow> usize \<Rightarrow> bool" where
  "row_is_null r i = (case row_get r i of None \<Rightarrow> True | Some d \<Rightarrow> d = D_Null)"

text \<open>The body of the loop over \<open>col_index\<close>, with the offset and the columns pushed so far.\<close>

fun decode_row_loop ::
    "heap_tuple_data \<Rightarrow> pg_schema \<Rightarrow> usize list \<Rightarrow> usize \<Rightarrow> pg_datum list \<Rightarrow> pg_datum list pg_result" where
  "decode_row_loop t s [] offset cols = Ok cols"
| "decode_row_loop t s (col_index # rest) offset cols =
     (if is_null t col_index then decode_row_loop t s rest offset (cols @ [D_Null])
      else
        obind (unwrap_opt (column s col_index)) (\<lambda>col.
        let offset = align_offset (type_id col) (data t) offset in
        case get_column t (ColumnIndex col_index) s offset of
          Ok (datum, n) \<Rightarrow> decode_row_loop t s rest (offset + n) (cols @ [datum])
        | Err e \<Rightarrow>
            (case e of
               NullColumnValue _ \<Rightarrow> decode_row_loop t s rest offset (cols @ [D_Null])
             | _ \<Rightarrow> Err e)
        | Panic \<Rightarrow> Panic))"

definition decode_row :: "heap_tuple_data \<Rightarrow> pg_schema \<Rightarrow> pg_row pg_result" where
  "decode_row t s =
     obind (decode_row_loop t s [0..<num_columns s] 0 []) (\<lambda>cols. Ok \<lparr>row_columns = cols\<rparr>)"

text \<open>\<open>output_pos[col_idx] = Some(out_idx)\<close> for each projected column, in order.\<close>

definition output_positions :: "usize \<Rightarrow> usize list \<Rightarrow> usize option list" where
  "output_positions max_col projection =
     fold (\<lambda>(out_idx, col_idx) pos. pos[col_idx := Some out_idx])
       (enumerate 0 projection) (replicate (max_col + 1) None)"

fun projected_loop ::
    "heap_tuple_data \<Rightarrow> pg_schema \<Rightarrow> usize option list \<Rightarrow> usize list \<Rightarrow> usize \<Rightarrow> pg_datum list \<Rightarrow>
     pg_datum list pg_result" where
  "projected_loop t s output_pos [] offset cols = Ok cols"
| "projected_loop t s output_pos (col_index # rest) offset cols =
     (if is_null t col_index then projected_loop t s output_pos rest offset cols
      else
        obind (unwrap_opt (column s col_index)) (\<lambda>col.
        let offset = align_offset (type_id col) (data t) offset in
        case output_pos ! col_index of
          Some out \<Rightarrow>
            (case get_column t (ColumnIndex col_index) s offset of
               Ok (datum, n) \<Rightarrow> projected_loop t s output_pos rest (offset + n) (cols[out := datum])
             | Err e \<Rightarrow>
                 (case e of
                    NullColumnValue _ \<Rightarrow> projected_loop t s output_pos rest offset cols
                  | _ \<Rightarrow> Err e)
             | Panic \<Rightarrow> Panic)
        | None \<Rightarrow>
            (case skip_column t col_index s offset of
               Ok n \<Rightarrow> projected_loop t s output_pos rest (offset + n) cols
             | Err e \<Rightarrow>
                 (case e of
                    NullColumnValue _ \<Rightarrow> projected_loop t s output_pos rest offset cols
                  | _ \<Rightarrow> Err e)
             | Panic \<Rightarrow> Panic)))"

definition decode_row_projected :: "heap_tuple_data \<Rightarrow> pg_schema \<Rightarrow> usize list \<Rightarrow> pg_row pg_result" where
  "decode_row_projected t s projection =
     (if projection = [] then Ok \<lparr>row_columns = []\<rparr>
      else
        (case List.find (\<lambda>idx. num_columns s \<le> idx) projection of
           Some idx \<Rightarrow>
             Err (ColumnNotFound (''index '' @ show_nat idx @ '' (schema has '' @
               show_nat (num_columns s) @ '' columns)''))
         | None \<Rightarrow>
             let max_col = Max (set projection);
                 output_pos = output_positions max_col projection
             in obind (projected_loop t s output_pos [0..<max_col + 1] 0
                         (replicate (length projection) D_Null)) (\<lambda>cols. Ok \<lparr>row_columns = cols\<rparr>)))"

section \<open>Walking and forming a tuple\<close>

text \<open>
  \<open>walk read buf cs offset\<close> reads the columns \<open>cs\<close> (each with its null flag) one after the other;
  \<open>form_cells cell cs vs offset\<close> is the attribute data that holds the values \<open>vs\<close>.
\<close>

fun walk ::
    "('c \<Rightarrow> bytes \<Rightarrow> usize \<Rightarrow> ('e, 'v \<times> usize) outcome) \<Rightarrow> bytes \<Rightarrow> ('c \<times> bool) list \<Rightarrow> usize \<Rightarrow>
     ('e, 'v option list) outcome" where
  "walk read buf [] offset = Ok []"
| "walk read buf ((c, nul) # cs) offset =
     (if nul then obind (walk read buf cs offset) (\<lambda>vs. Ok (None # vs))
      else obind (read c buf offset) (\<lambda>(v, offset').
           obind (walk read buf cs offset') (\<lambda>vs. Ok (Some v # vs))))"

fun form_cells ::
    "('c \<Rightarrow> 'v \<Rightarrow> usize \<Rightarrow> bytes option) \<Rightarrow> 'c list \<Rightarrow> 'v option list \<Rightarrow> usize \<Rightarrow> bytes option" where
  "form_cells cell [] [] offset = Some []"
| "form_cells cell (c # cs) (None # vs) offset = form_cells cell cs vs offset"
| "form_cells cell (c # cs) (Some v # vs) offset =
     (case cell c v offset of
        None \<Rightarrow> None
      | Some b \<Rightarrow> map_option (\<lambda>bs. b @ bs) (form_cells cell cs vs (offset + length b)))"
| "form_cells cell _ _ offset = None"

locale cell_codec =
  fixes cell :: "'c \<Rightarrow> 'v \<Rightarrow> usize \<Rightarrow> bytes option"
    and read :: "'c \<Rightarrow> bytes \<Rightarrow> usize \<Rightarrow> ('e, 'v \<times> usize) outcome"
  assumes read_cell:
    "cell c v offset = Some b \<Longrightarrow> drop offset buf = b @ rest \<Longrightarrow> offset \<le> length buf \<Longrightarrow>
      read c buf offset = Ok (v, offset + length b)"
begin

text \<open>The cells of the values are read back, and the walk goes on behind them.\<close>

lemma walk_form_append:
  assumes "form_cells cell cs vs offset = Some bs" and "drop offset buf = bs @ rest"
    and "offset \<le> length buf"
  shows "walk read buf (zip cs (map (\<lambda>v. v = None) vs) @ tl_cols) offset =
    obind (walk read buf tl_cols (offset + length bs)) (\<lambda>ws. Ok (vs @ ws))"
  using assms
proof (induction cs arbitrary: vs offset bs)
  case Nil
  then show ?case by (cases vs) auto
next
  case (Cons c cs)
  show ?case
  proof (cases vs)
    case Nil
    then show ?thesis using Cons.prems by simp
  next
    case vs: (Cons v vs')
    show ?thesis
    proof (cases v)
      case None
      then show ?thesis using Cons.prems vs Cons.IH [of vs' offset bs] by (simp add: obind_assoc)
    next
      case (Some x)
      then obtain b bs' where b: "cell c x offset = Some b"
        and bs': "form_cells cell cs vs' (offset + length b) = Some bs'" and bs: "bs = b @ bs'"
        using Cons.prems vs by (auto split: option.splits)
      have "drop offset buf = b @ bs' @ rest" using Cons.prems(2) bs by simp
      moreover from this have "drop (offset + length b) buf = bs' @ rest"
        by (metis add.commute append_eq_conv_conj drop_drop)
      moreover have "offset + length b \<le> length buf"
        using arg_cong [OF calculation(1), of length] Cons.prems(3) by simp
      ultimately show ?thesis
        using vs Some Cons.IH [OF bs'] read_cell [OF b _ Cons.prems(3)]
        by (simp add: bs obind_assoc add.assoc)
    qed
  qed
qed

lemma walk_form:
  assumes "form_cells cell cs vs offset = Some bs" and "drop offset buf = bs @ rest"
    and "offset \<le> length buf"
  shows "walk read buf (zip cs (map (\<lambda>v. v = None) vs)) offset = Ok vs"
  using walk_form_append [OF assms, of "[]"] by simp

end

section \<open>The datum reader\<close>

text \<open>
  One step of the datum walk, and the cell it reads: the pad bytes that bring the stored form to
  its alignment (none before a varlena with a one-byte header), then the stored form.
\<close>

definition read_datum :: "pg_type_id \<Rightarrow> bytes \<Rightarrow> usize \<Rightarrow> (pg_datum \<times> usize) pg_result" where
  "read_datum t buf offset =
     (let offset = align_offset t buf offset in
      obind (map_err (\<lambda>e. DecodeError (decode_error_to_string e)) (decode_datum t buf offset))
        (\<lambda>(d, n). Ok (d, offset + n)))"

definition pad_len :: "pg_type_id \<Rightarrow> bytes \<Rightarrow> usize \<Rightarrow> usize" where
  "pad_len t p offset =
     (if type_len t = Varlena \<and> length p \<le> 126 then 0
      else div_ceil offset (type_align t) * type_align t - offset)"

definition padded_cell :: "pg_type_id \<Rightarrow> bytes \<Rightarrow> usize \<Rightarrow> bytes" where
  "padded_cell t p offset = replicate (pad_len t p offset) 0 @ stored_bytes t p"

definition datum_cell :: "pg_type_id \<Rightarrow> pg_datum \<Rightarrow> usize \<Rightarrow> bytes option" where
  "datum_cell t d offset =
     (case datum_payload t d of
        Some p \<Rightarrow> if length p + 4 < 2 ^ 30 then Some (padded_cell t p offset) else None
      | None \<Rightarrow> None)"

text \<open>The attribute data of a tuple of the schema with the given column values.\<close>

definition row_data :: "pg_schema \<Rightarrow> pg_datum option list \<Rightarrow> bytes option" where
  "row_data s vs = form_cells datum_cell (map type_id (columns s)) vs 0"

definition datum_or_null :: "pg_datum option \<Rightarrow> pg_datum" where
  "datum_or_null v = (case v of Some d \<Rightarrow> d | None \<Rightarrow> D_Null)"

lemma align_up: "align_expr n (type_align t) = div_ceil n (type_align t) * type_align t"
  using type_align_cases [of t] by (auto simp: div_ceil_def)

lemma align_up_ge: "n \<le> div_ceil n (type_align t) * type_align t"
  using type_align_cases [of t] by (auto simp: div_ceil_def)

lemma align_up_idem:
  "div_ceil (div_ceil n (type_align t) * type_align t) (type_align t) * type_align t =
    div_ceil n (type_align t) * type_align t"
  using type_align_cases [of t] by (auto simp: div_ceil_def)

lemma short_varlena_not_pad:
  assumes "length p \<le> 126"
  shows "\<exists>h. varlena_bytes p = h # p \<and> h \<noteq> 0"
proof -
  define h where "h = (word_of_nat (2 * (length p + 1) + 1) :: u8)"
  have "unat h = 2 * (length p + 1) + 1" unfolding h_def by (rule short_header) (rule assms)
  then have "h \<noteq> 0" by auto
  then show ?thesis using assms by (simp add: varlena_bytes_def h_def)
qed

lemma align_offset_cell:
  assumes "drop offset buf = padded_cell t p offset @ rest" and "offset \<le> length buf"
  shows "align_offset t buf offset = offset + pad_len t p offset"
proof (cases "type_len t = Varlena \<and> length p \<le> 126")
  case True
  then obtain h where "stored_bytes t p = h # p" "h \<noteq> 0"
    using short_varlena_not_pad by (auto simp: stored_bytes_def)
  then have "get buf offset = Some h"
    using assms True
    by (simp add: padded_cell_def pad_len_def get_def) (metis drop_all hd_drop_conv_nth linorder_not_le list.distinct(1) list.sel(1))
  then show ?thesis using True \<open>h \<noteq> 0\<close> by (simp add: align_offset_def pad_len_def Let_def)
next
  case False
  have pad: "offset + pad_len t p offset = align_expr offset (type_align t)"
    using False align_up_ge [of offset t] by (auto simp: pad_len_def align_up)
  show ?thesis
  proof (cases "pad_len t p offset")
    case 0
    then have "align_expr offset (type_align t) = offset" using pad by simp
    then show ?thesis using 0 by (simp add: align_offset_def Let_def split: option.split)
  next
    case (Suc k)
    then have "get buf offset = Some 0"
      using assms by (simp add: padded_cell_def get_def) (metis drop_all hd_drop_conv_nth linorder_not_le list.distinct(1) list.sel(1))
    moreover have "type_align t \<noteq> 1"
      using Suc False by (auto simp: pad_len_def div_ceil_def)
    then have "1 < type_align t" using type_align_cases [of t] by auto
    ultimately show ?thesis using pad by (simp add: align_offset_def Let_def)
  qed
qed

lemma drop_cell:
  assumes "drop offset buf = padded_cell t p offset @ rest" and "offset \<le> length buf"
  shows "drop (offset + pad_len t p offset) buf = stored_bytes t p @ rest \<and>
    offset + pad_len t p offset \<le> length buf"
proof -
  have "length buf - offset = length (padded_cell t p offset @ rest)"
    using arg_cong [OF assms(1), of length] by simp
  then have "offset + pad_len t p offset \<le> length buf"
    using assms(2) by (simp add: padded_cell_def)
  moreover have "drop (offset + pad_len t p offset) buf = drop (pad_len t p offset) (drop offset buf)"
    by (simp add: add.commute)
  ultimately show ?thesis by (simp add: assms(1) padded_cell_def)
qed

interpretation datum_walk: cell_codec datum_cell read_datum
proof
  fix t d offset b buf rest
  assume c: "datum_cell t d offset = Some b" and d: "drop offset buf = b @ rest"
    and o: "offset \<le> length buf"
  then obtain p where p: "datum_payload t d = Some p" "length p + 4 < 2 ^ 30" "b = padded_cell t p offset"
    by (auto simp: datum_cell_def split: option.splits if_splits)
  show "read_datum t buf offset = Ok (d, offset + length b)"
    using decode_stored [OF p(1) _ p(2)] drop_cell [of offset buf t p rest] align_offset_cell [of offset buf t p rest] d o
    by (simp add: read_datum_def p(3) padded_cell_def)
qed

lemma read_datum_eq_Ok:
  "(read_datum t buf offset = Ok (d, o')) =
    (\<exists>n. decode_datum t buf (align_offset t buf offset) = Ok (d, n) \<and> o' = align_offset t buf offset + n)"
  by (auto simp: read_datum_def Let_def outcome_simps)

section \<open>The loops as walks\<close>

lemma get_column_index:
  assumes "column s i = Some col" and "\<not> is_null t i"
  shows "get_column t (ColumnIndex i) s offset =
    map_err (\<lambda>e. DecodeError (decode_error_to_string e)) (decode_datum (type_id col) (data t) offset)"
  using assms by (simp add: get_column_def resolve_column_def)

text \<open>The columns of a schema from position \<open>i\<close> on, with the null flags of a tuple.\<close>

definition walk_cols :: "heap_tuple_data \<Rightarrow> pg_schema \<Rightarrow> usize list \<Rightarrow> (pg_type_id \<times> bool) list" where
  "walk_cols t s is = map (\<lambda>i. (type_id (columns s ! i), is_null t i)) is"

lemma decode_row_loop_walk:
  assumes "\<forall>i \<in> set is. i < num_columns s"
  shows "decode_row_loop t s is offset cols =
    obind (walk read_datum (data t) (walk_cols t s is) offset) (\<lambda>vs. Ok (cols @ map datum_or_null vs))"
  using assms
proof (induction "is" arbitrary: offset cols)
  case (Cons i "is")
  show ?case
  proof (cases "is_null t i")
    case True
    then show ?thesis using Cons by (simp add: walk_cols_def obind_assoc datum_or_null_def)
  next
    case False
    have col: "column s i = Some (columns s ! i)" using Cons.prems by (simp add: column_def num_columns_def)
    let ?o = "align_offset (type_id (columns s ! i)) (data t) offset"
    show ?thesis
      using False Cons
      by (cases "decode_datum (type_id (columns s ! i)) (data t) ?o")
        (auto simp: walk_cols_def obind_assoc datum_or_null_def col get_column_index [OF col] read_datum_def Let_def)
  qed
qed (simp add: walk_cols_def)

lemma decode_row_walk:
  "decode_row t s =
    obind (walk read_datum (data t) (walk_cols t s [0..<num_columns s]) 0)
      (\<lambda>vs. Ok \<lparr>row_columns = map datum_or_null vs\<rparr>)"
  by (simp add: decode_row_def decode_row_loop_walk obind_assoc)

lemma walk_length: "walk read buf cs offset = Ok vs \<Longrightarrow> length vs = length cs"
  by (induction cs arbitrary: offset vs) (auto simp: outcome_simps split: if_splits prod.splits)

lemma walk_prefix:
  "walk read buf (cs1 @ cs2) offset = Ok vs \<Longrightarrow> walk read buf cs1 offset = Ok (take (length cs1) vs)"
proof (induction cs1 arbitrary: offset vs)
  case (Cons c cs1)
  obtain t nul where c: "c = (t, nul)" by (cases c)
  show ?case
    using Cons.prems c Cons.IH by (cases nul) (auto simp: outcome_simps)
qed simp

lemma walk_null:
  "walk read buf cs offset = Ok vs \<Longrightarrow> i < length cs \<Longrightarrow> (vs ! i = None) = snd (cs ! i)"
proof (induction cs arbitrary: offset vs i)
  case (Cons c cs)
  obtain t nul where c: "c = (t, nul)" by (cases c)
  show ?case
  proof (cases i)
    case 0
    then show ?thesis using Cons.prems c by (auto simp: outcome_simps split: if_splits prod.splits)
  next
    case (Suc j)
    then show ?thesis
      using Cons.prems c Cons.IH [of _ _ j] by (auto simp: outcome_simps split: if_splits prod.splits)
  qed
qed simp

lemma walk_Panic:
  "walk read buf cs offset = Panic \<Longrightarrow> \<exists>(c, nul) \<in> set cs. \<not> nul \<and> (\<exists>o'. read c buf o' = Panic)"
proof (induction cs arbitrary: offset)
  case (Cons c cs)
  obtain t nul where c: "c = (t, nul)" by (cases c)
  show ?case
  proof (cases nul)
    case True
    then have "walk read buf cs offset = Panic" using Cons.prems c by (simp add: outcome_simps)
    then show ?thesis using Cons.IH by fastforce
  next
    case False
    show ?thesis
    proof (cases "read t buf offset")
      case (Ok r)
      then have "walk read buf cs (snd r) = Panic"
        using Cons.prems c False by (cases r) (simp add: outcome_simps)
      then show ?thesis using Cons.IH by fastforce
    qed (use Cons.prems c False in auto)
  qed
qed simp

lemma walk_values:
  "walk read buf cs offset = Ok vs \<Longrightarrow> Some v \<in> set vs \<Longrightarrow> \<exists>c o' o''. read c buf o' = Ok (v, o'')"
proof (induction cs arbitrary: offset vs)
  case (Cons c cs)
  obtain t nul where c: "c = (t, nul)" by (cases c)
  show ?case
  proof (cases nul)
    case True
    then obtain vs' where "walk read buf cs offset = Ok vs'" "vs = None # vs'"
      using Cons.prems(1) c by (auto simp: outcome_simps)
    then show ?thesis using Cons.IH Cons.prems(2) by simp
  next
    case False
    then obtain x o' vs' where "read t buf offset = Ok (x, o')" "walk read buf cs o' = Ok vs'" "vs = Some x # vs'"
      using Cons.prems(1) c by (auto simp: outcome_simps)
    then show ?thesis using Cons.IH [of o' vs'] Cons.prems(2) by auto
  qed
qed simp

lemma decode_datum_not_null: "decode_datum t buf offset \<noteq> Ok (D_Null, n)"
proof
  assume "decode_datum t buf offset = Ok (D_Null, n)"
  then obtain p where p: "extract_column_bytes (type_len t) buf offset = Ok (p, n)"
    "decode_payload t p = Ok D_Null" by (auto simp: decode_datum_via_extract)
  show False
  proof (cases "t = T_Bool \<or> t = T_Name")
    case True
    then show False using p(2) by (auto simp: payload_simps outcome_simps Let_def split: if_splits)
  next
    case False
    then show False
      using decode_payload_iff [of t p D_Null] extract_payload_fits [OF p(1)] p(2) by simp
  qed
qed

lemma read_datum_not_null: "read_datum t buf offset \<noteq> Ok (D_Null, n)"
  using decode_datum_not_null by (auto simp: read_datum_def Let_def outcome_simps)

section \<open>Projection\<close>

lemma output_positions_snoc:
  "output_positions m (proj @ [c]) = (output_positions m proj)[c := Some (length proj)]"
  by (simp add: output_positions_def enumerate_append_eq)

lemma output_positions_length [simp]: "length (output_positions m proj) = m + 1"
  by (induction proj rule: rev_induct) (simp_all add: output_positions_snoc, simp add: output_positions_def)

text \<open>The output position of a column is its last occurrence in the projection.\<close>

lemma output_positions_nth:
  assumes "\<forall>c \<in> set proj. c \<le> m" and "i \<le> m"
  shows "(output_positions m proj ! i = Some k) =
    (k < length proj \<and> proj ! k = i \<and> i \<notin> set (drop (Suc k) proj))"
  using assms
proof (induction proj rule: rev_induct)
  case Nil
  then show ?case by (cases i) (simp_all add: output_positions_def)
next
  case (snoc c proj)
  have len: "i < length (output_positions m proj)" using snoc.prems by simp
  show ?case
  proof (cases "c = i")
    case True
    then show ?thesis
      using len snoc.prems by (auto simp: output_positions_snoc nth_append less_Suc_eq)
  next
    case False
    then show ?thesis
      using snoc by (auto simp: output_positions_snoc nth_append less_Suc_eq)
  qed
qed

text \<open>What the projected loop does with the values the full walk finds.\<close>

fun fill_outputs :: "usize option list \<Rightarrow> (usize \<times> pg_datum option) list \<Rightarrow> pg_datum list \<Rightarrow> pg_datum list" where
  "fill_outputs pos [] cols = cols"
| "fill_outputs pos ((i, v) # ivs) cols =
     fill_outputs pos ivs (case (v, pos ! i) of (Some d, Some k) \<Rightarrow> cols[k := d] | _ \<Rightarrow> cols)"

lemma projected_loop_fill:
  assumes "walk read_datum (data t) (walk_cols t s is) offset = Ok vs"
    and "\<forall>i \<in> set is. i < num_columns s"
  shows "projected_loop t s pos is offset cols = Ok (fill_outputs pos (zip is vs) cols)"
  using assms
proof (induction "is" arbitrary: offset cols vs)
  case (Cons i "is")
  have col: "column s i = Some (columns s ! i)" using Cons.prems by (simp add: column_def num_columns_def)
  let ?ty = "type_id (columns s ! i)" and ?o = "align_offset (type_id (columns s ! i)) (data t) offset"
  show ?case
  proof (cases "is_null t i")
    case True
    then show ?thesis using Cons by (auto simp: walk_cols_def outcome_simps)
  next
    case False
    then obtain d n vs' where d: "decode_datum ?ty (data t) ?o = Ok (d, n)"
      and vs': "walk read_datum (data t) (walk_cols t s is) (?o + n) = Ok vs'" "vs = Some d # vs'"
      using Cons.prems(1) by (auto simp: walk_cols_def outcome_simps read_datum_eq_Ok)
    then have "skip_datum (type_len ?ty) (data t) ?o = Ok n"
      using decode_datum_via_extract extract_iff_skip by blast
    then have "skip_column t i s ?o = Ok n"
      using False by (simp add: skip_column_def col)
    moreover have "get_column t (ColumnIndex i) s ?o = Ok (d, n)"
      using False d by (simp add: get_column_index [OF col])
    ultimately show ?thesis
      using False Cons.IH [OF vs'(1)] Cons.prems(2) vs'(2) by (simp add: col Let_def split: option.split)
  qed
qed (simp add: walk_cols_def)

lemma fill_outputs_length [simp]: "length (fill_outputs pos ivs cols) = length cols"
  by (induction pos ivs cols rule: fill_outputs.induct) (auto split: option.splits)

lemma fill_outputs_other:
  "\<forall>(i, v) \<in> set ivs. pos ! i \<noteq> Some k \<Longrightarrow> fill_outputs pos ivs cols ! k = cols ! k"
  by (induction pos ivs cols rule: fill_outputs.induct) (auto split: option.splits)

lemma fill_outputs_at:
  assumes "distinct (map fst ivs)" and "(i, v) \<in> set ivs" and "pos ! i = Some k"
    and "\<And>j. j \<in> set (map fst ivs) \<Longrightarrow> pos ! j = Some k \<Longrightarrow> j = i" and "k < length cols" and "cols ! k = D_Null"
  shows "fill_outputs pos ivs cols ! k = datum_or_null v"
  using assms
proof (induction ivs arbitrary: cols)
  case (Cons iv ivs)
  obtain j w where iv: "iv = (j, w)" by (cases iv)
  let ?cols = "case (w, pos ! j) of (Some d, Some k) \<Rightarrow> cols[k := d] | _ \<Rightarrow> cols"
  show ?case
  proof (cases "j = i")
    case True
    then have v: "w = v" using Cons.prems(1,2) iv by (auto simp: rev_image_eqI)
    have "pos ! i' \<noteq> Some k" if "(i', v') \<in> set ivs" for i' v'
      using Cons.prems(1) Cons.prems(4) [of i'] that iv True by (force simp: rev_image_eqI)
    then have "fill_outputs pos ivs ?cols ! k = ?cols ! k"
      by (intro fill_outputs_other) auto
    moreover have "?cols ! k = datum_or_null v"
      using Cons.prems(3,5,6) True v by (simp add: datum_or_null_def split: option.split)
    ultimately show ?thesis by (simp add: iv)
  next
    case False
    then have "pos ! j \<noteq> Some k" using Cons.prems(4) [of j] iv by auto
    then have "length ?cols = length cols" "?cols ! k = cols ! k"
      by (auto split: option.split)
    then show ?thesis
      using Cons.IH [of ?cols] Cons.prems iv False by auto
  qed
qed simp

lemma projected_via_row:
  assumes row: "decode_row t s = Ok r" and proj: "\<forall>i \<in> set proj. i < num_columns s"
  shows "\<exists>r'. decode_row_projected t s proj = Ok r' \<and> length (row_columns r') = length proj \<and>
    (\<forall>k < length proj. row_columns r' ! k =
      (if proj ! k \<in> set (drop (Suc k) proj) then D_Null else row_columns r ! (proj ! k)))"
proof (cases "proj = []")
  case True
  then show ?thesis by (simp add: decode_row_projected_def)
next
  case False
  define m where "m = Max (set proj)"
  have le_m: "\<forall>c \<in> set proj. c \<le> m" using False by (simp add: m_def)
  have "m \<in> set proj" using False by (simp add: m_def)
  then have m: "m < num_columns s" using proj by simp
  let ?pos = "output_positions m proj" and ?is = "[0..<m + 1]" and ?cols = "replicate (length proj) D_Null"
  obtain vs where vs: "walk read_datum (data t) (walk_cols t s [0..<num_columns s]) 0 = Ok vs"
    and r: "row_columns r = map datum_or_null vs"
    using row by (auto simp: decode_row_walk outcome_simps)
  have split: "[0..<num_columns s] = ?is @ [m + 1..<num_columns s]"
    using m upt_add_eq_append [of 0 "m + 1" "num_columns s - (m + 1)"] by simp
  obtain vs1 where vs1: "walk read_datum (data t) (walk_cols t s ?is) 0 = Ok vs1" "vs1 = take (m + 1) vs"
    using walk_prefix [of read_datum "data t" "walk_cols t s ?is" "walk_cols t s [m + 1..<num_columns s]" 0 vs]
      vs unfolding split by (auto simp: walk_cols_def)
  have len: "length vs1 = m + 1" using walk_length [OF vs1(1)] by (simp add: walk_cols_def)
  let ?out = "fill_outputs ?pos (zip ?is vs1) ?cols"
  have "projected_loop t s ?pos ?is 0 ?cols = Ok ?out"
    using m by (intro projected_loop_fill [OF vs1(1)]) auto
  moreover have "List.find (\<lambda>idx. num_columns s \<le> idx) proj = None"
    using proj by (auto simp: find_None_iff)
  ultimately have "decode_row_projected t s proj = Ok \<lparr>row_columns = ?out\<rparr>"
    using False by (simp add: decode_row_projected_def Let_def flip: m_def)
  moreover have "?out ! k = (if proj ! k \<in> set (drop (Suc k) proj) then D_Null else row_columns r ! (proj ! k))"
    if k: "k < length proj" for k
  proof (cases "proj ! k \<in> set (drop (Suc k) proj)")
    case True
    have "?pos ! i \<noteq> Some k" if "i \<le> m" for i
      using output_positions_nth [OF le_m that, of k] True by auto
    then have "?out ! k = ?cols ! k"
      by (intro fill_outputs_other) (auto simp: set_zip simp del: upt_Suc)
    then show ?thesis using True k by simp
  next
    case last: False
    let ?i = "proj ! k"
    have i: "?i \<le> m" using le_m k by simp
    have "?pos ! ?i = Some k" using output_positions_nth [OF le_m i, of k] last k by simp
    moreover have "(?i, vs1 ! ?i) \<in> set (zip ?is vs1)"
      using i len by (auto simp: set_zip simp del: upt_Suc intro!: exI [of _ ?i])
    moreover have "j = ?i" if "j \<in> set (map fst (zip ?is vs1))" "?pos ! j = Some k" for j
      using output_positions_nth [OF le_m, of j k] that len by (auto simp del: upt_Suc)
    ultimately have "?out ! k = datum_or_null (vs1 ! ?i)"
      using k len by (intro fill_outputs_at) (auto simp del: upt_Suc)
    also have "\<dots> = row_columns r ! ?i"
      using i m vs1(2) walk_length [OF vs] by (simp add: r walk_cols_def)
    finally show ?thesis using last by simp
  qed
  ultimately show ?thesis by (intro exI [of _ "\<lparr>row_columns = ?out\<rparr>"]) simp
qed

text \<open>A schema of three columns and a tuple of it, as the witnesses use them.\<close>

definition sample_schema :: pg_schema where
  "sample_schema = pg_schema_new ''t''
     [pg_column_new ''a'' T_Int2 False (-1), pg_column_new ''b'' T_Text True (-1), pg_column_new ''c'' T_Int4 True (-1)]"

definition sample_tuple :: "bytes \<Rightarrow> bytes \<Rightarrow> heap_tuple_data" where
  "sample_tuple bitmap d =
     \<lparr>header = \<lparr>t_xmin = 1, t_xmax = 0, t_field3 = 0,
        t_ctid = \<lparr>ip_blkid = \<lparr>bi_hi = 0, bi_lo = 0\<rparr>, ip_posid = 1\<rparr>,
        t_infomask2 = 3, t_infomask = (if bitmap = [] then 0 else 1), t_hoff = 24\<rparr>,
      null_bitmap = bitmap, data = d\<rparr>"

lemma sample_row_data:
  "row_data sample_schema [Some (D_Int2 5), None, Some (D_Int4 7)] = Some [5, 0, 0, 0, 7, 0, 0, 0]"
  by (simp add: row_data_def sample_schema_def pg_schema_new_def pg_column_new_def datum_cell_def
      if_type_def padded_cell_def pad_len_def stored_bytes_def div_ceil_def u16_bytes_def u32_bytes_def
      le_bytes_numeral) (simp add: numeral_2_eq_2)

lemma decode_row_formed:
  assumes "row_data s vs = Some bs" and "data t = bs @ rest"
    and "map (is_null t) [0..<num_columns s] = map (\<lambda>v. v = None) vs"
  shows "decode_row t s = Ok \<lparr>row_columns = map datum_or_null vs\<rparr>"
proof -
  have "walk_cols t s [0..<num_columns s] =
      zip (map (\<lambda>i. type_id (columns s ! i)) [0..<num_columns s]) (map (is_null t) [0..<num_columns s])"
    by (simp add: walk_cols_def zip_map_map zip_same_conv_map)
  also have "map (\<lambda>i. type_id (columns s ! i)) [0..<num_columns s] = map type_id (columns s)"
    by (rule nth_equalityI) (simp_all add: num_columns_def)
  finally have "walk read_datum (data t) (walk_cols t s [0..<num_columns s]) 0 = Ok vs"
    using datum_walk.walk_form [of "map type_id (columns s)" vs 0 bs "data t" rest] assms
    by (simp add: row_data_def)
  then show ?thesis by (simp add: decode_row_walk)
qed

lemma sample_decode:
  "decode_row (sample_tuple [5] [5, 0, 0, 0, 7, 0, 0, 0]) sample_schema =
    Ok \<lparr>row_columns = [D_Int2 5, D_Null, D_Int4 7]\<rparr>"
  using decode_row_formed [OF sample_row_data, of "sample_tuple [5] [5, 0, 0, 0, 7, 0, 0, 0]" "[]"]
  by (simp add: sample_tuple_def sample_schema_def pg_schema_new_def num_columns_def is_null_def
      datum_or_null_def upt_rec get_def)

text \<open>Where the columns of a decoded row come from.\<close>

lemma walk_reads:
  "walk read_datum buf cs offset = Ok vs \<Longrightarrow> k < length cs \<Longrightarrow>
    vs ! k = None \<or> (\<exists>d o' n. vs ! k = Some d \<and> decode_datum (fst (cs ! k)) buf o' = Ok (d, n))"
proof (induction cs arbitrary: offset vs k)
  case (Cons c cs)
  obtain t nul where c: "c = (t, nul)" by (cases c)
  show ?case
  proof (cases nul)
    case True
    then obtain vs' where "walk read_datum buf cs offset = Ok vs'" "vs = None # vs'"
      using Cons.prems(1) c by (auto simp: outcome_simps)
    then show ?thesis using Cons.prems(2) Cons.IH by (cases k) auto
  next
    case False
    then obtain d n vs' where "decode_datum t buf (align_offset t buf offset) = Ok (d, n)" "vs = Some d # vs'"
      and "walk read_datum buf cs (align_offset t buf offset + n) = Ok vs'"
      using Cons.prems(1) c by (auto simp: outcome_simps read_datum_eq_Ok)
    then show ?thesis using Cons.prems(2) Cons.IH [of _ vs'] c by (cases k) auto
  qed
qed simp

lemma decode_row_columns:
  assumes "decode_row t s = Ok r" and "i < num_columns s"
  shows "row_columns r ! i = D_Null \<or>
    (\<exists>p. decode_payload (type_id (columns s ! i)) p = Ok (row_columns r ! i) \<and>
       payload_fits (type_len (type_id (columns s ! i))) p)"
proof -
  obtain vs where vs: "walk read_datum (data t) (walk_cols t s [0..<num_columns s]) 0 = Ok vs"
    and r: "row_columns r = map datum_or_null vs"
    using assms(1) by (auto simp: decode_row_walk outcome_simps)
  have len: "length vs = num_columns s" using walk_length [OF vs] by (simp add: walk_cols_def)
  have "fst (walk_cols t s [0..<num_columns s] ! i) = type_id (columns s ! i)"
    using assms(2) by (simp add: walk_cols_def)
  then consider "vs ! i = None" | d o' n where "vs ! i = Some d" "decode_datum (type_id (columns s ! i)) (data t) o' = Ok (d, n)"
    using walk_reads [OF vs, of i] assms(2) by (auto simp: walk_cols_def)
  then show ?thesis
  proof cases
    case 1
    then show ?thesis using r len assms(2) by (simp add: datum_or_null_def)
  next
    case 2
    then obtain p where "extract_column_bytes (type_len (type_id (columns s ! i))) (data t) o' = Ok (p, n)"
      "decode_payload (type_id (columns s ! i)) p = Ok d"
      by (auto simp: decode_datum_via_extract)
    moreover have "row_columns r ! i = d" using r len assms(2) 2 by (simp add: datum_or_null_def)
    ultimately show ?thesis using extract_payload_fits by blast
  qed
qed

section \<open>Properties\<close>

text \<open>
  C2: Decoding inverts forming a tuple.  If the attribute data starts with the stored forms of the
  non-null values in column order, each padded to its alignment (a short varlena unpadded), and
  the null bitmap marks exactly the null columns, then \<open>decode_row\<close> returns the values.
\<close>

theorem decode_row_roundtrip:
  assumes "row_data s vs = Some bs" and "data t = bs @ rest"
    and "map (is_null t) [0..<num_columns s] = map (\<lambda>v. v = None) vs"
  shows "decode_row t s = Ok \<lparr>row_columns = map datum_or_null vs\<rparr>"
  using assms by (rule decode_row_formed)

theorem decode_row_roundtrip_witness:
  "decode_row (sample_tuple [5] [5, 0, 0, 0, 7, 0, 0, 0]) sample_schema =
    Ok \<lparr>row_columns = [D_Int2 5, D_Null, D_Int4 7]\<rparr>"
  using decode_row_roundtrip [OF sample_row_data, of "sample_tuple [5] [5, 0, 0, 0, 7, 0, 0, 0]" "[]"]
  by (simp add: sample_tuple_def sample_schema_def pg_schema_new_def num_columns_def is_null_def
      datum_or_null_def upt_rec get_def)

text \<open>
  A decoded row has one datum per schema column, and it is \<open>Null\<close> exactly at the columns the
  null bitmap marks: no stored value is ever decoded to \<open>Null\<close>, and no null column to a value.
\<close>

theorem decode_row_shape:
  assumes "decode_row t s = Ok r"
  shows "row_num_columns r = num_columns s \<and>
    map (row_is_null r) [0..<num_columns s] = map (is_null t) [0..<num_columns s]"
proof -
  obtain vs where vs: "walk read_datum (data t) (walk_cols t s [0..<num_columns s]) 0 = Ok vs"
    and r: "row_columns r = map datum_or_null vs"
    using assms by (auto simp: decode_row_walk outcome_simps)
  have len: "length vs = num_columns s" using walk_length [OF vs] by (simp add: walk_cols_def)
  have "row_is_null r i = is_null t i" if "i < num_columns s" for i
  proof -
    have "(vs ! i = None) = is_null t i"
      using walk_null [OF vs, of i] that by (simp add: walk_cols_def)
    moreover have "vs ! i \<noteq> Some D_Null"
      using walk_values [OF vs, of D_Null] read_datum_not_null that len by (metis nth_mem)
    ultimately show ?thesis
      using that len by (auto simp: row_is_null_def row_get_def r datum_or_null_def split: option.splits)
  qed
  then show ?thesis using len by (simp add: r row_num_columns_def)
qed

theorem decode_row_shape_witness:
  "map (row_is_null \<lparr>row_columns = [D_Int2 5, D_Null, D_Int4 7]\<rparr>) [0..<num_columns sample_schema] =
    map (is_null (sample_tuple [5] [5, 0, 0, 0, 7, 0, 0, 0])) [0..<num_columns sample_schema]"
  using decode_row_shape [OF sample_decode] by simp

text \<open>
  C7: Whenever a row decodes, its projection on valid indices succeeds too and holds, at every
  output position, the datum of the full row; only when an index is listed more than once do all
  its positions but the last stay \<open>Null\<close>.
\<close>

theorem decode_row_projected_spec:
  assumes "decode_row t s = Ok r" and "\<forall>i \<in> set proj. i < num_columns s"
  shows "\<exists>r'. decode_row_projected t s proj = Ok r' \<and> length (row_columns r') = length proj \<and>
    (\<forall>k < length proj. row_columns r' ! k =
      (if proj ! k \<in> set (drop (Suc k) proj) then D_Null else row_columns r ! (proj ! k)))"
  using assms by (rule projected_via_row)

theorem decode_row_projected_spec_witness:
  "\<exists>r'. decode_row_projected (sample_tuple [5] [5, 0, 0, 0, 7, 0, 0, 0]) sample_schema [2, 0, 2] = Ok r' \<and>
    row_columns r' ! 0 = D_Null \<and> row_columns r' ! 2 = D_Int4 7"
proof -
  let ?p = "[2, 0, 2 :: usize]"
  have "\<forall>i \<in> set ?p. i < num_columns sample_schema"
    by (simp add: sample_schema_def pg_schema_new_def num_columns_def)
  from decode_row_projected_spec [OF sample_decode this] obtain r' where
    r': "decode_row_projected (sample_tuple [5] [5, 0, 0, 0, 7, 0, 0, 0]) sample_schema ?p = Ok r'"
    and nth: "\<And>k. k < length ?p \<Longrightarrow> row_columns r' ! k =
      (if ?p ! k \<in> set (drop (Suc k) ?p) then D_Null
       else row_columns \<lparr>row_columns = [D_Int2 5, D_Null, D_Int4 7]\<rparr> ! (?p ! k))" by blast
  show ?thesis using r' nth [of 0] nth [of 2] by (intro exI [of _ r']) simp
qed

text \<open>
  Decoding a row, malformed or not, does not panic when the schema has no column of type
  \<open>name\<close>.
\<close>

theorem decode_row_no_panic:
  assumes "\<forall>c \<in> set (columns s). type_id c \<noteq> T_Name"
  shows "decode_row t s \<noteq> Panic"
proof
  assume "decode_row t s = Panic"
  then have "walk read_datum (data t) (walk_cols t s [0..<num_columns s]) 0 = Panic"
    by (simp add: decode_row_walk outcome_simps)
  from walk_Panic [OF this] obtain i offset where "i < num_columns s"
    "read_datum (type_id (columns s ! i)) (data t) offset = Panic"
    by (auto simp: walk_cols_def)
  then show False
    using assms decode_datum_panic by (auto simp: read_datum_def Let_def outcome_simps num_columns_def)
qed

theorem decode_row_no_panic_witness: "decode_row (sample_tuple [255] [1, 2]) sample_schema \<noteq> Panic"
  by (rule decode_row_no_panic) (simp add: sample_schema_def pg_schema_new_def pg_column_new_def)

text \<open>
  A dropped column makes the schema built from the catalog miss the tuple layout.  A tuple of
  two \<open>int4\<close> columns keeps both values when the first column is dropped afterwards, but the schema
  then has the second column only, at position 0, and \<open>decode_row\<close> returns the value of the
  dropped column for it.
\<close>

theorem dropped_column_misread:
  "decode_row (sample_tuple [] (u32_bytes x @ u32_bytes y))
     (from_attributes ''t'' [attribute_row 1 True, attribute_row 2 False]) =
    Ok \<lparr>row_columns = [D_Int4 x]\<rparr>"
proof -
  have s: "from_attributes ''t'' [attribute_row 1 True, attribute_row 2 False] =
      pg_schema_new ''t'' [pg_column_from (attribute_row 2 False)]"
    by (simp add: from_attributes_def attribute_row_def user_attribute_def pg_schema_new_def)
  have ty: "type_id (pg_column_from (attribute_row 2 False)) = T_Int4"
    using try_from_oid [of T_Int4] by (simp add: pg_column_from_def attribute_row_def)
  let ?s = "pg_schema_new ''t'' [pg_column_from (attribute_row 2 False)]"
  have "row_data ?s [Some (D_Int4 x)] = Some (u32_bytes x)"
    by (simp add: row_data_def pg_schema_new_def ty datum_cell_def if_type_def padded_cell_def
        pad_len_def stored_bytes_def div_ceil_def)
  then have "walk read_datum (u32_bytes x @ u32_bytes y) [(T_Int4, False)] 0 = Ok [Some (D_Int4 x)]"
    using datum_walk.walk_form [of "[T_Int4]" "[Some (D_Int4 x)]" 0 "u32_bytes x" "u32_bytes x @ u32_bytes y" "u32_bytes y"]
    by (simp add: row_data_def pg_schema_new_def ty)
  then show ?thesis
    by (simp add: s decode_row_walk walk_cols_def num_columns_def pg_schema_new_def ty datum_or_null_def
        sample_tuple_def is_null_def upt_rec)
qed

end
