(* ===== verification/Catalogs.thy ===== *)
theory Catalogs
  imports Rows
begin

text \<open>
  \<open>src/types/pg_type.rs\<close>: the row types of the system catalogs, the compile-time metadata of
  each (the implementations of the trait \<open>PgCatalogRelation\<close>), and \<open>from_row\<close>, which decodes a
  tuple into a row type through \<open>next_datum\<close>.  Each catalog interprets the locale
  \<open>catalog_relation\<close>.  The struct \<open>PgProc\<close> is never built, only its metadata is used.
\<close>

section \<open>Row types\<close>

text \<open>\<open>PgAttribute\<close> is in the theory \<open>Schema\<close>.  An \<open>f32\<close> is its bit pattern.\<close>

record pg_class =
  class_oid :: u32
  relname :: string
  relnamespace :: u32
  reltype :: u32
  reloftype :: u32
  relowner :: u32
  relam :: u32
  relfilenode :: u32
  reltablespace :: u32
  relpages :: i32
  reltuples :: u32
  relallvisible :: i32
  relallfrozen :: i32
  reltoastrelid :: u32
  relhasindex :: bool
  relisshared :: bool
  relpersistence :: u8
  relkind :: u8
  relnatts :: i16
  relchecks :: i16
  relhasrules :: bool
  relhastriggers :: bool
  relhassubclass :: bool
  relrowsecurity :: bool
  relforcerowsecurity :: bool
  relispopulated :: bool
  relreplident :: u8
  relispartition :: bool
  relrewrite :: u32
  relfrozenxid :: u32
  relminmxid :: u32

record pg_type =
  type_oid :: u32
  typname :: string
  typnamespace :: u32
  typowner :: u32
  typlen :: i16
  typbyval :: bool
  typtype :: u8
  typcategory :: u8
  typispreferred :: bool
  typisdefined :: bool
  typdelim :: u8
  typrelid :: u32
  typsubscript :: u32
  typelem :: u32
  typarray :: u32
  typinput :: u32
  typoutput :: u32
  typreceive :: u32
  typsend :: u32
  typmodin :: u32
  typmodout :: u32
  typanalyze :: u32
  typalign :: u8
  typstorage :: u8
  typnotnull :: bool
  typbasetype :: u32
  typtypmod :: i32
  typndims :: i32
  typcollation :: u32

record pg_database =
  db_oid :: u32
  datname :: string

section \<open>Decoding a row\<close>

text \<open>\<open>next_datum\<close> returns the datum and the new value of \<open>*offset\<close>.\<close>

definition next_datum ::
    "heap_tuple_data \<Rightarrow> pg_schema \<Rightarrow> usize \<Rightarrow> usize \<Rightarrow> (pg_datum option \<times> usize) pg_result" where
  "next_datum t s offset col_index =
     (if is_null t col_index then Ok (None, offset)
      else
        obind (unwrap_opt (column s col_index)) (\<lambda>col.
        let offset = align_offset (type_id col) (data t) offset in
        case get_column t (ColumnIndex col_index) s offset of
          Ok (datum, n) \<Rightarrow> Ok (Some datum, offset + n)
        | Err e \<Rightarrow>
            (case e of
               NullColumnValue _ \<Rightarrow> Ok (None, offset)
             | _ \<Rightarrow> Err e)
        | Panic \<Rightarrow> Panic))"

definition as_u32 :: "pg_datum option \<Rightarrow> u32" where
  "as_u32 d = (case d of Some (D_Oid v) \<Rightarrow> v | Some (D_Xid v) \<Rightarrow> v | _ \<Rightarrow> 0)"

definition as_i32 :: "pg_datum option \<Rightarrow> i32" where
  "as_i32 d = (case d of Some (D_Int4 v) \<Rightarrow> v | _ \<Rightarrow> 0)"

definition as_i16 :: "pg_datum option \<Rightarrow> i16" where
  "as_i16 d = (case d of Some (D_Int2 v) \<Rightarrow> v | _ \<Rightarrow> 0)"

definition as_f32 :: "pg_datum option \<Rightarrow> u32" where
  "as_f32 d = (case d of Some (D_Float4 v) \<Rightarrow> v | _ \<Rightarrow> 0)"

definition as_bool :: "pg_datum option \<Rightarrow> bool" where
  "as_bool d = (case d of Some (D_Bool v) \<Rightarrow> v | _ \<Rightarrow> False)"

definition as_u8 :: "pg_datum option \<Rightarrow> u8" where
  "as_u8 d = (case d of Some (D_Char v) \<Rightarrow> v | _ \<Rightarrow> 0)"

definition as_name :: "pg_datum option \<Rightarrow> bytes" where
  "as_name d = (case d of Some (D_Name v) \<Rightarrow> v | _ \<Rightarrow> replicate 64 0)"

definition as_name_str :: "pg_datum option \<Rightarrow> string" where
  "as_name_str d = (case d of Some (D_Text v) \<Rightarrow> v | _ \<Rightarrow> [])"

text \<open>
  The record literal of a \<open>from_row\<close> evaluates \<open>col(0)?\<close>, \<open>col(1)?\<close>, \<dots> in this order, each
  advancing the captured offset, and stops at the first error; the conversions are total.
\<close>

fun read_cols :: "heap_tuple_data \<Rightarrow> pg_schema \<Rightarrow> usize list \<Rightarrow> usize \<Rightarrow> pg_datum option list pg_result" where
  "read_cols t s [] offset = Ok []"
| "read_cols t s (i # is) offset =
     obind (next_datum t s offset i) (\<lambda>(d, offset').
     obind (read_cols t s is offset') (\<lambda>ds. Ok (d # ds)))"

definition pg_class_of :: "pg_datum option list \<Rightarrow> pg_class" where
  "pg_class_of ds =
     \<lparr>class_oid = as_u32 (ds ! 0), relname = as_name_str (ds ! 1),
      relnamespace = as_u32 (ds ! 2), reltype = as_u32 (ds ! 3), reloftype = as_u32 (ds ! 4),
      relowner = as_u32 (ds ! 5), relam = as_u32 (ds ! 6), relfilenode = as_u32 (ds ! 7),
      reltablespace = as_u32 (ds ! 8), relpages = as_i32 (ds ! 9), reltuples = as_f32 (ds ! 10),
      relallvisible = as_i32 (ds ! 11), relallfrozen = as_i32 (ds ! 12),
      reltoastrelid = as_u32 (ds ! 13), relhasindex = as_bool (ds ! 14),
      relisshared = as_bool (ds ! 15), relpersistence = as_u8 (ds ! 16),
      relkind = as_u8 (ds ! 17), relnatts = as_i16 (ds ! 18), relchecks = as_i16 (ds ! 19),
      relhasrules = as_bool (ds ! 20), relhastriggers = as_bool (ds ! 21),
      relhassubclass = as_bool (ds ! 22), relrowsecurity = as_bool (ds ! 23),
      relforcerowsecurity = as_bool (ds ! 24), relispopulated = as_bool (ds ! 25),
      relreplident = as_u8 (ds ! 26), relispartition = as_bool (ds ! 27),
      relrewrite = as_u32 (ds ! 28), relfrozenxid = as_u32 (ds ! 29),
      relminmxid = as_u32 (ds ! 30)\<rparr>"

definition pg_class_from_row :: "heap_tuple_data \<Rightarrow> pg_schema \<Rightarrow> pg_class pg_result" where
  "pg_class_from_row t s = obind (read_cols t s [0..<31] 0) (\<lambda>ds. Ok (pg_class_of ds))"

definition pg_type_of :: "pg_datum option list \<Rightarrow> pg_type" where
  "pg_type_of ds =
     \<lparr>type_oid = as_u32 (ds ! 0), typname = as_name_str (ds ! 1), typnamespace = as_u32 (ds ! 2),
      typowner = as_u32 (ds ! 3), typlen = as_i16 (ds ! 4), typbyval = as_bool (ds ! 5),
      typtype = as_u8 (ds ! 6), typcategory = as_u8 (ds ! 7), typispreferred = as_bool (ds ! 8),
      typisdefined = as_bool (ds ! 9), typdelim = as_u8 (ds ! 10), typrelid = as_u32 (ds ! 11),
      typsubscript = as_u32 (ds ! 12), typelem = as_u32 (ds ! 13), typarray = as_u32 (ds ! 14),
      typinput = as_u32 (ds ! 15), typoutput = as_u32 (ds ! 16), typreceive = as_u32 (ds ! 17),
      typsend = as_u32 (ds ! 18), typmodin = as_u32 (ds ! 19), typmodout = as_u32 (ds ! 20),
      typanalyze = as_u32 (ds ! 21), typalign = as_u8 (ds ! 22), typstorage = as_u8 (ds ! 23),
      typnotnull = as_bool (ds ! 24), typbasetype = as_u32 (ds ! 25),
      typtypmod = as_i32 (ds ! 26), typndims = as_i32 (ds ! 27), typcollation = as_u32 (ds ! 28)\<rparr>"

definition pg_type_from_row :: "heap_tuple_data \<Rightarrow> pg_schema \<Rightarrow> pg_type pg_result" where
  "pg_type_from_row t s = obind (read_cols t s [0..<29] 0) (\<lambda>ds. Ok (pg_type_of ds))"

definition pg_attribute_of :: "pg_datum option list \<Rightarrow> pg_attribute" where
  "pg_attribute_of ds =
     \<lparr>attrelid = as_u32 (ds ! 0), attname = as_name_str (ds ! 1), atttypid = as_u32 (ds ! 2),
      attlen = as_i16 (ds ! 3), attnum = as_i16 (ds ! 4), atttypmod = as_i32 (ds ! 5),
      attndims = as_i16 (ds ! 6), attbyval = as_bool (ds ! 7), attalign = as_u8 (ds ! 8),
      attstorage = as_u8 (ds ! 9), attcompression = as_u8 (ds ! 10),
      attnotnull = as_bool (ds ! 11), atthasdef = as_bool (ds ! 12),
      atthasmissing = as_bool (ds ! 13), attidentity = as_u8 (ds ! 14),
      attgenerated = as_u8 (ds ! 15), attisdropped = as_bool (ds ! 16),
      attislocal = as_bool (ds ! 17), attinhcount = as_i16 (ds ! 18),
      attcollation = as_u32 (ds ! 19)\<rparr>"

definition pg_attribute_from_row :: "heap_tuple_data \<Rightarrow> pg_schema \<Rightarrow> pg_attribute pg_result" where
  "pg_attribute_from_row t s = obind (read_cols t s [0..<20] 0) (\<lambda>ds. Ok (pg_attribute_of ds))"

definition pg_database_of :: "pg_datum option list \<Rightarrow> pg_database" where
  "pg_database_of ds =
     \<lparr>db_oid = as_u32 (ds ! 0), datname = as_name_str (ds ! 1)\<rparr>"

definition pg_database_from_row :: "heap_tuple_data \<Rightarrow> pg_schema \<Rightarrow> pg_database pg_result" where
  "pg_database_from_row t s = obind (read_cols t s [0..<2] 0) (\<lambda>ds. Ok (pg_database_of ds))"

text \<open>\<open>PgProc\<close>, which nothing builds: there is no \<open>from_row\<close> for it.  The name is an array of 64 bytes.\<close>

record pg_proc =
  proc_oid :: u32
  proname :: bytes
  pronamespace :: u32
  proowner :: u32
  prolang :: u32
  procost :: u32
  prorows :: u32
  provariadic :: u32
  prosupport :: u32
  prokind :: u8
  prosecdef :: bool
  proleakproof :: bool
  proisstrict :: bool
  proretset :: bool
  provolatile :: u8
  proparallel :: u8
  pronargs :: i16
  pronargdefaults :: i16
  prorettype :: u32

section \<open>Catalog metadata\<close>

text \<open>\<open>PgClass\<close>\<close>

definition PG_CLASS_RELATION_OID :: u32 where
  "PG_CLASS_RELATION_OID = 1259"

definition PG_CLASS_NUM_FIXED_ATTRS :: usize where
  "PG_CLASS_NUM_FIXED_ATTRS = 31"

definition PG_CLASS_ATTR_TYPES :: "pg_type_id list" where
  "PG_CLASS_ATTR_TYPES =
     [T_Oid, T_Name, T_Oid, T_Oid, T_Oid, T_Oid, T_Oid, T_Oid, T_Oid, T_Int4, T_Float4, T_Int4,
      T_Int4, T_Oid, T_Bool, T_Bool, T_Char, T_Char, T_Int2, T_Int2, T_Bool, T_Bool, T_Bool,
      T_Bool, T_Bool, T_Bool, T_Char, T_Bool, T_Oid, T_Xid, T_Xid]"

definition PG_CLASS_ATTR_NAMES :: "string list" where
  "PG_CLASS_ATTR_NAMES =
     [''oid'', ''relname'', ''relnamespace'', ''reltype'', ''reloftype'', ''relowner'',
      ''relam'', ''relfilenode'', ''reltablespace'', ''relpages'', ''reltuples'',
      ''relallvisible'', ''relallfrozen'', ''reltoastrelid'', ''relhasindex'', ''relisshared'',
      ''relpersistence'', ''relkind'', ''relnatts'', ''relchecks'', ''relhasrules'',
      ''relhastriggers'', ''relhassubclass'', ''relrowsecurity'', ''relforcerowsecurity'',
      ''relispopulated'', ''relreplident'', ''relispartition'', ''relrewrite'', ''relfrozenxid'',
      ''relminmxid'']"

definition pg_class_catalog_schema :: pg_schema where
  "pg_class_catalog_schema = catalog_schema ''pg_class'' PG_CLASS_ATTR_TYPES PG_CLASS_ATTR_NAMES"

text \<open>The constants \<open>PgClass::ANUM_*\<close>, by the attribute that each names.\<close>

definition PG_CLASS_ANUMS :: "(string \<times> usize) list" where
  "PG_CLASS_ANUMS =
     [(''oid'', 0), (''relname'', 1), (''relnamespace'', 2), (''reltype'', 3),
      (''reloftype'', 4), (''relowner'', 5), (''relam'', 6), (''relfilenode'', 7),
      (''reltablespace'', 8), (''relpages'', 9), (''reltuples'', 10),
      (''relallvisible'', 11), (''relallfrozen'', 12), (''reltoastrelid'', 13),
      (''relhasindex'', 14), (''relisshared'', 15), (''relpersistence'', 16),
      (''relkind'', 17), (''relnatts'', 18), (''relchecks'', 19), (''relhasrules'',
      20), (''relhastriggers'', 21), (''relhassubclass'', 22), (''relrowsecurity'', 23),
      (''relforcerowsecurity'', 24), (''relispopulated'', 25), (''relreplident'', 26),
      (''relispartition'', 27), (''relrewrite'', 28), (''relfrozenxid'', 29),
      (''relminmxid'', 30)]"

text \<open>\<open>PgType\<close>\<close>

definition PG_TYPE_RELATION_OID :: u32 where
  "PG_TYPE_RELATION_OID = 1247"

definition PG_TYPE_NUM_FIXED_ATTRS :: usize where
  "PG_TYPE_NUM_FIXED_ATTRS = 29"

definition PG_TYPE_ATTR_TYPES :: "pg_type_id list" where
  "PG_TYPE_ATTR_TYPES =
     [T_Oid, T_Name, T_Oid, T_Oid, T_Int2, T_Bool, T_Char, T_Char, T_Bool, T_Bool, T_Char, T_Oid,
      T_Oid, T_Oid, T_Oid, T_Oid, T_Oid, T_Oid, T_Oid, T_Oid, T_Oid, T_Oid, T_Char, T_Char,
      T_Bool, T_Oid, T_Int4, T_Int4, T_Oid]"

definition PG_TYPE_ATTR_NAMES :: "string list" where
  "PG_TYPE_ATTR_NAMES =
     [''oid'', ''typname'', ''typnamespace'', ''typowner'', ''typlen'', ''typbyval'',
      ''typtype'', ''typcategory'', ''typispreferred'', ''typisdefined'', ''typdelim'',
      ''typrelid'', ''typsubscript'', ''typelem'', ''typarray'', ''typinput'', ''typoutput'',
      ''typreceive'', ''typsend'', ''typmodin'', ''typmodout'', ''typanalyze'', ''typalign'',
      ''typstorage'', ''typnotnull'', ''typbasetype'', ''typtypmod'', ''typndims'',
      ''typcollation'']"

definition pg_type_catalog_schema :: pg_schema where
  "pg_type_catalog_schema = catalog_schema ''pg_type'' PG_TYPE_ATTR_TYPES PG_TYPE_ATTR_NAMES"

text \<open>\<open>PgAttribute\<close>\<close>

definition PG_ATTRIBUTE_RELATION_OID :: u32 where
  "PG_ATTRIBUTE_RELATION_OID = 1249"

definition PG_ATTRIBUTE_NUM_FIXED_ATTRS :: usize where
  "PG_ATTRIBUTE_NUM_FIXED_ATTRS = 20"

definition PG_ATTRIBUTE_ATTR_TYPES :: "pg_type_id list" where
  "PG_ATTRIBUTE_ATTR_TYPES =
     [T_Oid, T_Name, T_Oid, T_Int2, T_Int2, T_Int4, T_Int2, T_Bool, T_Char, T_Char, T_Char,
      T_Bool, T_Bool, T_Bool, T_Char, T_Char, T_Bool, T_Bool, T_Int2, T_Oid]"

definition PG_ATTRIBUTE_ATTR_NAMES :: "string list" where
  "PG_ATTRIBUTE_ATTR_NAMES =
     [''attrelid'', ''attname'', ''atttypid'', ''attlen'', ''attnum'', ''atttypmod'',
      ''attndims'', ''attbyval'', ''attalign'', ''attstorage'', ''attcompression'',
      ''attnotnull'', ''atthasdef'', ''atthasmissing'', ''attidentity'', ''attgenerated'',
      ''attisdropped'', ''attislocal'', ''attinhcount'', ''attcollation'']"

definition pg_attribute_catalog_schema :: pg_schema where
  "pg_attribute_catalog_schema = catalog_schema ''pg_attribute'' PG_ATTRIBUTE_ATTR_TYPES PG_ATTRIBUTE_ATTR_NAMES"

text \<open>\<open>PgProc\<close>\<close>

definition PG_PROC_RELATION_OID :: u32 where
  "PG_PROC_RELATION_OID = 1255"

definition PG_PROC_NUM_FIXED_ATTRS :: usize where
  "PG_PROC_NUM_FIXED_ATTRS = 20"

definition PG_PROC_ATTR_TYPES :: "pg_type_id list" where
  "PG_PROC_ATTR_TYPES =
     [T_Oid, T_Name, T_Oid, T_Oid, T_Oid, T_Float4, T_Float4, T_Oid, T_Oid, T_Char, T_Bool,
      T_Bool, T_Bool, T_Bool, T_Char, T_Char, T_Int2, T_Int2, T_Oid, T_Oid]"

definition PG_PROC_ATTR_NAMES :: "string list" where
  "PG_PROC_ATTR_NAMES =
     [''oid'', ''proname'', ''pronamespace'', ''proowner'', ''prolang'', ''procost'',
      ''prorows'', ''provariadic'', ''prosupport'', ''prokind'', ''prosecdef'', ''proleakproof'',
      ''proisstrict'', ''proretset'', ''provolatile'', ''proparallel'', ''pronargs'',
      ''pronargdefaults'', ''prorettype'', ''proargtypes'']"

definition pg_proc_catalog_schema :: pg_schema where
  "pg_proc_catalog_schema = catalog_schema ''pg_proc'' PG_PROC_ATTR_TYPES PG_PROC_ATTR_NAMES"

text \<open>\<open>PgDatabase\<close>\<close>

definition PG_DATABASE_RELATION_OID :: u32 where
  "PG_DATABASE_RELATION_OID = 1262"

definition PG_DATABASE_NUM_FIXED_ATTRS :: usize where
  "PG_DATABASE_NUM_FIXED_ATTRS = 2"

definition PG_DATABASE_ATTR_TYPES :: "pg_type_id list" where
  "PG_DATABASE_ATTR_TYPES =
     [T_Oid, T_Name]"

definition PG_DATABASE_ATTR_NAMES :: "string list" where
  "PG_DATABASE_ATTR_NAMES =
     [''oid'', ''datname'']"

definition pg_database_catalog_schema :: pg_schema where
  "pg_database_catalog_schema = catalog_schema ''pg_database'' PG_DATABASE_ATTR_TYPES PG_DATABASE_ATTR_NAMES"

section \<open>The stored rows\<close>

text \<open>The datums a catalog row is stored as, column by column.\<close>

definition pg_class_datums :: "pg_class \<Rightarrow> pg_datum list" where
  "pg_class_datums r =
     [D_Oid (class_oid r), D_Text (relname r), D_Oid (relnamespace r), D_Oid (reltype r),
      D_Oid (reloftype r), D_Oid (relowner r), D_Oid (relam r), D_Oid (relfilenode r),
      D_Oid (reltablespace r), D_Int4 (relpages r), D_Float4 (reltuples r),
      D_Int4 (relallvisible r), D_Int4 (relallfrozen r), D_Oid (reltoastrelid r),
      D_Bool (relhasindex r), D_Bool (relisshared r), D_Char (relpersistence r),
      D_Char (relkind r), D_Int2 (relnatts r), D_Int2 (relchecks r), D_Bool (relhasrules r),
      D_Bool (relhastriggers r), D_Bool (relhassubclass r), D_Bool (relrowsecurity r),
      D_Bool (relforcerowsecurity r), D_Bool (relispopulated r), D_Char (relreplident r),
      D_Bool (relispartition r), D_Oid (relrewrite r), D_Xid (relfrozenxid r),
      D_Xid (relminmxid r)]"

definition pg_type_datums :: "pg_type \<Rightarrow> pg_datum list" where
  "pg_type_datums r =
     [D_Oid (type_oid r), D_Text (typname r), D_Oid (typnamespace r), D_Oid (typowner r),
      D_Int2 (typlen r), D_Bool (typbyval r), D_Char (typtype r), D_Char (typcategory r),
      D_Bool (typispreferred r), D_Bool (typisdefined r), D_Char (typdelim r),
      D_Oid (typrelid r), D_Oid (typsubscript r), D_Oid (typelem r), D_Oid (typarray r),
      D_Oid (typinput r), D_Oid (typoutput r), D_Oid (typreceive r), D_Oid (typsend r),
      D_Oid (typmodin r), D_Oid (typmodout r), D_Oid (typanalyze r), D_Char (typalign r),
      D_Char (typstorage r), D_Bool (typnotnull r), D_Oid (typbasetype r), D_Int4 (typtypmod r),
      D_Int4 (typndims r), D_Oid (typcollation r)]"

definition pg_attribute_datums :: "pg_attribute \<Rightarrow> pg_datum list" where
  "pg_attribute_datums r =
     [D_Oid (attrelid r), D_Text (attname r), D_Oid (atttypid r), D_Int2 (attlen r),
      D_Int2 (attnum r), D_Int4 (atttypmod r), D_Int2 (attndims r), D_Bool (attbyval r),
      D_Char (attalign r), D_Char (attstorage r), D_Char (attcompression r),
      D_Bool (attnotnull r), D_Bool (atthasdef r), D_Bool (atthasmissing r),
      D_Char (attidentity r), D_Char (attgenerated r), D_Bool (attisdropped r),
      D_Bool (attislocal r), D_Int2 (attinhcount r), D_Oid (attcollation r)]"

definition pg_database_datums :: "pg_database \<Rightarrow> pg_datum list" where
  "pg_database_datums r =
     [D_Oid (db_oid r), D_Text (datname r)]"

definition name_ok :: "string \<Rightarrow> bool" where
  "name_ok s \<longleftrightarrow> length s < 64 \<and> utf8_valid (bytes_of_str s) \<and> 0 \<notin> set (bytes_of_str s)"

text \<open>A tuple of a relation with \<open>n\<close> columns, none of them null, whose data starts with \<open>bs\<close>.\<close>

definition full_tuple :: "heap_tuple_data \<Rightarrow> usize \<Rightarrow> bytes \<Rightarrow> bool" where
  "full_tuple t n bs \<longleftrightarrow> take (length bs) (data t) = bs \<and> \<not> list_ex (is_null t) [0..<n]"

section \<open>Lemmas\<close>

lemmas catalog_tables =
  PG_CLASS_ATTR_TYPES_def PG_CLASS_ATTR_NAMES_def PG_CLASS_NUM_FIXED_ATTRS_def
  PG_TYPE_ATTR_TYPES_def PG_TYPE_ATTR_NAMES_def PG_TYPE_NUM_FIXED_ATTRS_def
  PG_ATTRIBUTE_ATTR_TYPES_def PG_ATTRIBUTE_ATTR_NAMES_def PG_ATTRIBUTE_NUM_FIXED_ATTRS_def
  PG_PROC_ATTR_TYPES_def PG_PROC_ATTR_NAMES_def PG_PROC_NUM_FIXED_ATTRS_def
  PG_DATABASE_ATTR_TYPES_def PG_DATABASE_ATTR_NAMES_def PG_DATABASE_NUM_FIXED_ATTRS_def

interpretation class_catalog: catalog_relation PG_CLASS_RELATION_OID PG_CLASS_NUM_FIXED_ATTRS PG_CLASS_ATTR_TYPES
    PG_CLASS_ATTR_NAMES "''pg_class''"
  by unfold_locales (auto simp: catalog_tables)

interpretation type_catalog: catalog_relation PG_TYPE_RELATION_OID PG_TYPE_NUM_FIXED_ATTRS PG_TYPE_ATTR_TYPES
    PG_TYPE_ATTR_NAMES "''pg_type''"
  by unfold_locales (auto simp: catalog_tables)

interpretation attribute_catalog: catalog_relation PG_ATTRIBUTE_RELATION_OID PG_ATTRIBUTE_NUM_FIXED_ATTRS PG_ATTRIBUTE_ATTR_TYPES
    PG_ATTRIBUTE_ATTR_NAMES "''pg_attribute''"
  by unfold_locales (auto simp: catalog_tables)

interpretation proc_catalog: catalog_relation PG_PROC_RELATION_OID PG_PROC_NUM_FIXED_ATTRS PG_PROC_ATTR_TYPES
    PG_PROC_ATTR_NAMES "''pg_proc''"
  by unfold_locales (auto simp: catalog_tables)

interpretation database_catalog: catalog_relation PG_DATABASE_RELATION_OID PG_DATABASE_NUM_FIXED_ATTRS PG_DATABASE_ATTR_TYPES
    PG_DATABASE_ATTR_NAMES "''pg_database''"
  by unfold_locales (auto simp: catalog_tables)

text \<open>
  The constants \<open>ANUM_*\<close> of \<open>PgClass\<close> are the positions of the attributes in the tables of the trait, counted
  from 0 (a comment in the source calls them 1-based): each indexes the datum of its own attribute.
\<close>

lemma class_anums: "PG_CLASS_ANUMS = zip PG_CLASS_ATTR_NAMES [0..<PG_CLASS_NUM_FIXED_ATTRS]"
  by (simp add: PG_CLASS_ANUMS_def catalog_tables upt_rec)

lemma read_cols_walk:
  assumes "\<forall>i \<in> set is. i < num_columns s"
  shows "read_cols t s is offset = walk read_datum (data t) (walk_cols t s is) offset"
  using assms
proof (induction "is" arbitrary: offset)
  case (Cons i "is")
  show ?case
  proof (cases "is_null t i")
    case True
    then show ?thesis using Cons by (simp add: walk_cols_def next_datum_def)
  next
    case False
    have col: "column s i = Some (columns s ! i)" using Cons.prems by (simp add: column_def num_columns_def)
    let ?o = "align_offset (type_id (columns s ! i)) (data t) offset"
    show ?thesis
      using False Cons
      by (cases "decode_datum (type_id (columns s ! i)) (data t) ?o")
        (auto simp: walk_cols_def next_datum_def col get_column_index [OF col] read_datum_def Let_def)
  qed
qed (simp add: walk_cols_def)

lemma read_cols_decode_row:
  assumes "num_columns s = n"
  shows "decode_row t s = obind (read_cols t s [0..<n] 0) (\<lambda>ds. Ok \<lparr>row_columns = map datum_or_null ds\<rparr>)"
  using assms by (simp add: decode_row_walk read_cols_walk)

lemma read_cols_length:
  assumes "num_columns s = n" and "read_cols t s [0..<n] 0 = Ok ds"
  shows "length ds = n"
proof -
  have "walk read_datum (data t) (walk_cols t s [0..<n]) 0 = Ok ds"
    using assms by (simp add: read_cols_walk)
  from walk_length [OF this] show ?thesis by (simp add: walk_cols_def)
qed

text \<open>A missing datum and a \<open>Null\<close> are read the same.\<close>

lemma as_datum_or_null [simp]:
  "as_u32 (Some (datum_or_null d)) = as_u32 d" "as_i32 (Some (datum_or_null d)) = as_i32 d"
  "as_i16 (Some (datum_or_null d)) = as_i16 d" "as_f32 (Some (datum_or_null d)) = as_f32 d"
  "as_bool (Some (datum_or_null d)) = as_bool d" "as_u8 (Some (datum_or_null d)) = as_u8 d"
  "as_name_str (Some (datum_or_null d)) = as_name_str d"
  by (cases d; simp add: datum_or_null_def as_u32_def as_i32_def as_i16_def as_f32_def as_bool_def
      as_u8_def as_name_str_def)+

lemma as_Some [simp]:
  "as_u32 (Some (D_Oid a)) = a" "as_u32 (Some (D_Xid a)) = a" "as_i32 (Some (D_Int4 a)) = a"
  "as_i16 (Some (D_Int2 b)) = b" "as_f32 (Some (D_Float4 a)) = a" "as_bool (Some (D_Bool c)) = c"
  "as_u8 (Some (D_Char d)) = d" "as_name_str (Some (D_Text s)) = s"
  by (simp_all add: as_u32_def as_i32_def as_i16_def as_f32_def as_bool_def as_u8_def as_name_str_def)

text \<open>Storable datums can be laid out at any offset.\<close>

definition storable :: "pg_type_id \<Rightarrow> pg_datum \<Rightarrow> bool" where
  "storable t d = (case datum_payload t d of Some p \<Rightarrow> length p + 4 < 2 ^ 30 | None \<Rightarrow> False)"

lemma form_storable:
  "list_all2 storable ts ds \<Longrightarrow> \<exists>bs. form_cells datum_cell ts (map Some ds) offset = Some bs"
proof (induction arbitrary: offset rule: list_all2_induct)
  case (Cons t ts d ds)
  then obtain b where "datum_cell t d offset = Some b"
    by (auto simp: storable_def datum_cell_def split: option.splits)
  then show ?case using Cons.IH [of "offset + length b"] by auto
qed simp

lemma storable_simps [simp]:
  "storable T_Oid (D_Oid a)" "storable T_Xid (D_Xid a)" "storable T_Int4 (D_Int4 a)"
  "storable T_Int2 (D_Int2 b)" "storable T_Float4 (D_Float4 a)" "storable T_Bool (D_Bool c)"
  "storable T_Char (D_Char d)" "storable T_Name (D_Text s) = name_ok s"
  by (auto simp: storable_def if_type_def name_ok_def)

text \<open>Reading a full tuple of a catalog gives the datums it was formed from.\<close>

lemma read_cols_full:
  assumes "num_columns s = length ds" and "row_data s (map Some ds) = Some bs" and "full_tuple t (length ds) bs"
  shows "read_cols t s [0..<length ds] 0 = Ok (map Some ds)"
proof -
  have nul: "\<not> is_null t i" if "i < length ds" for i
    using assms(3) that by (auto simp: full_tuple_def list_ex_iff)
  have "data t = bs @ drop (length bs) (data t)"
    using assms(3) unfolding full_tuple_def by (metis append_take_drop_id)
  moreover have "walk_cols t s [0..<length ds] =
      zip (map type_id (columns s)) (map (\<lambda>v. v = None) (map Some ds))"
    using assms(1) nul by (intro nth_equalityI) (simp_all add: walk_cols_def num_columns_def)
  moreover have "walk read_datum (data t)
      (zip (map type_id (columns s)) (map (\<lambda>v. v = None) (map Some ds))) 0 = Ok (map Some ds)"
    using assms(2) calculation(1)
    by (intro datum_walk.walk_form [where bs = bs and rest = "drop (length bs) (data t)"])
      (simp_all add: row_data_def)
  moreover have "read_cols t s [0..<length ds] 0 =
      walk read_datum (data t) (walk_cols t s [0..<length ds]) 0"
    using assms(1) by (intro read_cols_walk) simp
  ultimately show ?thesis by (simp only:)
qed

lemma catalog_row_formed:
  assumes "num_columns s = length ds" and "list_all2 storable (map type_id (columns s)) ds"
  shows "\<exists>bs. row_data s (map Some ds) = Some bs \<and>
    (\<forall>t. full_tuple t (length ds) bs \<longrightarrow> read_cols t s [0..<length ds] 0 = Ok (map Some ds))"
  using form_storable [OF assms(2), of 0] read_cols_full [OF assms(1)] by (auto simp: row_data_def)

lemma sample_name_ok: "name_ok ''t1''"
  by (simp add: name_ok_def bytes_of_str_def utf8_valid_Cons utf8_head_def utf8_char_def char_width_def)

lemma full_tuple_sample: "full_tuple (sample_tuple [] bs) n bs"
  by (simp add: full_tuple_def sample_tuple_def is_null_def list_ex_iff)

text \<open>The number of columns of each catalog's schema, and the types of the columns.\<close>

lemma class_columns: "num_columns pg_class_catalog_schema = 31"
  by (simp add: pg_class_catalog_schema_def class_catalog.schema_num_columns PG_CLASS_NUM_FIXED_ATTRS_def)

lemma type_columns: "num_columns pg_type_catalog_schema = 29"
  by (simp add: pg_type_catalog_schema_def type_catalog.schema_num_columns PG_TYPE_NUM_FIXED_ATTRS_def)

lemma attribute_columns: "num_columns pg_attribute_catalog_schema = 20"
  by (simp add: pg_attribute_catalog_schema_def attribute_catalog.schema_num_columns
      PG_ATTRIBUTE_NUM_FIXED_ATTRS_def)

lemma database_columns: "num_columns pg_database_catalog_schema = 2"
  by (simp add: pg_database_catalog_schema_def database_catalog.schema_num_columns
      PG_DATABASE_NUM_FIXED_ATTRS_def)

lemmas catalog_columns = class_columns type_columns attribute_columns database_columns

lemma class_types: "map type_id (columns pg_class_catalog_schema) = PG_CLASS_ATTR_TYPES"
  unfolding pg_class_catalog_schema_def by (rule class_catalog.schema_types)

lemma type_types: "map type_id (columns pg_type_catalog_schema) = PG_TYPE_ATTR_TYPES"
  unfolding pg_type_catalog_schema_def by (rule type_catalog.schema_types)

lemma attribute_types: "map type_id (columns pg_attribute_catalog_schema) = PG_ATTRIBUTE_ATTR_TYPES"
  unfolding pg_attribute_catalog_schema_def by (rule attribute_catalog.schema_types)

lemma database_types: "map type_id (columns pg_database_catalog_schema) = PG_DATABASE_ATTR_TYPES"
  unfolding pg_database_catalog_schema_def by (rule database_catalog.schema_types)

text \<open>
  A conversion \<open>f\<close> of the fetched datums that does not distinguish a missing datum from \<open>Null\<close>
  can be applied to the decoded row.
\<close>

lemma from_row_walk:
  assumes "num_columns s = n"
    and "\<And>ds. length ds = n \<Longrightarrow> f ds = f (map (\<lambda>d. Some (datum_or_null d)) ds)"
  shows "obind (read_cols t s [0..<n] 0) (\<lambda>ds. Ok (f ds)) =
    obind (decode_row t s) (\<lambda>r. Ok (f (map Some (row_columns r))))"
proof (cases "read_cols t s [0..<n] 0")
  case (Ok ds)
  then have "length ds = n" by (rule read_cols_length [OF assms(1)])
  then show ?thesis using Ok assms(2) [of ds] by (simp add: read_cols_decode_row [OF assms(1)] comp_def)
qed (simp_all add: read_cols_decode_row [OF assms(1)])

section \<open>Properties\<close>

text \<open>
  \<open>from_row\<close> and \<open>decode_row\<close>, two copies of the same walk, agree on every tuple of a catalog,
  errors and panics included: a catalog row is the decoded row with its datums converted field by
  field, a null giving the default value.
\<close>

theorem from_row_via_decode_row:
  "pg_class_from_row t pg_class_catalog_schema =
     obind (decode_row t pg_class_catalog_schema) (\<lambda>r. Ok (pg_class_of (map Some (row_columns r)))) \<and>
   pg_type_from_row t pg_type_catalog_schema =
     obind (decode_row t pg_type_catalog_schema) (\<lambda>r. Ok (pg_type_of (map Some (row_columns r)))) \<and>
   pg_attribute_from_row t pg_attribute_catalog_schema =
     obind (decode_row t pg_attribute_catalog_schema) (\<lambda>r. Ok (pg_attribute_of (map Some (row_columns r)))) \<and>
   pg_database_from_row t pg_database_catalog_schema =
     obind (decode_row t pg_database_catalog_schema) (\<lambda>r. Ok (pg_database_of (map Some (row_columns r))))"
  unfolding pg_class_from_row_def pg_type_from_row_def pg_attribute_from_row_def pg_database_from_row_def
  by (intro conjI from_row_walk catalog_columns)
    (simp_all add: pg_class_of_def pg_type_of_def pg_attribute_of_def pg_database_of_def)

lemma pg_class_stored:
  assumes "name_ok (relname r)"
  shows "\<exists>bs. row_data pg_class_catalog_schema (map Some (pg_class_datums r)) = Some bs \<and>
    (\<forall>t. full_tuple t 31 bs \<longrightarrow> pg_class_from_row t pg_class_catalog_schema = Ok r)"
proof -
  have "num_columns pg_class_catalog_schema = length (pg_class_datums r)"
    by (simp add: class_columns pg_class_datums_def)
  moreover have "list_all2 storable (map type_id (columns pg_class_catalog_schema)) (pg_class_datums r)"
    by (simp add: class_types PG_CLASS_ATTR_TYPES_def pg_class_datums_def assms)
  ultimately have "\<exists>bs. row_data pg_class_catalog_schema (map Some (pg_class_datums r)) = Some bs \<and>
    (\<forall>t. full_tuple t (length (pg_class_datums r)) bs \<longrightarrow>
      read_cols t pg_class_catalog_schema [0..<length (pg_class_datums r)] 0 = Ok (map Some (pg_class_datums r)))"
    by (rule catalog_row_formed)
  moreover have "pg_class_of (map Some (pg_class_datums r)) = r" "length (pg_class_datums r) = 31"
    by (simp_all add: pg_class_of_def pg_class_datums_def)
  ultimately show ?thesis by (auto simp: pg_class_from_row_def)
qed

text \<open>
  C21: Reading back a stored \<open>pg_class\<close> row: a row whose name fits (shorter than 64 bytes, valid UTF-8,
  no NUL) can be laid out in the catalog's column types, and \<open>from_row\<close> returns it from every
  tuple whose attribute data starts with that layout, whatever trails it; so each of the 31
  accessors expects the type its column is declared with.
\<close>

theorem pg_class_roundtrip:
  assumes "name_ok (relname r)"
  shows "\<exists>bs. row_data pg_class_catalog_schema (map Some (pg_class_datums r)) = Some bs \<and>
    (\<forall>t. full_tuple t 31 bs \<longrightarrow> pg_class_from_row t pg_class_catalog_schema = Ok r)"
  using assms by (rule pg_class_stored)

theorem pg_class_roundtrip_witness:
  "\<exists>t. pg_class_from_row t pg_class_catalog_schema = Ok ((pg_class_of (replicate 31 None))\<lparr>relname := ''t1''\<rparr>)"
proof -
  have "name_ok (relname ((pg_class_of (replicate 31 None))\<lparr>relname := ''t1''\<rparr>))"
    by (simp add: sample_name_ok)
  from pg_class_roundtrip [OF this] show ?thesis using full_tuple_sample by blast
qed

text \<open>The same for \<open>pg_type\<close>.\<close>

lemma pg_type_roundtrip:
  assumes "name_ok (typname r)"
  shows "\<exists>bs. row_data pg_type_catalog_schema (map Some (pg_type_datums r)) = Some bs \<and>
    (\<forall>t. full_tuple t 29 bs \<longrightarrow> pg_type_from_row t pg_type_catalog_schema = Ok r)"
proof -
  have "num_columns pg_type_catalog_schema = length (pg_type_datums r)"
    by (simp add: type_columns pg_type_datums_def)
  moreover have "list_all2 storable (map type_id (columns pg_type_catalog_schema)) (pg_type_datums r)"
    by (simp add: type_types PG_TYPE_ATTR_TYPES_def pg_type_datums_def assms)
  ultimately have "\<exists>bs. row_data pg_type_catalog_schema (map Some (pg_type_datums r)) = Some bs \<and>
    (\<forall>t. full_tuple t (length (pg_type_datums r)) bs \<longrightarrow>
      read_cols t pg_type_catalog_schema [0..<length (pg_type_datums r)] 0 = Ok (map Some (pg_type_datums r)))"
    by (rule catalog_row_formed)
  moreover have "pg_type_of (map Some (pg_type_datums r)) = r" "length (pg_type_datums r) = 29"
    by (simp_all add: pg_type_of_def pg_type_datums_def)
  ultimately show ?thesis by (auto simp: pg_type_from_row_def)
qed

text \<open>
  Reading back a stored \<open>pg_attribute\<close> row: a row whose name fits (shorter than 64 bytes, valid UTF-8,
  no NUL) can be laid out in the catalog's column types, and \<open>from_row\<close> returns it from every
  tuple whose attribute data starts with that layout, whatever trails it; so each of the 20
  accessors expects the type its column is declared with.
\<close>

theorem pg_attribute_roundtrip:
  assumes "name_ok (attname r)"
  shows "\<exists>bs. row_data pg_attribute_catalog_schema (map Some (pg_attribute_datums r)) = Some bs \<and>
    (\<forall>t. full_tuple t 20 bs \<longrightarrow> pg_attribute_from_row t pg_attribute_catalog_schema = Ok r)"
proof -
  have "num_columns pg_attribute_catalog_schema = length (pg_attribute_datums r)"
    by (simp add: attribute_columns pg_attribute_datums_def)
  moreover have "list_all2 storable (map type_id (columns pg_attribute_catalog_schema)) (pg_attribute_datums r)"
    by (simp add: attribute_types PG_ATTRIBUTE_ATTR_TYPES_def pg_attribute_datums_def assms)
  ultimately have "\<exists>bs. row_data pg_attribute_catalog_schema (map Some (pg_attribute_datums r)) = Some bs \<and>
    (\<forall>t. full_tuple t (length (pg_attribute_datums r)) bs \<longrightarrow>
      read_cols t pg_attribute_catalog_schema [0..<length (pg_attribute_datums r)] 0 = Ok (map Some (pg_attribute_datums r)))"
    by (rule catalog_row_formed)
  moreover have "pg_attribute_of (map Some (pg_attribute_datums r)) = r" "length (pg_attribute_datums r) = 20"
    by (simp_all add: pg_attribute_of_def pg_attribute_datums_def)
  ultimately show ?thesis by (auto simp: pg_attribute_from_row_def)
qed

theorem pg_attribute_roundtrip_witness:
  "\<exists>t. pg_attribute_from_row t pg_attribute_catalog_schema = Ok ((pg_attribute_of (replicate 20 None))\<lparr>attname := ''t1''\<rparr>)"
proof -
  have "name_ok (attname ((pg_attribute_of (replicate 20 None))\<lparr>attname := ''t1''\<rparr>))"
    by (simp add: sample_name_ok)
  from pg_attribute_roundtrip [OF this] show ?thesis using full_tuple_sample by blast
qed

text \<open>The same for \<open>pg_database\<close>.\<close>

lemma pg_database_roundtrip:
  assumes "name_ok (datname r)"
  shows "\<exists>bs. row_data pg_database_catalog_schema (map Some (pg_database_datums r)) = Some bs \<and>
    (\<forall>t. full_tuple t 2 bs \<longrightarrow> pg_database_from_row t pg_database_catalog_schema = Ok r)"
proof -
  have "num_columns pg_database_catalog_schema = length (pg_database_datums r)"
    by (simp add: database_columns pg_database_datums_def)
  moreover have "list_all2 storable (map type_id (columns pg_database_catalog_schema)) (pg_database_datums r)"
    by (simp add: database_types PG_DATABASE_ATTR_TYPES_def pg_database_datums_def assms)
  ultimately have "\<exists>bs. row_data pg_database_catalog_schema (map Some (pg_database_datums r)) = Some bs \<and>
    (\<forall>t. full_tuple t (length (pg_database_datums r)) bs \<longrightarrow>
      read_cols t pg_database_catalog_schema [0..<length (pg_database_datums r)] 0 = Ok (map Some (pg_database_datums r)))"
    by (rule catalog_row_formed)
  moreover have "pg_database_of (map Some (pg_database_datums r)) = r" "length (pg_database_datums r) = 2"
    by (simp_all add: pg_database_of_def pg_database_datums_def)
  ultimately show ?thesis by (auto simp: pg_database_from_row_def)
qed

end
