(* ===== verification/Relmap.thy ===== *)
theory Relmap
  imports Prelude "HOL-Library.Multiset"
begin

text \<open>
  \<open>src/file/relation.rs\<close>: \<open>parse_relmap\<close>, the parser of \<open>pg_filenode.map\<close>.  Its errors are
  strings.  The fields of a \<open>RelMapFile\<close> are those of the source; the \<open>crc\<close> it reports is what
  the code reads, which is not the checksum of the file.
\<close>

section \<open>The parser\<close>

definition RELMAPPER_MAGIC :: u32 where
  "RELMAPPER_MAGIC = 0x00592717"

definition RELMAPPER_FILESIZE :: usize where
  "RELMAPPER_FILESIZE = 512 * 2"

record rel_mapping =
  mapoid :: u32
  mapfilenode :: u32

record rel_map_file =
  num_mappings :: u32
  mappings :: "rel_mapping list"
  crc :: u32

text \<open>\<open>{:08X}\<close>\<close>

definition hex8_upper :: "u32 \<Rightarrow> string" where
  "hex8_upper w = map (\<lambda>i. hex_digit_upper (unat w div 16 ^ i mod 16)) [7, 6, 5, 4, 3, 2, 1, 0]"

definition read_mapping :: "bytes \<Rightarrow> usize \<Rightarrow> (string, rel_mapping) outcome" where
  "read_mapping buf i =
     (let off = 8 + i * 8 in
      obind (read_u32 buf off) (\<lambda>oid.
      obind (read_u32 buf (off + 4)) (\<lambda>filenode.
        Ok \<lparr>mapoid = oid, mapfilenode = filenode\<rparr>)))"

text \<open>
  \<open>last_off\<close> is the end of the last mapping, 0 when there is none; then \<open>last_off - 4\<close> underflows
  and the slice access panics (with overflow checks the subtraction already does).
\<close>

definition parse_relmap :: "bytes \<Rightarrow> (string, rel_map_file) outcome" where
  "parse_relmap buf =
     obind (read_u32 buf 0) (\<lambda>magic.
     if magic \<noteq> RELMAPPER_MAGIC then
       Err (''pg_filenode.map: bad magic 0x'' @ hex8_upper magic @ '', expected 0x'' @ hex8_upper RELMAPPER_MAGIC)
     else
       obind (read_u32 buf 4) (\<lambda>num.
       let n = unat num; max_possible = (RELMAPPER_FILESIZE - 8 - 4) div 8 in
       if max_possible < n then
         Err (''pg_filenode.map: num_mappings '' @ show_nat n @ '' exceeds max '' @ show_nat max_possible)
       else
         obind (omap (read_mapping buf) [0..<n]) (\<lambda>ms.
         let last_off = (if n = 0 then 0 else 8 + (n - 1) * 8 + 8) in
         if last_off < 4 then Panic
         else
           obind (read_u32 buf (last_off - 4)) (\<lambda>c.
             Ok \<lparr>num_mappings = num, mappings = sort_key (\<lambda>m. unat (mapoid m)) ms, crc = c\<rparr>))))"

section \<open>The file layout\<close>

definition mapping_bytes :: "rel_mapping \<Rightarrow> bytes" where
  "mapping_bytes m = u32_bytes (mapoid m) @ u32_bytes (mapfilenode m)"

definition relmap_bytes :: "u32 \<Rightarrow> rel_mapping list \<Rightarrow> bytes" where
  "relmap_bytes num ms = u32_bytes RELMAPPER_MAGIC @ u32_bytes num @ concat (map mapping_bytes ms)"

section \<open>Lemmas\<close>

lemma mapping_bytes_length [simp]: "length (mapping_bytes m) = 8"
  by (simp add: mapping_bytes_def u32.enc_length)

lemma read_u32_at: "drop off buf = u32_bytes x @ rest \<Longrightarrow> read_u32 buf off = Ok x"
  unfolding read_u32_def by (rule u32.read_at)

lemma read_u32_inv: "read_u32 buf off = Ok x \<Longrightarrow> drop off buf = u32_bytes x @ drop (off + 4) buf"
  unfolding read_u32_def by (rule u32.read_at_inv)

lemma read_mapping_at:
  assumes "drop (8 + i * 8) buf = mapping_bytes m @ rest"
  shows "read_mapping buf i = Ok m"
proof -
  have a: "drop (8 + i * 8) buf = u32_bytes (mapoid m) @ u32_bytes (mapfilenode m) @ rest"
    using assms by (simp add: mapping_bytes_def)
  have "drop (8 + i * 8 + 4) buf = drop 4 (drop (8 + i * 8) buf)" by (simp add: add.commute)
  then have "drop (8 + i * 8 + 4) buf = u32_bytes (mapfilenode m) @ rest"
    by (simp add: a u32.enc_length)
  then show ?thesis using a by (simp add: read_mapping_def Let_def read_u32_at)
qed

lemma read_mapping_inv:
  assumes "read_mapping buf i = Ok m"
  shows "drop (8 + i * 8) buf = mapping_bytes m @ drop (8 + Suc i * 8) buf"
proof -
  let ?o = "8 + i * 8"
  have r: "(read_u32 buf ?o :: (string, u32) outcome) = Ok (mapoid m)"
    "(read_u32 buf (?o + 4) :: (string, u32) outcome) = Ok (mapfilenode m)"
    using assms by (auto simp: read_mapping_def Let_def outcome_simps)
  have "?o + 4 + 4 = 8 + Suc i * 8" by simp
  then show ?thesis
    using read_u32_inv [OF r(1)] read_u32_inv [OF r(2)] by (simp only: mapping_bytes_def append_assoc)
qed

text \<open>Reading the mappings from position \<open>i\<close> on succeeds just when they stand there.\<close>

lemma read_mappings_iff:
  "(omap (read_mapping buf) [i..<i + k] = Ok ms) =
    (length ms = k \<and> (\<exists>rest. drop (8 + i * 8) buf = concat (map mapping_bytes ms) @ rest))"
proof (induction k arbitrary: i ms)
  case (Suc k)
  have up: "[i..<i + Suc k] = i # [Suc i..<Suc i + k]" by (simp add: upt_rec)
  have step: "drop (8 + Suc i * 8) buf = drop 8 (drop (8 + i * 8) buf)" by (simp add: add.commute)
  show ?case (is "?l = ?r")
  proof
    assume ?l
    then obtain m ms' where m: "read_mapping buf i = Ok m" and ms: "ms = m # ms'"
      and "omap (read_mapping buf) [Suc i..<Suc i + k] = Ok ms'"
      by (auto simp only: up omap.simps outcome_simps outcome.inject)
    then obtain rest where "length ms' = k" "drop (8 + Suc i * 8) buf = concat (map mapping_bytes ms') @ rest"
      using Suc.IH by blast
    then show ?r using read_mapping_inv [OF m] ms by auto
  next
    assume r: ?r
    then obtain m ms' where ms: "ms = m # ms'" by (cases ms) auto
    obtain rest where rest: "drop (8 + i * 8) buf = mapping_bytes m @ concat (map mapping_bytes ms') @ rest"
      using r ms by auto
    then have "drop (8 + Suc i * 8) buf = concat (map mapping_bytes ms') @ rest"
      by (simp only: step) simp
    then have "omap (read_mapping buf) [Suc i..<Suc i + k] = Ok ms'"
      using r ms Suc.IH [of "Suc i" ms'] by auto
    then show ?l using read_mapping_at [OF rest] by (simp only: up ms omap.simps obind.simps)
  qed
qed auto

lemma read_mappings_panic:
  "(omap (read_mapping buf) [i..<i + k] = Panic) = (0 < k \<and> length buf < 8 + (i + k) * 8)"
proof (induction k arbitrary: i)
  case (Suc k)
  have up: "[i..<i + Suc k] = i # [Suc i..<Suc i + k]" by (simp add: upt_rec)
  have "(read_mapping buf i = Panic) = (length buf < 8 + i * 8 + 8)"
    by (auto simp: read_mapping_def Let_def outcome_simps read_uint_defs read_ne_def index_range_eq)
  moreover have "read_mapping buf i \<noteq> Err e" for e
    by (simp add: read_mapping_def Let_def outcome_simps)
  ultimately show ?case
    using Suc.IH [of "Suc i"]
    by (cases "read_mapping buf i") (auto simp only: up omap.simps outcome_simps, auto)
qed simp

lemma relmap_bytes_drop:
  "drop 4 (relmap_bytes num ms @ rest) = u32_bytes num @ concat (map mapping_bytes ms) @ rest"
  "drop 8 (relmap_bytes num ms @ rest) = concat (map mapping_bytes ms) @ rest"
  by (simp_all add: relmap_bytes_def u32.enc_length)

text \<open>The last word of a non-empty mapping table is the last filenode.\<close>

lemma last_filenode_at:
  assumes "ms \<noteq> []" and "drop 8 buf = concat (map mapping_bytes ms) @ rest"
  shows "drop (8 + (length ms - 1) * 8 + 4) buf = u32_bytes (mapfilenode (last ms)) @ rest"
proof -
  obtain init m where ms: "ms = init @ [m]" using assms(1) by (metis rev_exhaust)
  have "length (concat (map mapping_bytes init)) = length init * 8"
    by (induction init) auto
  then have "drop (length init * 8 + 4) (drop 8 buf) = u32_bytes (mapfilenode m) @ rest"
    by (simp add: assms(2) ms mapping_bytes_def u32.enc_length)
  then show ?thesis by (simp add: ms add.commute)
qed

lemma relmap_bytes_inv:
  assumes "drop 0 buf = u32_bytes RELMAPPER_MAGIC @ drop 4 buf" and "drop 4 buf = u32_bytes num @ drop 8 buf"
    and "drop 8 buf = concat (map mapping_bytes ms) @ rest"
  shows "buf = relmap_bytes num ms @ rest"
  using assms by (simp add: relmap_bytes_def)

lemma parse_relmap_layout:
  assumes "parse_relmap buf = Ok f"
  shows "\<exists>ms rest. 0 < length ms \<and> length ms \<le> 126 \<and>
    buf = relmap_bytes (word_of_nat (length ms)) ms @ rest \<and>
    f = \<lparr>num_mappings = word_of_nat (length ms), mappings = sort_key (\<lambda>m. unat (mapoid m)) ms,
         crc = mapfilenode (last ms)\<rparr>"
proof -
  obtain num ms c where r: "(read_u32 buf 0 :: (string, u32) outcome) = Ok RELMAPPER_MAGIC"
    "(read_u32 buf 4 :: (string, u32) outcome) = Ok num" "unat num \<le> 126" "0 < unat num"
    and ms: "omap (read_mapping buf) [0..<0 + unat num] = Ok ms"
    and c: "(read_u32 buf (8 + (unat num - 1) * 8 + 8 - 4) :: (string, u32) outcome) = Ok c"
    and f: "f = \<lparr>num_mappings = num, mappings = sort_key (\<lambda>m. unat (mapoid m)) ms, crc = c\<rparr>"
    using assms by (auto simp: parse_relmap_def RELMAPPER_FILESIZE_def Let_def outcome_simps not_less split: if_splits)
  obtain rest where rest: "drop 8 buf = concat (map mapping_bytes ms) @ rest" and len: "length ms = unat num"
    using ms unfolding read_mappings_iff by auto
  have ne: "ms \<noteq> []" using len r(4) by auto
  have num: "num = word_of_nat (length ms)" by (simp add: len)
  have "8 + (unat num - 1) * 8 + 8 - 4 = 8 + (length ms - 1) * 8 + 4" using len by simp
  moreover have "(read_u32 buf (8 + (length ms - 1) * 8 + 4) :: (string, u32) outcome) = Ok (mapfilenode (last ms))"
    by (rule read_u32_at [OF last_filenode_at [OF ne rest]])
  ultimately have "c = mapfilenode (last ms)" using c by simp
  moreover have "buf = relmap_bytes num ms @ rest"
    by (rule relmap_bytes_inv [OF _ _ rest]) (use read_u32_inv [OF r(1)] read_u32_inv [OF r(2)] in simp_all)
  ultimately show ?thesis
    using len r(3,4) f unfolding num [symmetric] by (intro exI [of _ ms] exI [of _ rest]) auto
qed

lemma parse_relmap_of_layout:
  assumes len: "0 < length ms" "length ms \<le> 126" and buf: "buf = relmap_bytes (word_of_nat (length ms)) ms @ rest"
  shows "parse_relmap buf =
    Ok \<lparr>num_mappings = word_of_nat (length ms), mappings = sort_key (\<lambda>m. unat (mapoid m)) ms,
        crc = mapfilenode (last ms)\<rparr>"
proof -
  have u: "unat (word_of_nat (length ms) :: u32) = length ms"
    using len by (simp add: unsigned_of_nat take_bit_nat_eq_self)
  have "drop 0 buf = u32_bytes RELMAPPER_MAGIC @ drop 4 buf"
    by (simp add: buf relmap_bytes_def u32.enc_length)
  then have "(read_u32 buf 0 :: (string, u32) outcome) = Ok RELMAPPER_MAGIC" by (rule read_u32_at)
  moreover have "(read_u32 buf 4 :: (string, u32) outcome) = Ok (word_of_nat (length ms))"
    by (rule read_u32_at) (simp only: buf relmap_bytes_drop)
  moreover have tab: "drop 8 buf = concat (map mapping_bytes ms) @ rest" by (simp only: buf relmap_bytes_drop)
  then have "omap (read_mapping buf) [0..<length ms] = Ok ms"
    using read_mappings_iff [of buf 0 "length ms" ms] by auto
  moreover have "8 + (length ms - 1) * 8 + 8 - 4 = 8 + (length ms - 1) * 8 + 4" by simp
  then have "(read_u32 buf (8 + (length ms - 1) * 8 + 8 - 4) :: (string, u32) outcome) = Ok (mapfilenode (last ms))"
    using read_u32_at [OF last_filenode_at [OF _ tab]] len by (simp del: diff_mult_distrib)
  ultimately show ?thesis
    using len by (simp add: parse_relmap_def RELMAPPER_FILESIZE_def Let_def u)
qed

section \<open>Properties\<close>

text \<open>
  C38: \<open>parse_relmap\<close> succeeds exactly on a buffer that starts with the magic number, the number of
  mappings (between 1 and 126) and that many mappings; it returns them sorted by relation OID.  The
  \<open>crc\<close> of the result is the filenode of the last mapping in file order: the code reads the last
  four bytes of the mapping table instead of the checksum field.
\<close>

theorem parse_relmap_iff_layout:
  "(parse_relmap buf = Ok f) =
    (\<exists>ms rest. 0 < length ms \<and> length ms \<le> 126 \<and>
      buf = relmap_bytes (word_of_nat (length ms)) ms @ rest \<and>
      f = \<lparr>num_mappings = word_of_nat (length ms), mappings = sort_key (\<lambda>m. unat (mapoid m)) ms,
           crc = mapfilenode (last ms)\<rparr>)"
  using parse_relmap_layout [of buf f] parse_relmap_of_layout [of _ buf] by blast

text \<open>
  Every input on which \<open>parse_relmap\<close> panics: a buffer too short for the magic number, or, after
  a correct magic number, one too short for the count, a count of zero, or a count of at most 126
  whose table does not fit the buffer.  A 512-byte buffer, the documented size, admits 63 mappings,
  so counts from 64 to 126 panic on it instead of being rejected.
\<close>

theorem parse_relmap_panics_iff:
  "(parse_relmap buf = Panic) =
    (length buf < 4 \<or>
     take 4 buf = u32_bytes RELMAPPER_MAGIC \<and>
      (length buf < 8 \<or>
       (let n = le_val (take 4 (drop 4 buf)) in n = 0 \<or> n \<le> 126 \<and> length buf < 8 + 8 * n)))"
proof (cases "length buf < 8")
  case True
  have "(read_u32 buf 0 :: (string, u32) outcome) = Ok RELMAPPER_MAGIC \<longleftrightarrow>
      take 4 buf = u32_bytes RELMAPPER_MAGIC" if "4 \<le> length buf"
    using that u32.dec_enc [of RELMAPPER_MAGIC] u32.enc_dec [of "take 4 buf"]
    by (auto simp: read_u32_def read_ne_Ok)
  moreover have "(read_u32 buf 4 :: (string, u32) outcome) = Panic"
    using True by (simp add: read_uint_eq)
  ultimately show ?thesis
    using True by (cases "length buf < 4") (auto simp: parse_relmap_def outcome_simps Let_def)
next
  case False
  define n where "n = le_val (take 4 (drop 4 buf))"
  have magic: "(read_u32 buf 0 :: (string, u32) outcome) = Ok (word_of_nat (le_val (take 4 buf)))"
    and num: "(read_u32 buf 4 :: (string, u32) outcome) = Ok (word_of_nat n)"
    using False by (simp_all add: read_u32_def read_ne_Ok n_def)
  have "n < 2 ^ 32"
    using le_val_bound [of "take 4 (drop 4 buf)"] False by (simp add: n_def)
  then have u: "unat (word_of_nat n :: u32) = n"
    by (simp add: unsigned_of_nat take_bit_nat_eq_self)
  have m: "(word_of_nat (le_val (take 4 buf)) = RELMAPPER_MAGIC) = (take 4 buf = u32_bytes RELMAPPER_MAGIC)"
    using False u32.dec_enc [of RELMAPPER_MAGIC] u32.enc_dec [of "take 4 buf"] by auto
  have p: "(omap (read_mapping buf) [0..<n] = Panic) = (0 < n \<and> length buf < 8 + n * 8)"
    using read_mappings_panic [of buf 0 n] by simp
  have "(parse_relmap buf = Panic) =
      (take 4 buf = u32_bytes RELMAPPER_MAGIC \<and> (n = 0 \<or> n \<le> 126 \<and> length buf < 8 + 8 * n))"
    using m p by (auto simp: parse_relmap_def magic num u RELMAPPER_FILESIZE_def Let_def outcome_simps)
  then show ?thesis using False by (simp add: Let_def flip: n_def)
qed

end
