(* ===== verification/Snapshot.thy ===== *)
theory Snapshot
  imports Prelude
begin

text \<open>
  \<open>src/heap/snapshot.rs\<close>: the MVCC snapshot, its parser and the visibility test on \<open>xmin\<close>; with
  the string routines of the standard library the parser calls (\<open>split\<close>, \<open>splitn\<close>, \<open>trim\<close>,
  \<open>str::parse::<u32>\<close>).
\<close>

section \<open>String routines\<close>

text \<open>\<open>s.split(c)\<close> and \<open>s.splitn(n, c)\<close>.\<close>

fun split_char :: "char \<Rightarrow> string \<Rightarrow> string list" where
  "split_char c [] = [[]]"
| "split_char c (x # xs) =
     (if x = c then [] # split_char c xs
      else (case split_char c xs of
              [] \<Rightarrow> [[x]]
            | p # ps \<Rightarrow> (x # p) # ps))"

fun splitn_char :: "nat \<Rightarrow> char \<Rightarrow> string \<Rightarrow> string list" where
  "splitn_char 0 c s = []"
| "splitn_char (Suc 0) c s = [s]"
| "splitn_char (Suc (Suc n)) c s =
     (if c \<in> set s
      then takeWhile (\<lambda>x. x \<noteq> c) s # splitn_char (Suc n) c (tl (dropWhile (\<lambda>x. x \<noteq> c) s))
      else [s])"

text \<open>
  The UTF-8 forms of the characters with the property \<open>White_Space\<close>, which \<open>trim\<close> removes from
  both ends.
\<close>

definition WHITE_SPACE :: "string list" where
  "WHITE_SPACE =
     map (\<lambda>n. [char_of n]) [9, 10, 11, 12, 13, 32 :: nat] @
     map (map char_of)
       ([[0xC2, 0x85], [0xC2, 0xA0], [0xE1, 0x9A, 0x80], [0xE2, 0x80, 0xA8], [0xE2, 0x80, 0xA9],
         [0xE2, 0x80, 0xAF], [0xE2, 0x81, 0x9F], [0xE3, 0x80, 0x80]] @
        map (\<lambda>n. [0xE2, 0x80, n]) [0x80..<0x8B :: nat])"

function strip_front :: "string list \<Rightarrow> string \<Rightarrow> string" where
  "strip_front ws s =
     (case List.find (\<lambda>w. w \<noteq> [] \<and> take (length w) s = w) ws of
        Some w \<Rightarrow> strip_front ws (drop (length w) s)
      | None \<Rightarrow> s)"
  by pat_completeness auto

termination
proof (relation "measure (\<lambda>(ws, s). length s)")
  fix ws s w
  assume "List.find (\<lambda>w. w \<noteq> [] \<and> take (length w) s = w) ws = Some w"
  then have "w \<noteq> []" "take (length w) s = w" by (auto simp: find_Some_iff)
  then have "s \<noteq> []" by auto
  then show "((ws, drop (length w) s), ws, s) \<in> measure (\<lambda>(ws, s). length s)"
    using \<open>w \<noteq> []\<close> by simp
qed simp

declare strip_front.simps [simp del]

definition trim :: "string \<Rightarrow> string" where
  "trim s = rev (strip_front (map rev WHITE_SPACE) (rev (strip_front WHITE_SPACE s)))"

text \<open>\<open>str::parse::<u32>\<close>: an optional \<open>+\<close>, at least one digit, no overflow.\<close>

definition is_digit :: "char \<Rightarrow> bool" where
  "is_digit c \<longleftrightarrow> 48 \<le> (of_char c :: nat) \<and> (of_char c :: nat) \<le> 57"

definition digits_value :: "string \<Rightarrow> nat" where
  "digits_value = foldl (\<lambda>a c. 10 * a + (of_char c - 48)) 0"

definition parse_u32 :: "string \<Rightarrow> u32 option" where
  "parse_u32 s =
     (let digits = (case s of [] \<Rightarrow> [] | c # cs \<Rightarrow> if c = CHR ''+'' then cs else s) in
      if digits = [] \<or> \<not> list_all is_digit digits then None
      else if digits_value digits < 2 ^ 32 then Some (word_of_nat (digits_value digits))
      else None)"

section \<open>Snapshots\<close>

record pg_snapshot =
  snap_xmin :: u32
  snap_xmax :: u32
  snap_xip :: "u32 list"

definition FROZEN_XID :: u32 where
  "FROZEN_XID = 2"

definition snapshot_parse :: "string \<Rightarrow> pg_snapshot option" where
  "snapshot_parse s =
     (let parts = splitn_char 3 (CHR '':'') s in
      if length parts < 2 then None
      else
        (case parse_u32 (trim (parts ! 0)) of
           None \<Rightarrow> None
         | Some xmin \<Rightarrow>
             (case parse_u32 (trim (parts ! 1)) of
                None \<Rightarrow> None
              | Some xmax \<Rightarrow>
                  let xip = (if length parts = 3 \<and> trim (parts ! 2) \<noteq> []
                             then List.map_filter (\<lambda>x. parse_u32 (trim x)) (split_char (CHR '','') (parts ! 2))
                             else [])
                  in Some \<lparr>snap_xmin = xmin, snap_xmax = xmax, snap_xip = xip\<rparr>)))"

definition xmin_visible :: "pg_snapshot \<Rightarrow> u32 \<Rightarrow> bool" where
  "xmin_visible s t_xmin =
     (if t_xmin \<le> FROZEN_XID then True
      else if t_xmin < snap_xmin s then True
      else if snap_xmax s \<le> t_xmin then False
      else t_xmin \<notin> set (snap_xip s))"

section \<open>The text form\<close>

text \<open>What \<open>txid_current_snapshot()\<close> prints.\<close>

fun join_char :: "char \<Rightarrow> string list \<Rightarrow> string" where
  "join_char c [] = []"
| "join_char c [s] = s"
| "join_char c (s # ss) = s @ c # join_char c ss"

definition snapshot_text :: "nat \<Rightarrow> nat \<Rightarrow> nat list \<Rightarrow> string" where
  "snapshot_text xmin xmax xip =
     show_nat xmin @ CHR '':'' # show_nat xmax @ CHR '':'' # join_char (CHR '','') (map show_nat xip)"

section \<open>Lemmas\<close>

lemma show_nat_digits: "show_nat n \<noteq> [] \<and> list_all is_digit (show_nat n) \<and> digits_value (show_nat n) = n"
proof (induction n rule: show_nat.induct)
  case (1 n)
  have d: "is_digit (char_of (48 + m))" "of_char (char_of (48 + m) :: char) - 48 = m" if "m < 10" for m :: nat
    using that by (simp_all add: is_digit_def)
  show ?case
  proof (cases "n < 10")
    case True
    then show ?thesis using d [of n] by (subst (1 2 3) show_nat.simps) (simp add: digits_value_def)
  next
    case False
    then show ?thesis
      using 1 d [of "n mod 10"] by (subst (1 2 3) show_nat.simps) (simp add: digits_value_def)
  qed
qed

lemma strip_front_id: "\<forall>w \<in> set ws. w \<noteq> [] \<longrightarrow> hd w \<noteq> c \<Longrightarrow> strip_front ws (c # s) = c # s"
proof -
  assume ws: "\<forall>w \<in> set ws. w \<noteq> [] \<longrightarrow> hd w \<noteq> c"
  have "List.find (\<lambda>w. w \<noteq> [] \<and> take (length w) (c # s) = w) ws = None"
    unfolding find_None_iff
  proof
    assume "\<exists>w. w \<in> set ws \<and> w \<noteq> [] \<and> take (length w) (c # s) = w"
    then obtain x w where w: "x # w \<in> set ws" "take (length (x # w)) (c # s) = x # w"
      by (metis list.exhaust)
    then have "c = x" by simp
    then show False using ws w(1) by fastforce
  qed
  then show ?thesis by (simp add: strip_front.simps)
qed

lemma strip_front_Nil: "strip_front ws [] = []"
proof -
  have "List.find (\<lambda>w. w \<noteq> [] \<and> take (length w) [] = w) ws = None"
    by (auto simp: find_None_iff)
  then show ?thesis by (simp add: strip_front.simps)
qed

text \<open>White space neither starts nor ends with a digit.\<close>

lemma white_space_ends:
  "w \<in> set WHITE_SPACE \<Longrightarrow> is_digit c \<Longrightarrow> w \<noteq> [] \<and> hd w \<noteq> c \<and> last w \<noteq> c"
  by (auto simp: WHITE_SPACE_def is_digit_def)

lemma trim_digits:
  assumes "s \<noteq> []" and "list_all is_digit s"
  shows "trim s = s"
proof -
  have "strip_front WHITE_SPACE s = s"
    using assms white_space_ends by (cases s) (auto intro!: strip_front_id)
  moreover have "strip_front (map rev WHITE_SPACE) (rev s) = rev s"
  proof -
    obtain c cs where cs: "rev s = c # cs" using assms(1) by (cases "rev s") auto
    then have "is_digit c" using assms(2) by (metis list.set_intros(1) list_all_iff set_rev)
    then have "\<forall>w \<in> set (map rev WHITE_SPACE). w \<noteq> [] \<longrightarrow> hd w \<noteq> c"
      using white_space_ends by (auto simp: hd_rev)
    then show ?thesis by (simp add: cs strip_front_id)
  qed
  ultimately show ?thesis by (simp add: trim_def)
qed

lemma trim_Nil [simp]: "trim [] = []"
  by (simp add: trim_def strip_front_Nil)

lemma parse_show: "parse_u32 (show_nat n) = (if n < 2 ^ 32 then Some (word_of_nat n) else None)"
proof -
  obtain c cs where s: "show_nat n = c # cs" using show_nat_digits [of n] by (cases "show_nat n") auto
  then have "is_digit c" using show_nat_digits [of n] by simp
  then have "c \<noteq> CHR ''+''" by (auto simp: is_digit_def)
  then show ?thesis
    using show_nat_digits [of n] by (simp add: parse_u32_def s Let_def)
qed

lemma trim_show: "trim (show_nat n) = show_nat n"
  using show_nat_digits [of n] by (simp add: trim_digits)

lemma show_no_sep: "\<not> is_digit c \<Longrightarrow> c \<notin> set (show_nat n)"
  using show_nat_digits [of n] by (auto simp: list_all_iff)

lemma splitn_append:
  "c \<notin> set a \<Longrightarrow> splitn_char (Suc (Suc n)) c (a @ c # b) = a # splitn_char (Suc n) c b"
proof -
  assume a: "c \<notin> set a"
  then have "dropWhile (\<lambda>x. x \<noteq> c) a = []" "takeWhile (\<lambda>x. x \<noteq> c) a = a" by auto
  then show ?thesis using a by (simp add: takeWhile_append dropWhile_append)
qed

lemma split_no_sep: "c \<notin> set a \<Longrightarrow> split_char c a = [a]"
  by (induction a) auto

lemma split_append: "c \<notin> set a \<Longrightarrow> split_char c (a @ c # b) = a # split_char c b"
  by (induction a) auto

lemma split_join:
  "ss \<noteq> [] \<Longrightarrow> \<forall>s \<in> set ss. c \<notin> set s \<Longrightarrow> split_char c (join_char c ss) = ss"
  by (induction c ss rule: join_char.induct) (auto simp: split_no_sep split_append)

lemma colon_comma_no_digit: "\<not> is_digit (CHR '':'')" "\<not> is_digit (CHR '','')"
  by (simp_all add: is_digit_def)

lemma snapshot_parts:
  "splitn_char 3 (CHR '':'') (snapshot_text a b xs) =
    [show_nat a, show_nat b, join_char (CHR '','') (map show_nat xs)]"
proof -
  have "splitn_char (Suc (Suc n)) (CHR '':'') (show_nat m @ CHR '':'' # r) =
      show_nat m # splitn_char (Suc n) (CHR '':'') r" for n m r
    by (rule splitn_append [OF show_no_sep [OF colon_comma_no_digit(1)]])
  then show ?thesis by (simp only: snapshot_text_def numeral_3_eq_3 splitn_char.simps(2))
qed

lemma split_xip:
  "xs \<noteq> [] \<Longrightarrow> split_char (CHR '','') (join_char (CHR '','') (map show_nat xs)) = map show_nat xs"
  by (rule split_join) (auto simp: show_no_sep colon_comma_no_digit)

lemma strip_front_prefix: "\<exists>p. s = p @ strip_front ws s"
proof (induction ws s rule: strip_front.induct)
  case (1 ws s)
  show ?case
  proof (cases "List.find (\<lambda>w. w \<noteq> [] \<and> take (length w) s = w) ws")
    case None
    then have "strip_front ws s = s" by (subst strip_front.simps) simp
    then show ?thesis by simp
  next
    case (Some w)
    then have "strip_front ws s = strip_front ws (drop (length w) s)" by (subst strip_front.simps) simp
    then show ?thesis using 1 [OF Some] by (metis append.assoc append_take_drop_id)
  qed
qed

text \<open>A text that starts and ends with a digit is not blank.\<close>

lemma trim_digit_front: "is_digit c \<Longrightarrow> list_all is_digit [last (c # s)] \<Longrightarrow> trim (c # s) = c # s"
proof -
  assume c: "is_digit c" "list_all is_digit [last (c # s)]"
  have "strip_front WHITE_SPACE (c # s) = c # s"
    using white_space_ends c(1) by (auto intro!: strip_front_id)
  moreover have "rev (c # s) = last (c # s) # tl (rev (c # s))"
    by (metis hd_rev list.collapse list.discI rev_is_Nil_conv)
  then have "strip_front (map rev WHITE_SPACE) (rev (c # s)) = rev (c # s)"
    using white_space_ends c(2) strip_front_id [of "map rev WHITE_SPACE" "last (c # s)" "tl (rev (c # s))"]
    by (auto simp: hd_rev)
  ultimately show ?thesis by (simp only: trim_def rev_rev_ident)
qed

lemma join_show_ends:
  "xs \<noteq> [] \<Longrightarrow> \<exists>c s. join_char (CHR '','') (map show_nat xs) = c # s \<and> is_digit c \<and> is_digit (last (c # s))"
proof (induction xs)
  case (Cons x xs)
  obtain d ds where d: "show_nat x = d # ds" "is_digit d" "is_digit (last (d # ds))"
    using show_nat_digits [of x] by (cases "show_nat x") (auto simp: list_all_iff)
  show ?case
  proof (cases xs)
    case Nil
    then show ?thesis using d by simp
  next
    case (Cons y ys)
    then obtain c s where "join_char (CHR '','') (map show_nat xs) = c # s" "is_digit (last (c # s))"
      using Cons.IH by blast
    moreover have "join_char (CHR '','') (map show_nat (x # xs)) =
        show_nat x @ CHR '','' # join_char (CHR '','') (map show_nat xs)"
      using Cons by simp
    ultimately show ?thesis using d by simp
  qed
qed simp

section \<open>Properties\<close>

text \<open>
  C39: \<open>PgSnapshot::parse\<close> inverts the text form \<open>xmin:xmax:xip_list\<close>: it returns the snapshot whose
  text it is given, for every list of in-progress transactions, the empty one included.
\<close>

theorem snapshot_parse_text:
  "snapshot_parse (snapshot_text (unat (snap_xmin s)) (unat (snap_xmax s)) (map unat (snap_xip s))) = Some s"
proof -
  have u: "parse_u32 (show_nat (unat w)) = Some w" for w :: u32
    by (simp add: parse_show)
  have xip: "List.map_filter (\<lambda>x. parse_u32 (trim x)) (map show_nat (map unat ws)) = ws" for ws :: "u32 list"
    by (induction ws) (simp_all add: List.map_filter_def trim_show u)
  show ?thesis
  proof (cases "snap_xip s = []")
    case True
    then show ?thesis by (simp add: snapshot_parse_def snapshot_parts trim_show u)
  next
    case False
    then have "map unat (snap_xip s) \<noteq> []" by simp
    from join_show_ends [OF this] have "trim (join_char (CHR '','') (map show_nat (map unat (snap_xip s)))) \<noteq> []"
      using trim_digit_front by fastforce
    then show ?thesis
      using False split_xip [of "map unat (snap_xip s)"] xip [of "snap_xip s"]
      by (simp add: snapshot_parse_def snapshot_parts trim_show u)
  qed
qed

text \<open>
  The transaction identifiers of \<open>txid_current_snapshot()\<close>, which the documentation names as the
  source of the text, are 64 bits wide; once the horizon has passed \<open>2 ^ 32\<close> the snapshot is
  rejected as a whole.
\<close>

theorem snapshot_parse_wide_xmax:
  assumes "2 ^ 32 \<le> xmax"
  shows "snapshot_parse (snapshot_text xmin xmax xip) = None"
  using assms by (simp add: snapshot_parse_def snapshot_parts trim_show parse_show split: option.split)

theorem snapshot_parse_wide_xmax_witness:
  "snapshot_parse (snapshot_text 7 4294967296 [8]) = None"
  by (rule snapshot_parse_wide_xmax) simp

end
