(* ===== verification/Numerics.thy ===== *)
theory Numerics
  imports Prelude
begin

text \<open>
  \<open>src/types/arrow.rs\<close>: the decoder of the on-disk NUMERIC payload, \<open>parse_numeric_header\<close>,
  \<open>decode_pg_numeric_i128\<close> and \<open>decode_pg_numeric_i256\<close>.  An \<open>i128\<close> is an \<open>int\<close> whose operations
  check the range (overflow is \<open>Panic\<close>, as under overflow checks) or saturate; an \<open>i256\<close> of the
  Arrow library is a 256-bit word with its wrapping operations.  \<open>decimal_bytes\<close> is the reference
  encoding, in the short and the long form.
\<close>

section \<open>Machine arithmetic\<close>

definition i128_min :: int where "i128_min = - (2 ^ 127)"
definition i128_max :: int where "i128_max = 2 ^ 127 - 1"

definition i128 :: "int \<Rightarrow> ('e, int) outcome" where
  "i128 v = (if i128_min \<le> v \<and> v \<le> i128_max then Ok v else Panic)"

definition i128_saturating_mul :: "int \<Rightarrow> int \<Rightarrow> int" where
  "i128_saturating_mul a b = max i128_min (min i128_max (a * b))"

text \<open>\<open>10_i128.pow(n)\<close>\<close>

definition i128_pow10 :: "nat \<Rightarrow> ('e, int) outcome" where
  "i128_pow10 n = i128 (10 ^ n)"

text \<open>Integer division truncates towards zero.\<close>

definition tdiv :: "int \<Rightarrow> int \<Rightarrow> int" where
  "tdiv a b = sgn a * sgn b * (\<bar>a\<bar> div \<bar>b\<bar>)"

type_synonym i256 = "256 word"

definition i256_wrapping_div :: "i256 \<Rightarrow> i256 \<Rightarrow> i256" where
  "i256_wrapping_div a b = word_of_int (tdiv (sint a) (sint b))"

section \<open>The header\<close>

definition NBASE :: int where "NBASE = 10000"
definition NUMERIC_SHORT_FLAG :: u16 where "NUMERIC_SHORT_FLAG = 0x8000"
definition NUMERIC_SPECIAL_FLAG :: u16 where "NUMERIC_SPECIAL_FLAG = 0xC000"
definition NUMERIC_SIGN_MASK :: u16 where "NUMERIC_SIGN_MASK = 0xC000"
definition NUMERIC_SHORT_SIGN_MASK :: u16 where "NUMERIC_SHORT_SIGN_MASK = 0x2000"
definition NUMERIC_SHORT_DSCALE_MASK :: u16 where "NUMERIC_SHORT_DSCALE_MASK = 0x1F80"
definition NUMERIC_SHORT_DSCALE_SHIFT :: nat where "NUMERIC_SHORT_DSCALE_SHIFT = 7"
definition NUMERIC_SHORT_WEIGHT_SIGN_MASK :: u16 where "NUMERIC_SHORT_WEIGHT_SIGN_MASK = 0x0040"
definition NUMERIC_SHORT_WEIGHT_MASK :: u16 where "NUMERIC_SHORT_WEIGHT_MASK = 0x003F"
definition NUMERIC_NEG_FLAG :: u16 where "NUMERIC_NEG_FLAG = 0x4000"
definition NUMERIC_DSCALE_MASK :: u16 where "NUMERIC_DSCALE_MASK = 0x3FFF"

lemmas numeric_consts =
  NUMERIC_SHORT_FLAG_def NUMERIC_SPECIAL_FLAG_def NUMERIC_SIGN_MASK_def NUMERIC_SHORT_SIGN_MASK_def
  NUMERIC_SHORT_DSCALE_MASK_def NUMERIC_SHORT_DSCALE_SHIFT_def NUMERIC_SHORT_WEIGHT_SIGN_MASK_def
  NUMERIC_SHORT_WEIGHT_MASK_def NUMERIC_NEG_FLAG_def NUMERIC_DSCALE_MASK_def

definition u16_at :: "bytes \<Rightarrow> nat \<Rightarrow> u16" where
  "u16_at bs i = word_of_nat (le_val (take 2 (drop i bs)))"

text \<open>The fields of the short and of the long header.\<close>

definition short_dscale :: "u16 \<Rightarrow> int" where
  "short_dscale header =
     int (unat (drop_bit NUMERIC_SHORT_DSCALE_SHIFT (header AND NUMERIC_SHORT_DSCALE_MASK)))"

definition short_weight :: "u16 \<Rightarrow> int" where
  "short_weight header =
     (let weight_raw = (ucast (header AND NUMERIC_SHORT_WEIGHT_MASK) :: i32) in
      sint (if header AND NUMERIC_SHORT_WEIGHT_SIGN_MASK \<noteq> 0
            then weight_raw OR NOT (ucast NUMERIC_SHORT_WEIGHT_MASK)
            else weight_raw))"

definition long_dscale :: "u16 \<Rightarrow> int" where
  "long_dscale sign_dscale = int (unat (sign_dscale AND NUMERIC_DSCALE_MASK))"

text \<open>The digits, their number, the weight, the display scale and the sign.\<close>

definition parse_numeric_header :: "bytes \<Rightarrow> (bytes \<times> int \<times> int \<times> int \<times> bool) option" where
  "parse_numeric_header bytes =
     (if length bytes < 2 then None
      else
        let header = u16_at bytes 0 in
        if header AND NUMERIC_SIGN_MASK = NUMERIC_SPECIAL_FLAG then None
        else if header AND NUMERIC_SHORT_FLAG \<noteq> 0 then
          let is_neg = (header AND NUMERIC_SHORT_SIGN_MASK \<noteq> 0);
              dscale = short_dscale header;
              weight = short_weight header;
              digits = drop 2 bytes
          in Some (digits, int (length digits div 2), weight, dscale, is_neg)
        else if length bytes < 4 then None
        else
          let sign_dscale = u16_at bytes 0;
              weight = sint (u16_at bytes 2);
              is_neg = (sign_dscale AND NUMERIC_SIGN_MASK = NUMERIC_NEG_FLAG);
              dscale = long_dscale sign_dscale;
              digits = drop 4 bytes
          in Some (digits, int (length digits div 2), weight, dscale, is_neg))"

text \<open>The digit \<open>i\<close>, an \<open>i16\<close>.\<close>

definition numeric_digit :: "bytes \<Rightarrow> nat \<Rightarrow> int" where
  "numeric_digit digits i = sint (u16_at digits (i * 2))"

section \<open>The decoders\<close>

text \<open>The loop \<open>value = value * NBASE + d\<close>; both operations are checked.\<close>

fun i128_digits :: "int \<Rightarrow> int list \<Rightarrow> ('e, int) outcome" where
  "i128_digits value [] = Ok value"
| "i128_digits value (d # ds) =
     obind (i128 (value * NBASE)) (\<lambda>v. obind (i128 (v + d)) (\<lambda>v'. i128_digits v' ds))"

text \<open>Adjusting an integer by \<open>diff\<close> decimal places, as the code does it three times on \<open>i128\<close>.\<close>

definition i128_rescale :: "int \<Rightarrow> int \<Rightarrow> ('e, int) outcome" where
  "i128_rescale value diff =
     (if 0 < diff then obind (i128_pow10 (nat diff)) (\<lambda>p. Ok (i128_saturating_mul value p))
      else if diff < 0 then obind (i128_pow10 (nat (- diff))) (\<lambda>p. Ok (tdiv value p))
      else Ok value)"

definition decode_pg_numeric_i128 :: "bytes \<Rightarrow> ('e, (int \<times> u8) option) outcome" where
  "decode_pg_numeric_i128 bytes =
     (case parse_numeric_header bytes of
        None \<Rightarrow> Ok None
      | Some (digits, ndigits, weight, dscale, is_neg) \<Rightarrow>
          if ndigits = 0 then Ok (Some (0, word_of_int dscale))
          else
            obind (i128_digits 0 (map (numeric_digit digits) [0..<nat ndigits])) (\<lambda>value.
            let natural_scale = (ndigits - 1 - weight) * 4 in
            obind (i128_rescale value (dscale - natural_scale)) (\<lambda>value.
            obind (if is_neg then i128 (- value) else Ok value) (\<lambda>value.
              Ok (Some (value, word_of_int dscale))))))"

definition i256_digits :: "i256 \<Rightarrow> int list \<Rightarrow> i256" where
  "i256_digits = foldl (\<lambda>value d. value * word_of_int NBASE + word_of_int d)"

definition i256_rescale :: "i256 \<Rightarrow> int \<Rightarrow> ('e, i256) outcome" where
  "i256_rescale value diff =
     (if 0 < diff then obind (i128_pow10 (nat diff)) (\<lambda>p. Ok (value * word_of_int p))
      else if diff < 0 then
        obind (i128_pow10 (nat (- diff))) (\<lambda>p. Ok (i256_wrapping_div value (word_of_int p)))
      else Ok value)"

definition decode_pg_numeric_i256 :: "bytes \<Rightarrow> ('e, (i256 \<times> u8) option) outcome" where
  "decode_pg_numeric_i256 bytes =
     (case parse_numeric_header bytes of
        None \<Rightarrow> Ok None
      | Some (digits, ndigits, weight, dscale, is_neg) \<Rightarrow>
          if ndigits = 0 then Ok (Some (0, word_of_int dscale))
          else
            let value = i256_digits 0 (map (numeric_digit digits) [0..<nat ndigits]);
                natural_scale = (ndigits - 1 - weight) * 4
            in obind (i256_rescale value (dscale - natural_scale)) (\<lambda>value.
               let value = (if is_neg then - value else value)
               in Ok (Some (value, word_of_int dscale))))"

section \<open>The reference encoding\<close>

text \<open>A finite NUMERIC: sign, weight of the first digit, display scale and base-10000 digits.\<close>

record decimal =
  dec_neg :: bool
  dec_weight :: int
  dec_dscale :: nat
  dec_digits :: "nat list"

definition decimal_ok :: "decimal \<Rightarrow> bool" where
  "decimal_ok d \<longleftrightarrow> list_all (\<lambda>x. x < 10000) (dec_digits d) \<and> dec_dscale d < 16384 \<and>
     - 32768 \<le> dec_weight d \<and> dec_weight d < 32768"

text \<open>PostgreSQL uses the short form whenever scale and weight fit.\<close>

definition short_form :: "decimal \<Rightarrow> bool" where
  "short_form d \<longleftrightarrow> dec_dscale d < 64 \<and> - 64 \<le> dec_weight d \<and> dec_weight d < 64"

definition short_header :: "bool \<Rightarrow> int \<Rightarrow> nat \<Rightarrow> nat" where
  "short_header neg weight dscale =
     0x8000 + (if neg then 0x2000 else 0) + dscale * 128 + nat (weight mod 128)"

definition decimal_bytes :: "decimal \<Rightarrow> bytes" where
  "decimal_bytes d =
     (if short_form d then le_bytes 2 (short_header (dec_neg d) (dec_weight d) (dec_dscale d))
      else le_bytes 2 ((if dec_neg d then 0x4000 else 0) + dec_dscale d) @
           le_bytes 2 (nat (dec_weight d mod 65536))) @
     concat (map (le_bytes 2) (dec_digits d))"

text \<open>The digits as one integer, and the value scaled by \<open>10 ^ dscale\<close> (rounded towards zero).\<close>

definition decimal_int :: "nat list \<Rightarrow> nat" where
  "decimal_int = foldl (\<lambda>a d. a * 10000 + d) 0"

definition decimal_shift :: "decimal \<Rightarrow> int" where
  "decimal_shift d = int (dec_dscale d) - (int (length (dec_digits d)) - 1 - dec_weight d) * 4"

definition decimal_scaled :: "decimal \<Rightarrow> int" where
  "decimal_scaled d =
     (let n = int (decimal_int (dec_digits d)); s = decimal_shift d in
      (if dec_neg d then -1 else 1) *
      (if 0 \<le> s then n * 10 ^ nat s else n div 10 ^ nat (- s)))"

section \<open>Lemmas\<close>

lemma bit_odd_unat: "bit (w :: 'a::len word) n = odd (unat w div 2 ^ n)"
proof -
  have "bit (unat w) n = bit w n" by (auto simp: bit_unsigned_iff dest: bit_imp_le_length)
  then show ?thesis by (simp add: bit_iff_odd)
qed

text \<open>The fields of a numeric header as arithmetic on its value.\<close>

lemma u16_top_bits: "unat (w AND 0xC000 :: u16) = unat w div 16384 * 16384"
proof -
  have "(0xC000 :: u16) = NOT (mask 14)" by (simp add: mask_eq_exp_minus_1 not_eq_complement)
  moreover have "w AND NOT (mask 14) = push_bit 14 (drop_bit 14 w)"
    by (rule bit_word_eqI) (auto simp: bit_simps)
  ultimately have "w AND 0xC000 = push_bit 14 (drop_bit 14 w)" by simp
  then have "unat (w AND 0xC000) = take_bit 16 (push_bit 14 (unat (drop_bit 14 w)))"
    by (simp only: unsigned_push_bit_eq) simp
  also have "\<dots> = unat w div 16384 * 16384"
  proof -
    have "unat w div 16384 * 16384 < 65536"
      using div_times_less_eq_dividend [of "unat w" 16384] unat_u16_less [of w] by linarith
    moreover have "unat (drop_bit 14 w) = unat w div 16384"
      by (simp only: unsigned_drop_bit_eq) (simp add: drop_bit_eq_div take_bit_nat_eq_self unsigned_drop_bit_eq)
    ultimately show ?thesis by (simp add: push_bit_eq_mult take_bit_nat_eq_self)
  qed
  finally show ?thesis .
qed

lemma u16_flags:
  "(w AND 0xC000 = (0xC000 :: u16)) = (unat w div 16384 = 3)"
  "(w AND 0xC000 = (0x4000 :: u16)) = (unat w div 16384 = 1)"
  "(w AND 0x8000 = (0 :: u16)) = even (unat w div 32768)"
  "(w AND 0x2000 = (0 :: u16)) = even (unat w div 8192)"
  "(w AND 0x40 = (0 :: u16)) = even (unat w div 64)"
proof -
  have top: "(w AND 0xC000 = k) = (unat w div 16384 * 16384 = unat k)" for k :: u16
    by (metis u16_top_bits word_unat_eq_iff)
  show "(w AND 0xC000 = (0xC000 :: u16)) = (unat w div 16384 = 3)"
    "(w AND 0xC000 = (0x4000 :: u16)) = (unat w div 16384 = 1)"
    by (simp_all add: top)
  have b: "(w AND 2 ^ n = 0) = even (unat w div 2 ^ n)" for n
    by (simp only: and_exp_eq_0_iff_not_bit bit_odd_unat not_not)
  show "(w AND 0x8000 = (0 :: u16)) = even (unat w div 32768)"
    "(w AND 0x2000 = (0 :: u16)) = even (unat w div 8192)"
    "(w AND 0x40 = (0 :: u16)) = even (unat w div 64)"
    using b [of 15] b [of 13] b [of 6] by simp_all
qed

lemma u16_dscale: "unat (drop_bit 7 (w AND 0x1F80 :: u16)) = unat w div 128 mod 64"
proof -
  have "(0x1F80 :: u16) = push_bit 7 (mask 6)" by (simp add: mask_eq_exp_minus_1 push_bit_eq_mult)
  moreover have "drop_bit 7 (w AND push_bit 7 (mask 6)) = take_bit 6 (drop_bit 7 w)"
    by (rule bit_word_eqI) (auto simp: bit_simps)
  ultimately have "drop_bit 7 (w AND 0x1F80) = take_bit 6 (drop_bit 7 w)" by simp
  then show ?thesis
    by (simp only: unsigned_take_bit_eq unsigned_drop_bit_eq)
      (simp add: drop_bit_eq_div take_bit_eq_mod)
qed

lemma u16_low14: "unat (w AND 0x3FFF :: u16) = unat w mod 16384"
proof -
  have "w AND 0x3FFF = take_bit 14 w" by (simp add: take_bit_eq_mask mask_eq_exp_minus_1)
  then have "unat (w AND 0x3FFF) = take_bit 14 (unat w)" by (simp only: unsigned_take_bit_eq)
  then show ?thesis by (simp add: take_bit_eq_mod)
qed

lemma u16_weight:
  "sint (if w AND 0x40 \<noteq> (0 :: u16) then (ucast (w AND 0x3F) :: i32) OR NOT (ucast (0x3F :: u16))
         else ucast (w AND 0x3F)) =
    (let m = int (unat w mod 128) in if m < 64 then m else m - 128)"
proof -
  define r where "r = (ucast (w AND 0x3F) :: i32)"
  have "w AND 0x3F = take_bit 6 w" by (simp add: take_bit_eq_mask mask_eq_exp_minus_1)
  then have "unat (w AND 0x3F) = unat w mod 64"
    by (simp only: unsigned_take_bit_eq) (simp add: take_bit_eq_mod)
  then have r: "unat r = unat w mod 64"
    by (simp add: r_def unsigned_ucast_eq take_bit_nat_eq_self)
  have rs: "sint r = int (unat w mod 64)"
  proof -
    have "sint r = signed_take_bit 31 (int (unat r))"
      by (simp add: sint_uint)
    then show ?thesis by (simp add: r signed_take_bit_int_eq_self)
  qed
  have "r OR NOT (ucast (0x3F :: u16)) = r - 64"
  proof -
    have m: "(ucast (0x3F :: u16) :: i32) = mask 6" by (simp add: mask_eq_exp_minus_1)
    have "take_bit 6 r = r"
      by (rule word_unat_eq_iff [THEN iffD2]) (simp only: unsigned_take_bit_eq, simp add: r take_bit_eq_mod)
    then have "\<not> bit r n \<or> \<not> bit (NOT (mask 6) :: i32) n" for n
      by (metis bit_take_bit_iff bit_not_iff bit_mask_iff impossible_bit)
    then have "r OR NOT (mask 6) = r + NOT (mask 6)"
      by (simp add: disjunctive_add)
    also have "NOT (mask 6 :: i32) = - 64" by (simp add: mask_eq_exp_minus_1 not_eq_complement)
    finally show ?thesis by (simp add: m)
  qed
  moreover have "sint (r - 64) = int (unat w mod 64) - 64"
  proof -
    have "r - 64 = word_of_int (int (unat w mod 64) - 64)"
      by (metis of_int_diff of_int_numeral of_int_of_nat_eq of_nat_unat r ucast_id)
    then have "sint (r - 64) = signed_take_bit 31 (int (unat w mod 64) - 64)"
      by (simp only: signed_of_int) simp
    then show ?thesis by (simp add: signed_take_bit_int_eq_self)
  qed
  moreover have "unat w mod 128 = unat w mod 64 + (if even (unat w div 64) then 0 else 64)"
    using mod_mult2_eq [of "unat w" 64 2]
    by (cases "even (unat w div 64)") (simp_all add: even_iff_mod_2_eq_zero odd_iff_mod_2_eq_one)
  ultimately show ?thesis
    by (simp add: u16_flags r_def [symmetric] rs Let_def)
qed

lemma header_fields:
  "short_dscale w = int (unat w div 128 mod 64)"
  "short_weight w = (let m = int (unat w mod 128) in if m < 64 then m else m - 128)"
  "long_dscale w = int (unat w mod 16384)"
  by (simp_all only: short_dscale_def short_weight_def long_dscale_def numeric_consts u16_dscale
      u16_weight u16_low14 Let_def)

lemma u16_at_le_bytes: "n < 65536 \<Longrightarrow> u16_at (le_bytes 2 n @ rest) 0 = word_of_nat n"
  by (simp add: u16_at_def le_val_le_bytes)

lemma unat_u16_of_nat: "n < 65536 \<Longrightarrow> unat (word_of_nat n :: u16) = n"
  by (simp add: unsigned_of_nat take_bit_nat_eq_self)

lemma digit_bytes_length: "length (concat (map (le_bytes 2) ds)) = 2 * length ds"
  by (induction ds) auto

lemma digits_at:
  assumes "list_all (\<lambda>x. x < 10000) ds" and "i < length ds"
  shows "numeric_digit (concat (map (le_bytes 2) ds)) i = int (ds ! i)"
proof -
  have "drop (i * 2) (concat (map (le_bytes 2) ds)) = concat (map (le_bytes 2) (drop i ds))"
    by (induction ds arbitrary: i) (auto simp: drop_Cons split: nat.splits)
  moreover have "drop i ds = ds ! i # drop (Suc i) ds" using assms(2) by (simp add: Cons_nth_drop_Suc)
  ultimately have "u16_at (concat (map (le_bytes 2) ds)) (i * 2) = word_of_nat (ds ! i mod 65536)"
    by (simp add: u16_at_def le_val_le_bytes)
  moreover have d: "ds ! i < 10000" using assms by (simp add: list_all_length)
  ultimately have "u16_at (concat (map (le_bytes 2) ds)) (i * 2) = word_of_nat (ds ! i)" by simp
  then show ?thesis
    using d by (simp add: numeric_digit_def signed_of_nat signed_take_bit_int_eq_self)
qed

lemma short_header_fields:
  assumes "- 64 \<le> w" "w < 64" "s < 64"
  shows "short_header neg w s < 65536" "short_header neg w s div 16384 = 2"
    "odd (short_header neg w s div 32768)" "odd (short_header neg w s div 8192) = neg"
    "short_header neg w s div 128 mod 64 = s" "short_header neg w s mod 128 = nat (w mod 128)"
proof -
  have m: "nat (w mod 128) < 128" by simp
  define k where "k = nat (w mod 128)"
  have k: "k < 128" using m by (simp add: k_def)
  have h: "short_header neg w s = 128 * (256 + (if neg then 64 else 0) + s) + k"
    by (simp add: short_header_def k_def)
  show "short_header neg w s < 65536" "short_header neg w s div 16384 = 2"
    using k assms by (auto simp: h)
  show "short_header neg w s mod 128 = nat (w mod 128)"
    unfolding h k_def [symmetric] by (simp only: mod_mult_self4 mod_less [OF k])
  have "short_header neg w s div 128 = 256 + (if neg then 64 else 0) + s"
    unfolding h by (subst div_mult_self4) (simp_all add: div_less [OF k])
  then have "short_header neg w s div 128 = 64 * (4 + (if neg then 1 else 0)) + s" by simp
  then show "short_header neg w s div 128 mod 64 = s"
    by (simp only: mod_mult_self4 mod_less [OF assms(3)])
  have "short_header neg w s div 32768 = 1" using k assms by (auto simp: h)
  then show "odd (short_header neg w s div 32768)" by simp
  have "short_header neg w s div 8192 = (if neg then 5 else 4)" using k assms by (auto simp: h)
  then show "odd (short_header neg w s div 8192) = neg" by simp
qed

lemma parse_decimal:
  assumes "decimal_ok d"
  shows "parse_numeric_header (decimal_bytes d) =
    Some (concat (map (le_bytes 2) (dec_digits d)), int (length (dec_digits d)), dec_weight d,
          int (dec_dscale d), dec_neg d)"
proof (cases "short_form d")
  case True
  let ?n = "short_header (dec_neg d) (dec_weight d) (dec_dscale d)"
  have r: "- 64 \<le> dec_weight d" "dec_weight d < 64" "dec_dscale d < 64"
    using True by (simp_all add: short_form_def)
  note f = short_header_fields [OF r, of "dec_neg d"]
  have h: "u16_at (decimal_bytes d) 0 = word_of_nat ?n"
    using True f(1) by (simp add: decimal_bytes_def u16_at_le_bytes)
  have un: "unat (word_of_nat ?n :: u16) = ?n" by (rule unat_u16_of_nat [OF f(1)])
  have "(let m = int (nat (dec_weight d mod 128)) in if m < 64 then m else m - 128) = dec_weight d"
    using r by (simp add: Let_def) presburger
  moreover have "\<not> length (decimal_bytes d) < 2" "drop 2 (decimal_bytes d) = concat (map (le_bytes 2) (dec_digits d))"
    using True by (simp_all add: decimal_bytes_def)
  ultimately show ?thesis
    using f
    by (simp add: parse_numeric_header_def h Let_def numeric_consts u16_flags header_fields un
        digit_bytes_length)
next
  case False
  define n where "n = (if dec_neg d then 0x4000 else 0) + dec_dscale d"
  let ?w = "nat (dec_weight d mod 65536)"
  have s: "dec_dscale d < 16384" using assms by (simp add: decimal_ok_def)
  have n: "n < 65536" using s by (simp add: n_def)
  have h: "u16_at (decimal_bytes d) 0 = word_of_nat n"
    using False n by (simp add: decimal_bytes_def u16_at_le_bytes n_def)
  have un: "unat (word_of_nat n :: u16) = n" by (rule unat_u16_of_nat [OF n])
  have "?w < 65536" by simp
  then have "u16_at (decimal_bytes d) 2 = word_of_nat ?w"
    using False by (simp add: decimal_bytes_def u16_at_def le_val_le_bytes)
  moreover have "sint (word_of_nat ?w :: u16) = dec_weight d"
  proof -
    have "(word_of_nat ?w :: u16) = word_of_int (dec_weight d mod 65536)" by simp
    also have "\<dots> = word_of_int (dec_weight d)"
      by (simp add: word_of_int_eq_iff take_bit_eq_mod)
    finally have "sint (word_of_nat ?w :: u16) = signed_take_bit 15 (dec_weight d)"
      by (simp only: signed_of_int) simp
    then show ?thesis using assms by (simp add: decimal_ok_def signed_take_bit_int_eq_self)
  qed
  moreover have "n div 16384 = (if dec_neg d then 1 else 0)" "n mod 16384 = dec_dscale d"
    "even (n div 32768)" using s by (auto simp: n_def)
  moreover have "\<not> length (decimal_bytes d) < 4" "drop 4 (decimal_bytes d) = concat (map (le_bytes 2) (dec_digits d))"
    using False by (simp_all add: decimal_bytes_def)
  ultimately show ?thesis
    by (simp add: parse_numeric_header_def h Let_def numeric_consts u16_flags header_fields un
        digit_bytes_length)
qed

lemma digits_of_decimal:
  assumes "decimal_ok d"
  shows "map (numeric_digit (concat (map (le_bytes 2) (dec_digits d)))) [0..<length (dec_digits d)] =
    map int (dec_digits d)"
  using assms by (intro nth_equalityI) (simp_all add: digits_at decimal_ok_def)

lemma decimal_int_snoc: "decimal_int (ds @ [x]) = decimal_int ds * 10000 + x"
  by (simp add: decimal_int_def)

lemma foldl_mono: "a \<le> foldl (\<lambda>a d. a * 10000 + d) a ds" for a :: nat
proof (induction ds arbitrary: a)
  case (Cons d ds)
  have "a \<le> a * 10000 + d" by simp
  also have "\<dots> \<le> foldl (\<lambda>a d. a * 10000 + d) (a * 10000 + d) ds" by (rule Cons)
  finally show ?case by simp
qed simp

lemma i128_ok: "i128_min \<le> v \<Longrightarrow> v \<le> i128_max \<Longrightarrow> i128 v = Ok v"
  by (simp add: i128_def)

text \<open>The checked loop computes the integer of the digits when that fits.\<close>

lemma i128_digits_foldl:
  "foldl (\<lambda>a d. a * 10000 + d) a ds < 2 ^ 127 \<Longrightarrow>
    i128_digits (int a) (map int ds) = Ok (int (foldl (\<lambda>a d. a * 10000 + d) a ds))"
proof (induction ds arbitrary: a)
  case (Cons d ds)
  let ?n = "a * 10000 + d"
  have "?n < 2 ^ 127" using Cons.prems foldl_mono [of ?n ds] by simp
  then have "i128_min \<le> int a * NBASE" "int a * NBASE \<le> i128_max"
    "i128_min \<le> int ?n" "int ?n \<le> i128_max" "int a * NBASE + int d = int ?n"
    by (simp_all add: NBASE_def i128_max_def i128_min_def)
  then show ?case using Cons.IH [of ?n] Cons.prems by (simp only: list.map i128_digits.simps i128_ok obind.simps foldl_Cons)
qed simp

lemma i256_digits_foldl:
  "i256_digits (word_of_int (int a)) (map int ds) = word_of_int (int (foldl (\<lambda>a d. a * 10000 + d) a ds))"
proof (induction ds arbitrary: a)
  case (Cons d ds)
  show ?case using Cons.IH [of "a * 10000 + d"] by (simp add: i256_digits_def NBASE_def)
qed (simp add: i256_digits_def)

lemma tdiv_nat: "0 \<le> a \<Longrightarrow> 0 < b \<Longrightarrow> tdiv a b = a div b"
  by (cases "a = 0") (simp_all add: tdiv_def)

lemma pow10_ok: "n \<le> 38 \<Longrightarrow> i128_pow10 n = Ok (10 ^ n)"
proof -
  assume "n \<le> 38"
  then have "(10 :: int) ^ n \<le> 10 ^ 38" by (rule power_increasing) simp
  then show ?thesis by (simp add: i128_pow10_def i128_def i128_max_def i128_min_def order_trans [OF _ zero_le_power])
qed

lemma i128_rescale_ok:
  assumes "0 \<le> v" "\<bar>s\<bar> \<le> 38" and "0 \<le> s \<longrightarrow> v * 10 ^ nat s \<le> i128_max"
  shows "i128_rescale v s = Ok (if 0 \<le> s then v * 10 ^ nat s else v div 10 ^ nat (- s))"
proof -
  have "nat s \<le> 38" "nat (- s) \<le> 38" using assms(2) by auto
  note p = pow10_ok [OF this(1)] pow10_ok [OF this(2)]
  have "i128_min \<le> v * 10 ^ nat s" using assms(1) by (simp add: i128_min_def order_trans [of _ 0])
  then show ?thesis
    using assms by (auto simp: i128_rescale_def p i128_saturating_mul_def tdiv_nat)
qed

text \<open>Both decoders after the header and the digits are read.\<close>

lemma i128_digits_decimal:
  "decimal_int ds < 2 ^ 127 \<Longrightarrow> i128_digits 0 (map int ds) = Ok (int (decimal_int ds))"
  using i128_digits_foldl [of 0 ds] by (simp add: decimal_int_def)

lemma decode_i128_decimal:
  assumes "decimal_ok d" and "dec_digits d \<noteq> []" and "decimal_int (dec_digits d) < 2 ^ 127"
  shows "decode_pg_numeric_i128 (decimal_bytes d) =
    obind (i128_rescale (int (decimal_int (dec_digits d))) (decimal_shift d)) (\<lambda>value.
    obind (if dec_neg d then i128 (- value) else Ok value) (\<lambda>value.
      Ok (Some (value, word_of_int (int (dec_dscale d))))))"
  using assms(2)
  by (simp add: decode_pg_numeric_i128_def parse_decimal [OF assms(1)] digits_of_decimal [OF assms(1)]
      decimal_shift_def Let_def i128_digits_decimal [OF assms(3)])

lemma decode_i256_decimal:
  assumes "decimal_ok d" and "dec_digits d \<noteq> []"
  shows "decode_pg_numeric_i256 (decimal_bytes d) =
    obind (i256_rescale (word_of_int (int (decimal_int (dec_digits d)))) (decimal_shift d)) (\<lambda>value.
      Ok (Some (if dec_neg d then - value else value, word_of_int (int (dec_dscale d)))))"
proof -
  have "i256_digits 0 (map int (dec_digits d)) = word_of_int (int (decimal_int (dec_digits d)))"
    using i256_digits_foldl [of 0 "dec_digits d"] by (simp add: decimal_int_def)
  then show ?thesis
    using assms(2)
    by (simp add: decode_pg_numeric_i256_def parse_decimal [OF assms(1)] digits_of_decimal [OF assms(1)]
        decimal_shift_def Let_def)
qed

lemma decode_no_digits:
  assumes "decimal_ok d" and "dec_digits d = []"
  shows "decode_pg_numeric_i128 (decimal_bytes d) = Ok (Some (0, word_of_int (int (dec_dscale d)))) \<and>
    decode_pg_numeric_i256 (decimal_bytes d) = Ok (Some (0, word_of_int (int (dec_dscale d))))"
  using assms(2)
  by (simp add: decode_pg_numeric_i128_def decode_pg_numeric_i256_def parse_decimal [OF assms(1)])

lemma sint_i256: "0 \<le> v \<Longrightarrow> v \<le> i128_max \<Longrightarrow> sint (word_of_int v :: i256) = v"
  by (simp add: signed_of_int i128_max_def signed_take_bit_int_eq_self)

lemma i256_rescale_ok:
  assumes "0 \<le> v" "v \<le> i128_max" "\<bar>s\<bar> \<le> 38"
  shows "i256_rescale (word_of_int v) s =
    Ok (word_of_int (if 0 \<le> s then v * 10 ^ nat s else v div 10 ^ nat (- s)))"
proof -
  have n: "nat s \<le> 38" "nat (- s) \<le> 38" using assms(3) by auto
  note p = pow10_ok [OF n(1)] pow10_ok [OF n(2)]
  have "(10 :: int) ^ nat (- s) \<le> 10 ^ 38" using n(2) by (rule power_increasing) simp
  then have "(10 :: int) ^ nat (- s) \<le> i128_max" by (simp add: i128_max_def)
  then have "sint (word_of_int (10 ^ nat (- s)) :: i256) = 10 ^ nat (- s)" by (rule sint_i256 [rotated]) simp
  then have "i256_wrapping_div (word_of_int v) (word_of_int (10 ^ nat (- s))) = word_of_int (v div 10 ^ nat (- s))"
    using assms by (simp only: i256_wrapping_div_def sint_i256 tdiv_nat) (simp add: tdiv_nat)
  then show ?thesis
    using assms by (auto simp: i256_rescale_def p)
qed

section \<open>Properties\<close>

text \<open>
  C20: The two NUMERIC decoders compute the same exact value.  For the stored form, short or long, of
  any finite decimal whose scaled digits fit 127 bits and whose digits end within 38 places of the
  display scale, both return the value scaled by \<open>10 ^ dscale\<close> (digits beyond the display scale are
  cut off towards zero), with the display scale as a byte.
\<close>

theorem decode_numeric_exact:
  assumes "decimal_ok d" and "\<bar>decimal_shift d\<bar> \<le> 38"
    and "int (decimal_int (dec_digits d)) * 10 ^ nat (decimal_shift d) \<le> i128_max"
  shows "decode_pg_numeric_i128 (decimal_bytes d) =
      Ok (Some (decimal_scaled d, word_of_int (int (dec_dscale d)))) \<and>
    decode_pg_numeric_i256 (decimal_bytes d) =
      Ok (Some (word_of_int (decimal_scaled d), word_of_int (int (dec_dscale d))))"
proof (cases "dec_digits d = []")
  case True
  then have "decimal_scaled d = 0" by (simp add: decimal_scaled_def decimal_int_def Let_def)
  then show ?thesis using decode_no_digits [OF assms(1) True] by simp
next
  case False
  let ?n = "int (decimal_int (dec_digits d))" and ?s = "decimal_shift d"
  let ?v = "if 0 \<le> ?s then ?n * 10 ^ nat ?s else ?n div 10 ^ nat (- ?s)"
  have "?n * 1 \<le> ?n * 10 ^ nat ?s" by (rule mult_left_mono) simp_all
  then have n: "?n \<le> i128_max" using assms(3) by simp
  then have "decimal_int (dec_digits d) < 2 ^ 127" by (simp add: i128_max_def)
  note i128 = decode_i128_decimal [OF assms(1) False this]
  have "?n div 10 ^ nat (- ?s) \<le> ?n"
    using zdiv_mono2 [of ?n 1 "10 ^ nat (- ?s)"] by simp
  then have v: "0 \<le> ?v" "?v \<le> i128_max"
    using assms(3) n by (auto simp: pos_imp_zdiv_nonneg_iff)
  then have neg: "i128_min \<le> - ?v" "- ?v \<le> i128_max"
    by (simp_all add: i128_min_def i128_max_def)
  have scaled: "decimal_scaled d = (if dec_neg d then - ?v else ?v)"
    by (simp add: decimal_scaled_def Let_def)
  have "0 \<le> ?s \<longrightarrow> ?n * 10 ^ nat ?s \<le> i128_max" using assms(3) by simp
  note r = i128_rescale_ok [OF of_nat_0_le_iff assms(2) this]
  have "decode_pg_numeric_i128 (decimal_bytes d) =
      Ok (Some (decimal_scaled d, word_of_int (int (dec_dscale d))))"
    unfolding i128 r scaled obind.simps i128_ok [OF neg] by (cases "dec_neg d") simp_all
  moreover have "decode_pg_numeric_i256 (decimal_bytes d) =
      Ok (Some (word_of_int (decimal_scaled d), word_of_int (int (dec_dscale d))))"
    unfolding decode_i256_decimal [OF assms(1) False] i256_rescale_ok [OF of_nat_0_le_iff n assms(2)] scaled
    by (cases "dec_neg d") simp_all
  ultimately show ?thesis by blast
qed

theorem decode_numeric_exact_witness:
  "decode_pg_numeric_i128 (decimal_bytes \<lparr>dec_neg = True, dec_weight = 0, dec_dscale = 2, dec_digits = [12, 3400]\<rparr>) =
    Ok (Some (- 1234, 2))"
proof -
  let ?d = "\<lparr>dec_neg = True, dec_weight = 0, dec_dscale = 2, dec_digits = [12, 3400]\<rparr>"
  have "decode_pg_numeric_i128 (decimal_bytes ?d) = Ok (Some (decimal_scaled ?d, word_of_int (int (dec_dscale ?d))))"
    by (rule decode_numeric_exact [THEN conjunct1])
      (simp_all add: decimal_ok_def decimal_shift_def decimal_int_def i128_max_def)
  then show ?thesis
    by (simp add: decimal_scaled_def decimal_shift_def decimal_int_def Let_def)
qed

text \<open>
  Both decoders panic as soon as the display scale exceeds the last stored digit by more than 38
  places, because the power of ten is computed as a 128-bit integer, also on the 256-bit path: the
  value 1 of a \<open>NUMERIC(50, 45)\<close> column, stored as a single digit, is enough.
\<close>

theorem decode_numeric_pow_overflow:
  assumes "decimal_ok d" and "dec_digits d \<noteq> []" and "decimal_int (dec_digits d) < 2 ^ 127"
    and "38 < decimal_shift d"
  shows "decode_pg_numeric_i128 (decimal_bytes d) = Panic \<and> decode_pg_numeric_i256 (decimal_bytes d) = Panic"
proof -
  have "(10 :: int) ^ 39 \<le> 10 ^ nat (decimal_shift d)"
    by (rule power_increasing) (use assms(4) in simp_all)
  then have "\<not> 10 ^ nat (decimal_shift d) \<le> i128_max" by (simp add: i128_max_def)
  then show ?thesis
    using assms(4)
    by (simp add: decode_i128_decimal [OF assms(1-3)] decode_i256_decimal [OF assms(1,2)]
        i128_rescale_def i256_rescale_def i128_pow10_def i128_def)
qed

theorem decode_numeric_pow_overflow_witness:
  "decode_pg_numeric_i256 (decimal_bytes \<lparr>dec_neg = False, dec_weight = 0, dec_dscale = 45, dec_digits = [1]\<rparr>) = Panic"
  by (rule decode_numeric_pow_overflow [THEN conjunct2])
    (simp_all add: decimal_ok_def decimal_shift_def decimal_int_def)

end
