(* ===== verification/Batch.thy ===== *)
theory Batch
  imports Page Rows Numerics Snapshot
begin

text \<open>
  The Arrow path: \<open>ColumnBuilder\<close> of \<open>src/types/arrow.rs\<close> and \<open>HeapPageData::to_record_batch\<close> of
  \<open>src/heap/page.rs\<close>.

  An Arrow builder is the log of the values appended to it (the calls the program makes); the Arrow
  library itself is the parameter \<open>arrow_lib\<close>: whether a \<open>FixedSizeBinaryBuilder\<close> rejects a slice,
  what \<open>finish\<close> makes of a log, and \<open>RecordBatch::try_new\<close>.
\<close>

section \<open>Column builders\<close>

text \<open>The variants of \<open>ColumnBuilder\<close>; the arguments are the builder's configuration.\<close>

datatype builder_kind =
    B_Bool | B_Int2 | B_Int4 | B_Int8 | B_Float4 | B_Float8 | B_Char | B_Oid | B_Xid | B_Cid | B_Xid8
  | B_Date | B_Money | B_Time | B_Timestamp | B_TimestampTz | B_Timetz | B_Interval | B_Utf8 | B_Name
  | B_Binary | B_FixedBinary i32 | B_Tid | B_Decimal128 u8 u8 | B_Decimal256 u8 u8

datatype arrow_value =
    AV_Bool bool | AV_Int16 i16 | AV_Int32 i32 | AV_Int64 i64 | AV_Float32 u32 | AV_Float64 u64
  | AV_UInt8 u8 | AV_UInt32 u32 | AV_UInt64 u64 | AV_Str string | AV_Bin bytes
  | AV_Decimal128 int | AV_Decimal256 i256

type_synonym arrow_cell = "arrow_value option"

record column_builder =
  kind :: builder_kind
  cells :: "arrow_cell list"

record ('arr, 'batch) arrow_lib =
  fixed_append_error :: "i32 \<Rightarrow> bytes \<Rightarrow> string option"
  finish_array :: "builder_kind \<Rightarrow> arrow_cell list \<Rightarrow> 'arr"
  try_new :: "arrow_field list \<Rightarrow> 'arr list \<Rightarrow> (string, 'batch) outcome"
  try_new_empty :: "arrow_field list \<Rightarrow> (string, 'batch) outcome"

definition builder_kind_for :: "pg_type_id \<Rightarrow> i32 \<Rightarrow> builder_kind" where
  "builder_kind_for t tm =
     (case t of
        T_Bool \<Rightarrow> B_Bool
      | T_Int2 \<Rightarrow> B_Int2
      | T_Int4 \<Rightarrow> B_Int4
      | T_Int8 \<Rightarrow> B_Int8
      | T_Float4 \<Rightarrow> B_Float4
      | T_Float8 \<Rightarrow> B_Float8
      | T_Char \<Rightarrow> B_Char
      | T_Oid \<Rightarrow> B_Oid
      | T_Xid \<Rightarrow> B_Xid
      | T_Cid \<Rightarrow> B_Cid
      | T_Xid8 \<Rightarrow> B_Xid8
      | T_Date \<Rightarrow> B_Date
      | T_Money \<Rightarrow> B_Money
      | T_Time \<Rightarrow> B_Time
      | T_Timestamp \<Rightarrow> B_Timestamp
      | T_Timestamptz \<Rightarrow> B_TimestampTz
      | T_Timetz \<Rightarrow> B_Timetz
      | T_Interval \<Rightarrow> B_Interval
      | T_Name \<Rightarrow> B_Name
      | T_Tid \<Rightarrow> B_Tid
      | T_Text \<Rightarrow> B_Utf8
      | T_Varchar \<Rightarrow> B_Utf8
      | T_Bpchar \<Rightarrow> B_Utf8
      | T_Json \<Rightarrow> B_Utf8
      | T_Xml \<Rightarrow> B_Utf8
      | T_Numeric \<Rightarrow>
          (case numeric_typmod_to_arrow_type tm of
             DT_Decimal128 p s \<Rightarrow> B_Decimal128 p s
           | DT_Decimal256 p s \<Rightarrow> B_Decimal256 p s
           | _ \<Rightarrow> B_Binary \<comment> \<open>the arm \<open>unreachable!()\<close>\<close>)
      | _ \<Rightarrow>
          if t \<in> {T_Uuid, T_Macaddr, T_Macaddr8, T_Point, T_Line, T_Circle, T_Lseg, T_Box}
          then B_FixedBinary (case type_len t of Fixed n \<Rightarrow> ucast n | _ \<Rightarrow> 16)
          else B_Binary)"

definition column_builder_new :: "pg_type_id \<Rightarrow> column_builder" where
  "column_builder_new t = \<lparr>kind = builder_kind_for t (-1), cells = []\<rparr>"

definition column_builder_for :: "pg_column \<Rightarrow> column_builder" where
  "column_builder_for col = \<lparr>kind = builder_kind_for (type_id col) (typmod col), cells = []\<rparr>"

definition append_null :: "column_builder \<Rightarrow> column_builder" where
  "append_null b = b\<lparr>cells := cells b @ [None]\<rparr>"

text \<open>\<open>i32\<close>, \<open>i64\<close> and \<open>i8\<close> addition with its overflow check.\<close>

definition checked_word :: "int \<Rightarrow> ('e, 'a::len word) outcome" where
  "checked_word v =
     (if - (2 ^ (LENGTH('a) - 1)) \<le> v \<and> v < 2 ^ (LENGTH('a) - 1) then Ok (word_of_int v) else Panic)"

definition DAYS_EPOCH_SHIFT :: int where "DAYS_EPOCH_SHIFT = 10957"
definition USECS_EPOCH_SHIFT :: int where "USECS_EPOCH_SHIFT = 946684800000000"

definition shifted_date :: "i32 \<Rightarrow> arrow_cell pg_result" where
  "shifted_date pg_days =
     obind (checked_word (sint pg_days + DAYS_EPOCH_SHIFT)) (\<lambda>v. Ok (Some (AV_Int32 v)))"

definition shifted_timestamp :: "i64 \<Rightarrow> arrow_cell pg_result" where
  "shifted_timestamp pg_us =
     obind (checked_word (sint pg_us + USECS_EPOCH_SHIFT)) (\<lambda>v. Ok (Some (AV_Int64 v)))"

text \<open>A decoded numeric brought to the scale of its column.\<close>

definition decimal128_cell :: "u8 \<Rightarrow> bytes \<Rightarrow> arrow_cell pg_result" where
  "decimal128_cell target_scale bytes =
     obind (decode_pg_numeric_i128 bytes) (\<lambda>r.
     case r of
       None \<Rightarrow> Ok None
     | Some (val, actual_scale) \<Rightarrow>
         obind (checked_word (sint target_scale - sint actual_scale)) (\<lambda>diff.
         obind (i128_rescale val (sint (diff :: u8))) (\<lambda>val. Ok (Some (AV_Decimal128 val)))))"

definition decimal256_cell :: "u8 \<Rightarrow> bytes \<Rightarrow> arrow_cell pg_result" where
  "decimal256_cell target_scale bytes =
     obind (decode_pg_numeric_i256 bytes) (\<lambda>r.
     case r of
       None \<Rightarrow> Ok None
     | Some (val, actual_scale) \<Rightarrow>
         obind (checked_word (sint target_scale - sint actual_scale)) (\<lambda>diff.
         obind (i256_rescale val (sint (diff :: u8))) (\<lambda>val. Ok (Some (AV_Decimal256 val)))))"

text \<open>\<open>CStr::from_bytes_until_nul(bytes).map(|c| c.to_str().unwrap_or("")).unwrap_or("")\<close>\<close>

definition name_or_empty :: "bytes \<Rightarrow> string" where
  "name_or_empty bytes =
     (case cstr_until_nul bytes of
        None \<Rightarrow> []
      | Some c \<Rightarrow> (case from_utf8 c of Ok s \<Rightarrow> s | _ \<Rightarrow> []))"

text \<open>The value that \<open>append_bytes\<close> appends.\<close>

definition cell_of_bytes ::
    "(i32 \<Rightarrow> bytes \<Rightarrow> string option) \<Rightarrow> builder_kind \<Rightarrow> bytes \<Rightarrow> arrow_cell pg_result" where
  "cell_of_bytes append_error k bytes =
     (case k of
        B_Bool \<Rightarrow> Ok (Some (AV_Bool (case get bytes 0 of Some b \<Rightarrow> b \<noteq> 0 | None \<Rightarrow> False)))
      | B_Int2 \<Rightarrow> obind (read_u16 bytes 0) (\<lambda>v. Ok (Some (AV_Int16 v)))
      | B_Int4 \<Rightarrow> obind (read_u32 bytes 0) (\<lambda>v. Ok (Some (AV_Int32 v)))
      | B_Int8 \<Rightarrow> obind (read_u64 bytes 0) (\<lambda>v. Ok (Some (AV_Int64 v)))
      | B_Float4 \<Rightarrow> obind (read_u32 bytes 0) (\<lambda>v. Ok (Some (AV_Float32 v)))
      | B_Float8 \<Rightarrow> obind (read_u64 bytes 0) (\<lambda>v. Ok (Some (AV_Float64 v)))
      | B_Char \<Rightarrow> obind (index bytes 0) (\<lambda>v. Ok (Some (AV_UInt8 v)))
      | B_Oid \<Rightarrow> obind (read_u32 bytes 0) (\<lambda>v. Ok (Some (AV_UInt32 v)))
      | B_Xid \<Rightarrow> obind (read_u32 bytes 0) (\<lambda>v. Ok (Some (AV_UInt32 v)))
      | B_Cid \<Rightarrow> obind (read_u32 bytes 0) (\<lambda>v. Ok (Some (AV_UInt32 v)))
      | B_Xid8 \<Rightarrow> obind (read_u64 bytes 0) (\<lambda>v. Ok (Some (AV_UInt64 v)))
      | B_Date \<Rightarrow> obind (read_u32 bytes 0) shifted_date
      | B_Money \<Rightarrow> obind (read_u64 bytes 0) (\<lambda>v. Ok (Some (AV_Int64 v)))
      | B_Time \<Rightarrow> obind (read_u64 bytes 0) (\<lambda>v. Ok (Some (AV_Int64 v)))
      | B_Timestamp \<Rightarrow> obind (read_u64 bytes 0) shifted_timestamp
      | B_TimestampTz \<Rightarrow> obind (read_u64 bytes 0) shifted_timestamp
      | B_Timetz \<Rightarrow> obind (read_u64 bytes 0) (\<lambda>v. Ok (Some (AV_Int64 v)))
      | B_Interval \<Rightarrow>
          obind (index_range bytes 12 16) (\<lambda>months.
          obind (index_range bytes 8 12) (\<lambda>days.
          obind (index_range bytes 0 8) (\<lambda>usec. Ok (Some (AV_Bin (months @ days @ usec))))))
      | B_Name \<Rightarrow> Ok (Some (AV_Str (name_or_empty bytes)))
      | B_Utf8 \<Rightarrow> Ok (Some (AV_Str (from_utf8_lossy bytes)))
      | B_Decimal128 p s \<Rightarrow> decimal128_cell s bytes
      | B_Decimal256 p s \<Rightarrow> decimal256_cell s bytes
      | B_Tid \<Rightarrow> Ok (Some (AV_Bin bytes))
      | B_FixedBinary width \<Rightarrow>
          (case append_error width bytes of
             Some detail \<Rightarrow> Err (ArrowConversionFailed detail)
           | None \<Rightarrow> Ok (Some (AV_Bin bytes)))
      | B_Binary \<Rightarrow> Ok (Some (AV_Bin bytes)))"

definition append_bytes ::
    "(i32 \<Rightarrow> bytes \<Rightarrow> string option) \<Rightarrow> column_builder \<Rightarrow> bytes \<Rightarrow> column_builder pg_result" where
  "append_bytes append_error b bytes =
     obind (cell_of_bytes append_error (kind b) bytes) (\<lambda>c. Ok (b\<lparr>cells := cells b @ [c]\<rparr>))"

definition finish :: "('arr, 'batch) arrow_lib \<Rightarrow> column_builder \<Rightarrow> 'arr" where
  "finish lib b = finish_array lib (kind b) (cells b)"

section \<open>A page to a record batch\<close>

text \<open>
  The tests on a raw tuple: \<open>None\<close> is a \<open>continue\<close>, otherwise the null flag, the null bitmap and the
  attribute data, borrowed from the buffer.
\<close>

definition u32_at :: "bytes \<Rightarrow> nat \<Rightarrow> u32" where
  "u32_at bs i = word_of_nat (le_val (take 4 (drop i bs)))"

definition batch_slices :: "pg_snapshot option \<Rightarrow> bytes \<Rightarrow> (bool \<times> bytes \<times> bytes) option" where
  "batch_slices snapshot raw =
     (if length raw < SIZEOF_HEAP_TUPLE_HEADER then None
      else
        let infomask = u16_at raw 20; infomask2 = u16_at raw 18; hoff = unat (raw ! 22) in
        if hoff < SIZEOF_HEAP_TUPLE_HEADER \<or> length raw < hoff then None
        else
          let xmin = u32_at raw 0; xmax = u32_at raw 4;
              xmax_invalid = (infomask AND info_mask_u16 XmaxInvalid \<noteq> 0)
          in
          if \<not> xmax_invalid \<and> xmax \<noteq> 0 then None
          else if (case snapshot of Some snap \<Rightarrow> \<not> xmin_visible snap xmin | None \<Rightarrow> False) then None
          else
            let has_null = (infomask AND info_mask_u16 HasNull \<noteq> 0) in
            if has_null then
              let natts = unat (infomask2 AND HEAP_NATTS_MASK);
                  bitmap_end = SIZEOF_HEAP_TUPLE_HEADER + div_ceil natts 8
              in if hoff < bitmap_end then None
                 else Some (True, take (bitmap_end - SIZEOF_HEAP_TUPLE_HEADER) (drop SIZEOF_HEAP_TUPLE_HEADER raw),
                            drop hoff raw)
            else Some (False, [], drop hoff raw))"

text \<open>The precomputed width of a column, 0 when it is not fixed, and the alignment step.\<close>

definition fixed_size :: "pg_type_id \<Rightarrow> usize" where
  "fixed_size t = (case type_len t of Fixed n \<Rightarrow> unat n | _ \<Rightarrow> 0)"

definition batch_align :: "pg_type_id \<Rightarrow> bytes \<Rightarrow> usize \<Rightarrow> usize" where
  "batch_align t buf offset =
     (let col_align = type_align t in
      if 1 < col_align then
        (if 0 < fixed_size t then align_expr offset col_align
         else (case get buf offset of
                 Some b \<Rightarrow> if b = 0 then align_expr offset col_align else offset
               | None \<Rightarrow> align_expr offset col_align))
      else offset)"

definition batch_is_null :: "bool \<Rightarrow> bytes \<Rightarrow> usize \<Rightarrow> bool" where
  "batch_is_null has_null bitmap col_index =
     (has_null \<and> (case get bitmap (drop_bit 3 col_index) of
                    Some b \<Rightarrow> b AND push_bit (col_index AND 7) 1 = 0
                  | None \<Rightarrow> False))"

text \<open>The loop over the columns of one tuple.\<close>

fun batch_columns ::
    "(i32 \<Rightarrow> bytes \<Rightarrow> string option) \<Rightarrow> pg_type_id list \<Rightarrow> usize option list \<Rightarrow> bool \<times> bytes \<times> bytes \<Rightarrow>
     usize list \<Rightarrow> usize \<Rightarrow> column_builder list \<Rightarrow> column_builder list pg_result" where
  "batch_columns ae types pos (has_null, bitmap, d) [] offset bs = Ok bs"
| "batch_columns ae types pos (has_null, bitmap, d) (i # rest) offset bs =
     (if batch_is_null has_null bitmap i then
        batch_columns ae types pos (has_null, bitmap, d) rest offset
          (case pos ! i of Some out \<Rightarrow> bs[out := append_null (bs ! out)] | None \<Rightarrow> bs)
      else
        let t = types ! i; offset = batch_align t d offset; n = fixed_size t in
        (case pos ! i of
           Some out \<Rightarrow>
             if 0 < n then
               obind (extract_fixed_bytes d offset n) (\<lambda>(bytes, _).
               obind (append_bytes ae (bs ! out) bytes) (\<lambda>b.
                 batch_columns ae types pos (has_null, bitmap, d) rest (offset + n) (bs[out := b])))
             else
               obind (extract_column_bytes (type_len t) d offset) (\<lambda>(bytes, consumed).
               obind (append_bytes ae (bs ! out) bytes) (\<lambda>b.
                 batch_columns ae types pos (has_null, bitmap, d) rest (offset + consumed) (bs[out := b])))
         | None \<Rightarrow>
             if 0 < n then batch_columns ae types pos (has_null, bitmap, d) rest (offset + n) bs
             else
               obind (map_err (\<lambda>e. DecodeError (decode_error_to_string e)) (skip_datum (type_len t) d offset))
                 (\<lambda>consumed. batch_columns ae types pos (has_null, bitmap, d) rest (offset + consumed) bs)))"

text \<open>The loop over the line pointers.\<close>

fun batch_tuples ::
    "(i32 \<Rightarrow> bytes \<Rightarrow> string option) \<Rightarrow> pg_type_id list \<Rightarrow> usize option list \<Rightarrow> usize \<Rightarrow>
     pg_snapshot option \<Rightarrow> heap_page_data \<Rightarrow> usize list \<Rightarrow> column_builder list \<Rightarrow>
     column_builder list pg_result" where
  "batch_tuples ae types pos walk_up_to snapshot page [] bs = Ok bs"
| "batch_tuples ae types pos walk_up_to snapshot page (lp_index # rest) bs =
     obind (index (lp_items page) lp_index) (\<lambda>lp.
     if lp_flags lp \<noteq> LP_NORMAL then batch_tuples ae types pos walk_up_to snapshot page rest bs
     else
       (case get_range (page_data page) (unat (lp_off lp)) (unat (lp_off lp) + unat (lp_len lp)) of
          None \<Rightarrow> batch_tuples ae types pos walk_up_to snapshot page rest bs
        | Some raw \<Rightarrow>
            (case batch_slices snapshot raw of
               None \<Rightarrow> batch_tuples ae types pos walk_up_to snapshot page rest bs
             | Some slices \<Rightarrow>
                 obind (batch_columns ae types pos slices [0..<walk_up_to] 0 bs) (\<lambda>bs.
                   batch_tuples ae types pos walk_up_to snapshot page rest bs))))"

definition to_record_batch ::
    "('arr, 'batch) arrow_lib \<Rightarrow> heap_page_data \<Rightarrow> pg_schema \<Rightarrow> usize list option \<Rightarrow>
     pg_snapshot option \<Rightarrow> 'batch pg_result" where
  "to_record_batch lib page s projection snapshot =
     (if projection = Some [] then
        map_err ArrowConversionFailed (try_new_empty lib (to_arrow_schema (pg_schema_new (schema_name s) [])))
      else
        let types = map type_id (columns s) in
        obind (case projection of Some proj \<Rightarrow> project s proj | None \<Rightarrow> Ok s) (\<lambda>batch_schema.
        let walk_up_to = (case projection of Some proj \<Rightarrow> Max (set proj) + 1 | None \<Rightarrow> num_columns s);
            pos = (case projection of
                     Some proj \<Rightarrow> output_positions (Max (set proj)) proj
                   | None \<Rightarrow> map Some [0..<num_columns s])
        in
        obind (case projection of
                 Some proj \<Rightarrow>
                   omap (\<lambda>i. obind (unwrap_opt (column s i)) (\<lambda>c. Ok (column_builder_for c))) proj
               | None \<Rightarrow> Ok (map column_builder_for (columns s))) (\<lambda>builders.
        obind (batch_tuples (fixed_append_error lib) types pos walk_up_to snapshot page [0..<lp_num page] builders) (\<lambda>builders.
          map_err ArrowConversionFailed
            (try_new lib (to_arrow_schema batch_schema) (map (finish lib) builders))))))"

end
