(* ===== verification/BatchRows.thy ===== *)
theory BatchRows
  imports Batch
begin

text \<open>
  The Arrow path against the row path: \<open>ColumnBuilder::append_bytes\<close> on the bytes of a column does
  what \<open>decode_datum\<close> and a conversion of the datum do, the tests of \<open>to_record_batch\<close> on a raw tuple
  are those of \<open>parse_and_build\<close>, and the record batch of a page is the table of its decoded rows.
\<close>

section \<open>The cell of a datum\<close>

primrec cell_of_datum :: "builder_kind \<Rightarrow> pg_datum \<Rightarrow> arrow_cell pg_result" where
  "cell_of_datum k (D_Bool v) = Ok (Some (AV_Bool v))"
| "cell_of_datum k (D_Int2 v) = Ok (Some (AV_Int16 v))"
| "cell_of_datum k (D_Int4 v) = Ok (Some (AV_Int32 v))"
| "cell_of_datum k (D_Int8 v) = Ok (Some (AV_Int64 v))"
| "cell_of_datum k (D_Float4 v) = Ok (Some (AV_Float32 v))"
| "cell_of_datum k (D_Float8 v) = Ok (Some (AV_Float64 v))"
| "cell_of_datum k (D_Oid v) = Ok (Some (AV_UInt32 v))"
| "cell_of_datum k (D_Xid v) = Ok (Some (AV_UInt32 v))"
| "cell_of_datum k (D_Cid v) = Ok (Some (AV_UInt32 v))"
| "cell_of_datum k (D_Xid8 v) = Ok (Some (AV_UInt64 v))"
| "cell_of_datum k (D_Date v) = shifted_date v"
| "cell_of_datum k (D_Time v) = Ok (Some (AV_Int64 v))"
| "cell_of_datum k (D_Timestamp v) = shifted_timestamp v"
| "cell_of_datum k (D_TimestampTz v) = shifted_timestamp v"
| "cell_of_datum k (D_Money v) = Ok (Some (AV_Int64 v))"
| "cell_of_datum k (D_Char v) = Ok (Some (AV_UInt8 v))"
| "cell_of_datum k (D_Name b) = Ok (Some (AV_Str (name_or_empty b)))"
| "cell_of_datum k (D_Tid block offset) = Ok (Some (AV_Bin (u32_bytes block @ u16_bytes offset)))"
| "cell_of_datum k (D_MacAddr b) = Ok (Some (AV_Bin b))"
| "cell_of_datum k (D_MacAddr8 b) = Ok (Some (AV_Bin b))"
| "cell_of_datum k (D_Uuid b) = Ok (Some (AV_Bin b))"
| "cell_of_datum k (D_Interval us days months) =
     Ok (Some (AV_Bin (u32_bytes months @ u32_bytes days @ u64_bytes us)))"
| "cell_of_datum k (D_TimeTz us tz) = Ok (Some (AV_Int64 us))"
| "cell_of_datum k (D_Point x y) = Ok (Some (AV_Bin (u64_bytes x @ u64_bytes y)))"
| "cell_of_datum k (D_Line a b c) = Ok (Some (AV_Bin (u64_bytes a @ u64_bytes b @ u64_bytes c)))"
| "cell_of_datum k (D_Lseg x1 y1 x2 y2) =
     Ok (Some (AV_Bin (u64_bytes x1 @ u64_bytes y1 @ u64_bytes x2 @ u64_bytes y2)))"
| "cell_of_datum k (D_Box x1 y1 x2 y2) =
     Ok (Some (AV_Bin (u64_bytes x1 @ u64_bytes y1 @ u64_bytes x2 @ u64_bytes y2)))"
| "cell_of_datum k (D_Circle x y r) = Ok (Some (AV_Bin (u64_bytes x @ u64_bytes y @ u64_bytes r)))"
| "cell_of_datum k (D_Text s) = Ok (Some (AV_Str s))"
| "cell_of_datum k (D_Varchar s) = Ok (Some (AV_Str s))"
| "cell_of_datum k (D_BpChar s) = Ok (Some (AV_Str s))"
| "cell_of_datum k (D_Bytea b) = Ok (Some (AV_Bin b))"
| "cell_of_datum k (D_Json s) = Ok (Some (AV_Str s))"
| "cell_of_datum k (D_Jsonb b) = Ok (Some (AV_Bin b))"
| "cell_of_datum k (D_JsonPath b) = Ok (Some (AV_Bin b))"
| "cell_of_datum k (D_Xml s) = Ok (Some (AV_Str s))"
| "cell_of_datum k (D_Numeric b) =
     (case k of
        B_Decimal128 p s \<Rightarrow> decimal128_cell s b
      | B_Decimal256 p s \<Rightarrow> decimal256_cell s b
      | _ \<Rightarrow> Ok (Some (AV_Bin b)))"
| "cell_of_datum k (D_Inet b) = Ok (Some (AV_Bin b))"
| "cell_of_datum k (D_Cidr b) = Ok (Some (AV_Bin b))"
| "cell_of_datum k (D_Bit b) = Ok (Some (AV_Bin b))"
| "cell_of_datum k (D_VarBit b) = Ok (Some (AV_Bin b))"
| "cell_of_datum k (D_Path b) = Ok (Some (AV_Bin b))"
| "cell_of_datum k (D_Polygon b) = Ok (Some (AV_Bin b))"
| "cell_of_datum k (D_RawBytes oid b) = Ok (Some (AV_Bin b))"
| "cell_of_datum k D_Null = Ok None"

text \<open>A fixed-size binary builder accepts the slices of its own width.\<close>

definition accepts_exact :: "(i32 \<Rightarrow> bytes \<Rightarrow> string option) \<Rightarrow> bool" where
  "accepts_exact append_error \<longleftrightarrow> (\<forall>w bs. sint w = int (length bs) \<longrightarrow> append_error w bs = None)"

lemma typmod_decimal:
  "\<exists>p s. numeric_typmod_to_arrow_type tm = DT_Decimal128 p s \<or> numeric_typmod_to_arrow_type tm = DT_Decimal256 p s"
  by (auto simp: numeric_typmod_to_arrow_type_def Let_def)

lemma cell_agrees:
  assumes d: "decode_payload t p = Ok d" and fits: "payload_fits (type_len t) p" and ae: "accepts_exact ae"
  shows "cell_of_bytes ae (builder_kind_for t tm) p = cell_of_datum (builder_kind_for t tm) d"
proof (cases "t = T_Numeric")
  case True
  then show ?thesis
    using d typmod_decimal [of tm]
    by (auto simp: payload_simps builder_kind_for_def cell_of_bytes_def)
next
  case False
  have acc: "sint w = int (length p) \<Longrightarrow> ae w p = None" for w
    using ae by (simp add: accepts_exact_def)
  show ?thesis
    using d fits False
    by (cases t)
      (auto simp: payload_simps builder_kind_for_def cell_of_bytes_def acc read_uint_bytes fields_glue
        outcome_simps name_or_empty_def from_utf8_lossy_def utf8_lossy_id split: if_splits)
qed

section \<open>The tuples of a page\<close>

definition tuple_visible :: "pg_snapshot option \<Rightarrow> heap_tuple_header_data \<Rightarrow> bool" where
  "tuple_visible snapshot h \<longleftrightarrow>
     (has_flag h (info_mask_u16 XmaxInvalid) \<or> t_xmax h = 0) \<and>
     (case snapshot of Some snap \<Rightarrow> xmin_visible snap (t_xmin h) | None \<Rightarrow> True)"

text \<open>The visible tuples in line pointer order, as the row path reads them.\<close>

definition live_tuples :: "pg_snapshot option \<Rightarrow> heap_page_data \<Rightarrow> heap_tuple_data list" where
  "live_tuples snapshot page =
     concat (map (\<lambda>i. case get_row_data page (word_of_nat i) of
                        Ok t \<Rightarrow> if tuple_visible snapshot (header t) then [t] else []
                      | _ \<Rightarrow> [])
       [0..<lp_num page])"

lemma read_tuple_header_at:
  assumes "SIZEOF_HEAP_TUPLE_HEADER \<le> length raw"
  shows "\<exists>h. read_tuple_header raw = Ok h \<and> t_xmin h = u32_at raw 0 \<and> t_xmax h = u32_at raw 4 \<and>
    t_infomask2 h = u16_at raw 18 \<and> t_infomask h = u16_at raw 20 \<and> t_hoff h = raw ! 22"
  using assms
  by (simp add: read_tuple_header_def read_uint_defs read_simps tuple_consts u32_at_def u16_at_def)

lemma batch_slices_parse:
  "batch_slices snapshot raw =
    (case parse_and_build raw of
       Ok t \<Rightarrow>
         if tuple_visible snapshot (header t)
         then Some (has_flag (header t) (info_mask_u16 HasNull), null_bitmap t, data t) else None
     | _ \<Rightarrow> None)"
proof (cases "length raw < SIZEOF_HEAP_TUPLE_HEADER")
  case True
  then show ?thesis by (simp add: batch_slices_def parse_and_build_def)
next
  case False
  then obtain h where h: "read_tuple_header raw = Ok h" "t_xmin h = u32_at raw 0" "t_xmax h = u32_at raw 4"
    "t_infomask2 h = u16_at raw 18" "t_infomask h = u16_at raw 20" "t_hoff h = raw ! 22"
    using read_tuple_header_at [of raw] by auto
  have f: "has_flag h m = (u16_at raw 20 AND m \<noteq> 0)" for m by (simp add: has_flag_def h)
  have vis: "tuple_visible snapshot h =
      (\<not> (\<not> u16_at raw 20 AND info_mask_u16 XmaxInvalid \<noteq> 0 \<and> u32_at raw 4 \<noteq> 0) \<and>
       \<not> (case snapshot of Some snap \<Rightarrow> \<not> xmin_visible snap (u32_at raw 0) | None \<Rightarrow> False))"
    by (auto simp: tuple_visible_def f h split: option.splits)
  have bl: "bitmap_len h =
      (if u16_at raw 20 AND info_mask_u16 HasNull \<noteq> 0 then div_ceil (unat (u16_at raw 18 AND HEAP_NATTS_MASK)) 8 else 0)"
    by (simp only: bitmap_len_def f natts_of_def h)
  have slices: "batch_slices snapshot raw =
      (if unat (t_hoff h) < 23 \<or> length raw < unat (t_hoff h) then None
       else if \<not> tuple_visible snapshot h then None
       else if has_flag h (info_mask_u16 HasNull)
         then if unat (t_hoff h) < 23 + bitmap_len h then None
           else Some (True, take (bitmap_len h) (drop 23 raw), drop (unat (t_hoff h)) raw)
       else Some (False, [], drop (unat (t_hoff h)) raw))"
    using False
    by (simp add: batch_slices_def Let_def vis bl f h tuple_consts)
  have none: "\<not> has_flag h (info_mask_u16 HasNull) \<Longrightarrow> bitmap_len h = 0"
    by (simp add: bitmap_len_def)
  show ?thesis
    unfolding parse_and_build_eq [OF h(1)] slices
    by (cases "has_flag h (info_mask_u16 HasNull)") (simp_all add: none)
qed

lemma bitmap_without_flag:
  assumes "parse_and_build raw = Ok t" and "\<not> has_flag (header t) (info_mask_u16 HasNull)"
  shows "null_bitmap t = []"
  using parse_and_build_inv(1) [OF assms(1)] assms(2) by (simp add: bitmap_len_def)

lemma batch_is_null_eq:
  assumes "parse_and_build raw = Ok t"
  shows "batch_is_null (has_flag (header t) (info_mask_u16 HasNull)) (null_bitmap t) i = is_null t i"
proof -
  have d: "drop_bit 3 i = i div 8" by (simp add: drop_bit_eq_div)
  have m: "i AND 7 = i mod 8"
    using take_bit_eq_mask [of 3 i] by (simp add: take_bit_eq_mod mask_eq_exp_minus_1)
  show ?thesis
    unfolding batch_is_null_def d m
    using bitmap_without_flag [OF assms] is_null_no_bitmap [of t i]
    by (cases "has_flag (header t) (info_mask_u16 HasNull)") (simp_all add: is_null_def)
qed

lemma fixed_size_pos: "(0 < fixed_size t) = (type_len t \<noteq> Varlena)"
  by (cases t) (simp_all add: fixed_size_def)

lemma batch_align_eq: "batch_align t buf offset = align_offset t buf offset"
  by (simp add: batch_align_def align_offset_def fixed_size_pos Let_def)

text \<open>The cells of one tuple, appended to the builders of their output positions.\<close>

fun fill_cells :: "usize option list \<Rightarrow> (usize \<times> arrow_cell) list \<Rightarrow> column_builder list \<Rightarrow> column_builder list" where
  "fill_cells pos [] bs = bs"
| "fill_cells pos ((i, c) # ics) bs =
     fill_cells pos ics
       (case pos ! i of Some out \<Rightarrow> bs[out := (bs ! out)\<lparr>cells := cells (bs ! out) @ [c]\<rparr>] | None \<Rightarrow> bs)"

text \<open>
  \<open>cells_ok\<close>: the builder of every output column is the one for its type, and the cells \<open>cs\<close> are
  those of the values \<open>vs\<close> of the columns \<open>is\<close>.
\<close>

definition cells_ok ::
    "pg_type_id list \<Rightarrow> usize option list \<Rightarrow> builder_kind list \<Rightarrow> usize list \<Rightarrow> pg_datum option list \<Rightarrow>
     arrow_cell list \<Rightarrow> bool" where
  "cells_ok types pos ks is vs cs \<longleftrightarrow>
     length vs = length is \<and> length cs = length is \<and>
     (\<forall>k < length is. \<forall>out. pos ! (is ! k) = Some out \<longrightarrow>
        out < length ks \<and> (\<exists>tm. ks ! out = builder_kind_for (types ! (is ! k)) tm) \<and>
        cell_of_datum (ks ! out) (datum_or_null (vs ! k)) = Ok (cs ! k))"

lemma cells_ok_Cons:
  "cells_ok types pos ks (i # is) (v # vs) (c # cs) \<longleftrightarrow>
    (\<forall>out. pos ! i = Some out \<longrightarrow>
       out < length ks \<and> (\<exists>tm. ks ! out = builder_kind_for (types ! i) tm) \<and>
       cell_of_datum (ks ! out) (datum_or_null v) = Ok c) \<and>
    cells_ok types pos ks is vs cs"
  unfolding cells_ok_def by (auto simp: less_Suc_eq_0_disj)

text \<open>A column that can be extracted is skipped by the same number of bytes.\<close>

lemma extracted_column:
  assumes "extract_column_bytes (type_len t) buf offset = Ok (p, n)"
  shows "skip_datum (type_len t) buf offset = Ok n"
    and "0 < fixed_size t \<Longrightarrow> extract_fixed_bytes buf offset (fixed_size t) = Ok (p, n) \<and> n = fixed_size t"
  using assms extract_iff_skip
  by (blast, auto simp: fixed_size_def extract_column_bytes_def extract_fixed_bytes_def outcome_simps
      get_range_eq_Some index_range_eq Let_def split: pg_type_len.splits)

lemma kinds_update: "kind b = kind (bs ! i) \<Longrightarrow> map kind (bs[i := b]) = map kind bs"
  by (cases "i < length bs") (simp_all add: map_update list_update_same_conv list_update_beyond)

lemma batch_columns_fill:
  assumes "walk read_datum (data t) (map (\<lambda>i. (types ! i, is_null t i)) is) offset = Ok vs"
    and "\<And>i. batch_is_null hn bm i = is_null t i" and ae: "accepts_exact ae"
    and "cells_ok types pos (map kind bs) is vs cs"
  shows "batch_columns ae types pos (hn, bm, data t) is offset bs = Ok (fill_cells pos (zip is cs) bs)"
  using assms(1,4)
proof (induction "is" arbitrary: offset bs vs cs)
  case Nil
  then show ?case by (simp add: cells_ok_def)
next
  case (Cons i "is")
  obtain c cs' where cs: "cs = c # cs'" using Cons.prems(2) by (cases cs) (simp_all add: cells_ok_def)
  obtain v vs' where vs: "vs = v # vs'" using Cons.prems(2) by (cases vs) (simp_all add: cells_ok_def)
  note ok = Cons.prems(2) [unfolded vs cs cells_ok_Cons]
  let ?t = "types ! i"
  have kinds: "map kind (bs[out := (bs ! out)\<lparr>cells := x\<rparr>]) = map kind bs" for out x
    by (rule kinds_update) simp
  show ?case
  proof (cases "is_null t i")
    case True
    then have w: "walk read_datum (data t) (map (\<lambda>i. (types ! i, is_null t i)) is) offset = Ok vs'" "v = None"
      using Cons.prems(1) vs by (auto simp: outcome_simps)
    have "c = None" if "pos ! i = Some out" for out
      using ok that w(2) by (auto simp: datum_or_null_def)
    then show ?thesis
      using True Cons.IH [OF w(1)] ok
      by (auto simp: assms(2) cs append_null_def kinds split: option.split)
  next
    case False
    let ?o = "align_offset ?t (data t) offset"
    obtain d n where d: "decode_datum ?t (data t) ?o = Ok (d, n)" "v = Some d"
      and w: "walk read_datum (data t) (map (\<lambda>i. (types ! i, is_null t i)) is) (?o + n) = Ok vs'"
      using Cons.prems(1) vs False by (auto simp: outcome_simps read_datum_eq_Ok)
    obtain p where p: "extract_column_bytes (type_len ?t) (data t) ?o = Ok (p, n)" "decode_payload ?t p = Ok d"
      using d(1) by (auto simp: decode_datum_via_extract)
    have fits: "payload_fits (type_len ?t) p" by (rule extract_payload_fits [OF p(1)])
    note skip = extracted_column(1) [OF p(1)] and fixed = extracted_column(2) [OF p(1)]
    have cell: "cell_of_bytes ae (kind (bs ! out)) p = Ok c" if "pos ! i = Some out" for out
    proof -
      have "out < length bs" and "\<exists>tm. kind (bs ! out) = builder_kind_for ?t tm"
        and "cell_of_datum (kind (bs ! out)) d = Ok c"
        using ok that d(2) by (auto simp: datum_or_null_def)
      then show ?thesis using cell_agrees [OF p(2) fits ae] by metis
    qed
    have IH: "batch_columns ae types pos (hn, bm, data t) is (?o + n) bs' = Ok (fill_cells pos (zip is cs') bs')"
      if "map kind bs' = map kind bs" for bs'
      using Cons.IH [OF w, of bs' cs'] ok that by simp
    show ?thesis
    proof (cases "pos ! i")
      case None
      then show ?thesis
        using False skip IH [of bs] fixed
        by (cases "0 < fixed_size ?t") (simp_all add: assms(2) batch_align_eq cs Let_def)
    next
      case (Some out)
      then show ?thesis
        using False p(1) fixed IH cell [OF Some] kinds
        by (cases "0 < fixed_size ?t")
          (simp_all add: assms(2) batch_align_eq cs Let_def append_bytes_def)
    qed
  qed
qed

lemma fill_cells_length [simp]: "length (fill_cells pos ics bs) = length bs"
  by (induction pos ics bs rule: fill_cells.induct) (auto split: option.split)

lemma fill_cells_nth:
  "k < length bs \<Longrightarrow>
    fill_cells pos ics bs ! k =
      (bs ! k)\<lparr>cells := cells (bs ! k) @ map snd (filter (\<lambda>(i, c). pos ! i = Some k) ics)\<rparr>"
  by (induction pos ics bs rule: fill_cells.induct) (auto simp: nth_list_update split: option.split)

lemma fill_cells_kinds: "map kind (fill_cells pos ics bs) = map kind bs"
  by (rule nth_equalityI) (simp_all add: fill_cells_nth)

lemma filter_upt_eq: "filter (\<lambda>i. i = j) [0..<n] = (if j < n then [j] else [])"
  by (induction n) auto

text \<open>What one tuple adds to the builder of output position \<open>k\<close>.\<close>

lemma new_cells:
  assumes "\<forall>c \<in> set proj. c \<le> m" and k: "k < length proj"
  shows "map snd (filter (\<lambda>(i, c). output_positions m proj ! i = Some k)
      (zip [0..<m + 1] (map f [0..<m + 1]))) =
    (if proj ! k \<in> set (drop (Suc k) proj) then [] else [f (proj ! k)])"
proof -
  have z: "zip [0..<m + 1] (map f [0..<m + 1]) = map (\<lambda>i. (i, f i)) [0..<m + 1]"
    by (rule nth_equalityI) (simp_all del: upt_Suc)
  have "filter (\<lambda>i. output_positions m proj ! i = Some k) [0..<m + 1] =
      filter (\<lambda>i. proj ! k = i \<and> i \<notin> set (drop (Suc k) proj)) [0..<m + 1]"
    using output_positions_nth [OF assms(1)] k by (intro filter_cong) auto
  also have "\<dots> = (if proj ! k \<in> set (drop (Suc k) proj) then [] else filter (\<lambda>i. i = proj ! k) [0..<m + 1])"
    by (auto intro!: filter_cong filter_False simp del: upt_Suc)
  also have "\<dots> = (if proj ! k \<in> set (drop (Suc k) proj) then [] else [proj ! k])"
    using assms by (simp add: filter_upt_eq less_Suc_eq_le del: upt_Suc)
  finally show ?thesis
    unfolding z by (simp add: filter_map comp_def del: upt_Suc)
qed

text \<open>The live tuple of a line pointer, and the loop over the line pointers.\<close>

definition live_at :: "pg_snapshot option \<Rightarrow> heap_page_data \<Rightarrow> usize \<Rightarrow> heap_tuple_data list" where
  "live_at snapshot page i =
     (case get_row_data page (word_of_nat i) of
        Ok t \<Rightarrow> if tuple_visible snapshot (header t) then [t] else []
      | _ \<Rightarrow> [])"

definition tuple_slices :: "heap_tuple_data \<Rightarrow> bool \<times> bytes \<times> bytes" where
  "tuple_slices t = (has_flag (header t) (info_mask_u16 HasNull), null_bitmap t, data t)"

lemma batch_tuples_step:
  assumes i: "i < length (lp_items page)" and b: "length (lp_items page) \<le> 65536"
  shows "batch_tuples ae types pos w snapshot page (i # rest) bs =
    (case live_at snapshot page i of
       [] \<Rightarrow> batch_tuples ae types pos w snapshot page rest bs
     | t # _ \<Rightarrow> obind (batch_columns ae types pos (tuple_slices t) [0..<w] 0 bs)
                  (batch_tuples ae types pos w snapshot page rest))"
proof -
  have u: "unat (word_of_nat i :: u16) = i" using i b by (simp add: unsigned_of_nat take_bit_nat_eq_self)
  let ?lp = "lp_items page ! i"
  show ?thesis
  proof (cases "lp_flags ?lp = LP_NORMAL \<and> unat (lp_off ?lp) + unat (lp_len ?lp) \<le> length (page_data page)")
    case True
    let ?raw = "take (unat (lp_len ?lp)) (drop (unat (lp_off ?lp)) (page_data page))"
    have "get_row_data page (word_of_nat i) = parse_and_build ?raw"
      using True i by (simp add: get_row_data_eq u Let_def)
    then show ?thesis
      using True i
      by (cases "parse_and_build ?raw")
        (simp_all add: index_Ok get_range_Some batch_slices_parse live_at_def tuple_slices_def)
  next
    case False
    then have "live_at snapshot page i = []"
      using i by (auto simp: live_at_def get_row_data_eq u Let_def)
    then show ?thesis
      using False i by (auto simp: index_Ok get_range_def)
  qed
qed

lemma batch_tuples_fold:
  assumes b: "length (lp_items page) \<le> 65536" and "\<forall>i \<in> set is. i < length (lp_items page)"
    and "map kind bs = ks"
    and step: "\<And>t bs. t \<in> set (concat (map (live_at snapshot page) is)) \<Longrightarrow> map kind bs = ks \<Longrightarrow>
      batch_columns ae types pos (tuple_slices t) [0..<w] 0 bs = Ok (f t bs) \<and> map kind (f t bs) = ks"
  shows "batch_tuples ae types pos w snapshot page is bs =
    Ok (fold f (concat (map (live_at snapshot page) is)) bs)"
  using assms(2-)
proof (induction "is" arbitrary: bs)
  case (Cons i "is")
  have IH: "batch_tuples ae types pos w snapshot page is bs' =
      Ok (fold f (concat (map (live_at snapshot page) is)) bs')" if "map kind bs' = ks" for bs'
    using Cons.prems(1) that Cons.prems(3) by (intro Cons.IH) auto
  have "i < length (lp_items page)" using Cons.prems(1) by simp
  note eq = batch_tuples_step [OF this b]
  show ?case
  proof (cases "live_at snapshot page i")
    case Nil
    then show ?thesis unfolding eq using IH [OF Cons.prems(2)] by simp
  next
    case live: (Cons t ts)
    then have "ts = []" by (auto simp: live_at_def split: outcome.splits if_splits)
    moreover have "batch_columns ae types pos (tuple_slices t) [0..<w] 0 bs = Ok (f t bs) \<and> map kind (f t bs) = ks"
      using live Cons.prems(2) by (intro Cons.prems(3)) simp_all
    ultimately show ?thesis unfolding eq using live IH [of "f t bs"] by simp
  qed
qed simp

lemma fold_fill_nth:
  assumes "\<And>bs t. length (f t bs) = length bs"
    and "\<And>bs t. k < length bs \<Longrightarrow> f t bs ! k = (bs ! k)\<lparr>cells := cells (bs ! k) @ new t\<rparr>" and "k < length bs"
  shows "length (fold f ts bs) = length bs \<and>
    fold f ts bs ! k = (bs ! k)\<lparr>cells := cells (bs ! k) @ concat (map new ts)\<rparr>"
  using assms(3) by (induction ts arbitrary: bs) (simp_all add: assms(1,2))

definition column_kind :: "pg_schema \<Rightarrow> usize \<Rightarrow> builder_kind" where
  "column_kind s i = builder_kind_for (type_id (columns s ! i)) (typmod (columns s ! i))"

text \<open>The cells \<open>cell t i\<close> are those the row path gives for tuple \<open>t\<close>, in the columns listed.\<close>

definition row_cells :: "pg_schema \<Rightarrow> usize list \<Rightarrow> heap_tuple_data \<Rightarrow> (usize \<Rightarrow> arrow_cell) \<Rightarrow> bool" where
  "row_cells s proj t cell \<longleftrightarrow>
     (case decode_row t s of
        Ok r \<Rightarrow> \<forall>i \<in> set proj. cell_of_datum (column_kind s i) (row_columns r ! i) = Ok (cell i)
      | _ \<Rightarrow> False)"

lemma decode_row_prefix:
  assumes "decode_row t s = Ok r" and "n \<le> num_columns s"
  shows "\<exists>vs. walk read_datum (data t) (walk_cols t s [0..<n]) 0 = Ok vs \<and> length vs = n \<and>
    (\<forall>i < n. datum_or_null (vs ! i) = row_columns r ! i)"
proof -
  obtain vs where vs: "walk read_datum (data t) (walk_cols t s [0..<num_columns s]) 0 = Ok vs"
    and r: "row_columns r = map datum_or_null vs"
    using assms(1) by (auto simp: decode_row_walk outcome_simps)
  have len: "length vs = num_columns s" using walk_length [OF vs] by (simp add: walk_cols_def)
  have "[0..<num_columns s] = [0..<n] @ [n..<num_columns s]"
    using assms(2) upt_add_eq_append [of 0 n "num_columns s - n"] by simp
  then have "walk read_datum (data t) (walk_cols t s [0..<n]) 0 = Ok (take n vs)"
    using walk_prefix [of read_datum "data t" "walk_cols t s [0..<n]" "walk_cols t s [n..<num_columns s]" 0 vs] vs
    by (simp add: walk_cols_def)
  then show ?thesis using len assms(2) r by (intro exI [of _ "take n vs"]) simp
qed

lemma batch_columns_row:
  assumes le: "\<forall>c \<in> set proj. c \<le> m" and m: "m < num_columns s" and ae: "accepts_exact ae"
    and row: "row_cells s proj t cell" and tup: "parse_and_build raw = Ok t"
    and kinds: "map kind bs = map (column_kind s) proj"
  shows "batch_columns ae (map type_id (columns s)) (output_positions m proj) (tuple_slices t) [0..<m + 1] 0 bs =
    Ok (fill_cells (output_positions m proj) (zip [0..<m + 1] (map cell [0..<m + 1])) bs)"
proof -
  obtain r where r: "decode_row t s = Ok r"
    and c: "\<And>i. i \<in> set proj \<Longrightarrow> cell_of_datum (column_kind s i) (row_columns r ! i) = Ok (cell i)"
    using row by (auto simp: row_cells_def split: outcome.splits)
  obtain vs where vs: "walk read_datum (data t) (walk_cols t s [0..<m + 1]) 0 = Ok vs" "length vs = m + 1"
    "\<forall>i < m + 1. datum_or_null (vs ! i) = row_columns r ! i"
    using decode_row_prefix [OF r, of "m + 1"] m by auto
  have wc: "walk_cols t s [0..<m + 1] =
      map (\<lambda>i. (map type_id (columns s) ! i, is_null t i)) [0..<m + 1]"
    using m by (auto simp: walk_cols_def num_columns_def simp del: upt_Suc)
  have "cells_ok (map type_id (columns s)) (output_positions m proj) (map kind bs) [0..<m + 1] vs
      (map cell [0..<m + 1])"
    unfolding cells_ok_def kinds
  proof (intro conjI allI impI)
    fix k out assume k: "k < length [0..<m + 1]" and o: "output_positions m proj ! ([0..<m + 1] ! k) = Some out"
    then have km: "k \<le> m" and nth: "[0..<m + 1] ! k = k" by (simp_all del: upt_Suc)
    have out: "out < length proj" "proj ! out = k"
      using o output_positions_nth [OF le km, of out] unfolding nth by auto
    then show "out < length (map (column_kind s) proj)" by simp
    have K: "map (column_kind s) proj ! out = column_kind s k" using out by simp
    have "map type_id (columns s) ! k = type_id (columns s ! k)" using km m by (simp add: num_columns_def)
    then show "\<exists>tm. map (column_kind s) proj ! out =
        builder_kind_for (map type_id (columns s) ! ([0..<m + 1] ! k)) tm"
      unfolding K nth column_kind_def by auto
    have "k \<in> set proj" using out by auto
    moreover have "datum_or_null (vs ! k) = row_columns r ! k" "map cell [0..<m + 1] ! k = cell k"
      using km vs(3) by (simp_all del: upt_Suc)
    ultimately show "cell_of_datum (map (column_kind s) proj ! out) (datum_or_null (vs ! k)) =
        Ok (map cell [0..<m + 1] ! k)"
      unfolding K using c by simp
  qed (use vs(2) in simp_all)
  then show ?thesis
    unfolding tuple_slices_def
    by (intro batch_columns_fill [OF vs(1) [unfolded wc] batch_is_null_eq [OF tup] ae])
qed

lemma live_tuple_parsed:
  "t \<in> set (concat (map (live_at snapshot page) is)) \<Longrightarrow> \<exists>raw. parse_and_build raw = Ok t"
  by (auto simp: live_at_def get_row_data_eq Let_def split: outcome.splits if_splits)

lemma live_tuples_at: "live_tuples snapshot page = concat (map (live_at snapshot page) [0..<lp_num page])"
  unfolding live_tuples_def live_at_def by (rule refl)

text \<open>The column of output position \<open>k\<close>: only the last occurrence of a schema column gets its cells.\<close>

definition projected_cells ::
    "usize list \<Rightarrow> (heap_tuple_data \<Rightarrow> usize \<Rightarrow> arrow_cell) \<Rightarrow> heap_tuple_data list \<Rightarrow> usize \<Rightarrow> arrow_cell list" where
  "projected_cells proj cell ts k =
     (if proj ! k \<in> set (drop (Suc k) proj) then [] else map (\<lambda>t. cell t (proj ! k)) ts)"

lemma batch_tuples_live:
  assumes le: "\<forall>c \<in> set proj. c \<le> m" and m: "m < num_columns s" and ae: "accepts_exact ae"
    and lps: "length (lp_items page) = lp_num page" "lp_num page \<le> 65536"
    and rows: "\<forall>t \<in> set (live_tuples snapshot page). row_cells s proj t (cell t)"
  shows "batch_tuples ae (map type_id (columns s)) (output_positions m proj) (m + 1) snapshot page [0..<lp_num page]
      (map (\<lambda>i. \<lparr>kind = column_kind s i, cells = []\<rparr>) proj) =
    Ok (map (\<lambda>k. \<lparr>kind = column_kind s (proj ! k),
                  cells = projected_cells proj cell (live_tuples snapshot page) k\<rparr>) [0..<length proj])"
    (is "_ = Ok ?res")
proof -
  let ?pos = "output_positions m proj"
  let ?f = "\<lambda>t. fill_cells ?pos (zip [0..<m + 1] (map (cell t) [0..<m + 1]))"
  let ?bs = "map (\<lambda>i. \<lparr>kind = column_kind s i, cells = []\<rparr>) proj"
  let ?ts = "live_tuples snapshot page"
  have "batch_tuples ae (map type_id (columns s)) ?pos (m + 1) snapshot page [0..<lp_num page] ?bs = Ok (fold ?f ?ts ?bs)"
    unfolding live_tuples_at
  proof (rule batch_tuples_fold [where ks = "map (column_kind s) proj"])
    fix t and bs :: "column_builder list" assume t: "t \<in> set (concat (map (live_at snapshot page) [0..<lp_num page]))"
      and k: "map kind bs = map (column_kind s) proj"
    obtain raw where raw: "parse_and_build raw = Ok t" using live_tuple_parsed [OF t] by auto
    have "row_cells s proj t (cell t)" using rows t unfolding live_tuples_at by blast
    from batch_columns_row [OF le m ae this raw k]
    show "batch_columns ae (map type_id (columns s)) ?pos (tuple_slices t) [0..<m + 1] 0 bs = Ok (?f t bs) \<and>
        map kind (?f t bs) = map (column_kind s) proj"
      by (simp add: fill_cells_kinds k del: upt_Suc)
  qed (use lps in simp_all)
  moreover have "fold ?f ?ts ?bs = ?res"
  proof (rule nth_equalityI)
    let ?new = "\<lambda>k t. if proj ! k \<in> set (drop (Suc k) proj) then [] else [cell t (proj ! k)]"
    have step: "k < length proj \<Longrightarrow> ?f t bs ! k = (bs ! k)\<lparr>cells := cells (bs ! k) @ ?new k t\<rparr>"
      if "k < length bs" for k t and bs :: "column_builder list"
      using fill_cells_nth [OF that] new_cells [OF le, of k "cell t"] by simp
    have F: "length (fold ?f ?ts bs) = length bs \<and>
        fold ?f ?ts bs ! k = (bs ! k)\<lparr>cells := cells (bs ! k) @ concat (map (?new k) ?ts)\<rparr>"
      if "k < length bs" "k < length proj" for k and bs :: "column_builder list"
      using that by (intro fold_fill_nth [where new = "?new k"] step fill_cells_length)
    have "length (fold ?f ts bs) = length bs" for ts and bs :: "column_builder list"
      by (induction ts arbitrary: bs) simp_all
    then show "length (fold ?f ?ts ?bs) = length ?res" by simp
    fix k assume "k < length (fold ?f ?ts ?bs)"
    then have k: "k < length ?bs" "k < length proj"
      using \<open>\<And>ts bs. length (fold ?f ts bs) = length bs\<close> by simp_all
    have "concat (map (?new k) ?ts) = projected_cells proj cell ?ts k"
      by (simp add: projected_cells_def)
    then show "fold ?f ?ts ?bs ! k = ?res ! k"
      using F [OF k] k(2) by simp
  qed
  ultimately show ?thesis by simp
qed

lemma builders_kinds:
  assumes "\<forall>i \<in> set proj. i < num_columns s"
  shows "omap (\<lambda>i. obind (unwrap_opt (column s i)) (\<lambda>c. Ok (column_builder_for c))) proj =
    Ok (map (\<lambda>i. \<lparr>kind = column_kind s i, cells = []\<rparr>) proj)"
  using assms
  by (intro omap_all_Ok) (simp add: column_def num_columns_def column_builder_for_def column_kind_def)

lemma to_record_batch_live:
  assumes proj: "proj \<noteq> []" "\<forall>i \<in> set proj. i < num_columns s"
    and ae: "accepts_exact (fixed_append_error lib)"
    and lps: "length (lp_items page) = lp_num page" "lp_num page \<le> 65536"
    and rows: "\<forall>t \<in> set (live_tuples snapshot page). row_cells s proj t (cell t)"
  shows "to_record_batch lib page s (Some proj) snapshot =
    map_err ArrowConversionFailed
      (try_new lib (map (\<lambda>i. to_arrow_field (columns s ! i)) proj)
        (map (\<lambda>k. finish_array lib (column_kind s (proj ! k))
                     (projected_cells proj cell (live_tuples snapshot page) k)) [0..<length proj]))"
proof -
  define m where "m = Max (set proj)"
  have le: "\<forall>c \<in> set proj. c \<le> m" using proj(1) by (simp add: m_def)
  have "m \<in> set proj" using proj(1) by (simp add: m_def)
  then have m: "m < num_columns s" using proj(2) by simp
  show ?thesis
    using proj batch_tuples_live [OF le m ae lps rows]
    by (simp add: to_record_batch_def Let_def project_eq builders_kinds to_arrow_schema_def pg_schema_new_def
        finish_def comp_def flip: m_def)
qed

lemma output_positions_id: "output_positions m [0..<Suc m] = map Some [0..<Suc m]"
proof (rule nth_equalityI)
  fix i assume "i < length (output_positions m [0..<Suc m])"
  then have i: "i \<le> m" by simp
  have "output_positions m [0..<Suc m] ! i = Some i"
    using i by (subst output_positions_nth) (auto simp del: upt_Suc simp: drop_upt)
  then show "output_positions m [0..<Suc m] ! i = map Some [0..<Suc m] ! i"
    using i by (simp del: upt_Suc)
qed (simp del: upt_Suc)

text \<open>A page of two tuples, the second one deleted, of \<open>sample_schema\<close>.\<close>

definition sample_rest :: bytes where
  "sample_rest =
     tuple_bytes (sample_tuple [5] [5, 0, 0, 0, 7, 0, 0, 0]) [] @
     tuple_bytes (sample_tuple [5] [6, 0, 0, 0, 8, 0, 0, 0]
       \<lparr>header := (header (sample_tuple [5] []))\<lparr>t_xmax := 9\<rparr>\<rparr>) [] @ replicate 8096 0"

definition sample_page :: heap_page_data where
  "sample_page =
     (let h = \<lparr>pd_lsn = \<lparr>xlogid = 0, xrecoff = 0\<rparr>, pd_checksum = 0, pd_flags = 0, pd_lower = 32,
                pd_upper = 32, pd_special = 8192, pd_pagesize_version = 8196, pd_prune_xid = 0\<rparr>;
          lps = [item_id_pack 32 1 32, item_id_pack 64 1 32]
      in \<lparr>page_header = h, lp_num = 2, lp_items = lps,
          page_data = page_header_bytes h @ concat (map item_id_bytes lps) @ sample_rest\<rparr>)"

text \<open>An Arrow library whose arrays are the logs of their builders.\<close>

definition log_lib :: "(builder_kind \<times> arrow_cell list, (builder_kind \<times> arrow_cell list) list) arrow_lib" where
  "log_lib =
     \<lparr>fixed_append_error = (\<lambda>w bs. if sint w = int (length bs) then None else Some ''width''),
      finish_array = Pair,
      try_new = (\<lambda>fields arrs. if length fields = length arrs then Ok arrs else Err ''columns''),
      try_new_empty = (\<lambda>fields. Ok [])\<rparr>"

lemma log_lib_exact: "accepts_exact (fixed_append_error log_lib)"
  by (simp add: accepts_exact_def log_lib_def)

lemma sample_parse:
  "length (null_bitmap t) = bitmap_len (header t) \<Longrightarrow> unat (t_hoff (header t)) = 23 + bitmap_len (header t) \<Longrightarrow>
    parse_and_build (tuple_bytes t []) = Ok t"
  by (rule parse_and_build_tuple_bytes) simp_all

abbreviation sample_deleted :: heap_tuple_data where
  "sample_deleted \<equiv> sample_tuple [5] [6, 0, 0, 0, 8, 0, 0, 0]
     \<lparr>header := (header (sample_tuple [5] []))\<lparr>t_xmax := 9\<rparr>\<rparr>"

lemma sample_slots:
  "get_row_data sample_page 0 = Ok (sample_tuple [5] [5, 0, 0, 0, 7, 0, 0, 0])"
  "get_row_data sample_page 1 = Ok sample_deleted"
proof -
  let ?a = "sample_tuple [5] [5, 0, 0, 0, 7, 0, 0, 0]" and ?b = "sample_deleted"
  have len: "length (tuple_bytes ?a []) = 32" "length (tuple_bytes ?b []) = 32"
    by (simp_all add: tuple_bytes_def sample_tuple_def)
  have bm: "bitmap_len (header ?a) = 1" "bitmap_len (header ?b) = 1"
    by (simp_all add: bitmap_len_def sample_tuple_def has_flag_def natts_of_def div_ceil_def HEAP_NATTS_MASK_def)
  have p: "parse_and_build (tuple_bytes ?a []) = Ok ?a" "parse_and_build (tuple_bytes ?b []) = Ok ?b"
    using bm by (auto intro!: sample_parse simp: sample_tuple_def)
  have f: "lp_off (item_id_pack 32 1 32) = 32" "lp_flags (item_id_pack 32 1 32) = 1" "lp_len (item_id_pack 32 1 32) = 32"
    "lp_off (item_id_pack 64 1 32) = 64" "lp_flags (item_id_pack 64 1 32) = 1" "lp_len (item_id_pack 64 1 32) = 32"
    by (rule item_id_pack_fields; simp)+
  show "get_row_data sample_page 0 = Ok ?a" "get_row_data sample_page 1 = Ok ?b"
    using len p by (simp_all add: get_row_data_eq sample_page_def sample_rest_def Let_def f lp_consts)
qed

lemma sample_live: "live_tuples snapshot sample_page = [sample_tuple [5] [5, 0, 0, 0, 7, 0, 0, 0]]"
proof -
  have "tuple_visible snapshot (header (sample_tuple [5] [5, 0, 0, 0, 7, 0, 0, 0]))"
    and "\<not> tuple_visible snapshot (header sample_deleted)"
    by (simp_all add: tuple_visible_def sample_tuple_def has_flag_def xmin_visible_def FROZEN_XID_def split: option.split)
  moreover have "lp_num sample_page = Suc (Suc 0)" by (simp add: sample_page_def Let_def)
  ultimately show ?thesis by (simp add: live_tuples_def sample_slots)
qed

lemma sample_page_parse: "page_parse_bytes (page_data sample_page) = Ok sample_page"
proof -
  let ?h = "page_header sample_page" and ?lps = "lp_items sample_page"
  have d: "page_data sample_page = page_header_bytes ?h @ concat (map item_id_bytes ?lps) @ sample_rest"
    by (simp add: sample_page_def Let_def)
  have h: "page_header_parse (page_data sample_page) = Ok ?h"
    unfolding d by (rule page_header_parse_roundtrip)
  have n: "num_line_pointers ?h = 2" "length ?lps = 2"
    by (simp_all add: sample_page_def num_line_pointers_def Let_def)
  have len: "8192 \<le> length (page_data sample_page)"
    by (simp add: d sample_rest_def)
      (simp add: tuple_bytes_def sample_tuple_def sample_page_def Let_def)
  have "map (line_pointer_at (page_data sample_page)) [0..<2] = ?lps"
    using n by (intro nth_equalityI) (simp_all add: d line_pointer_at_concat)
  then show ?thesis
    using len n unfolding page_parse_bytes_eq [OF h]
    by (simp add: sample_page_def Let_def)
qed

lemma parsed_page_pointers:
  assumes "page_parse_bytes buf = Ok page"
  shows "length (lp_items page) = lp_num page" and "lp_num page \<le> 16377"
  using assms num_line_pointers_bound
  by (auto simp: page_parse_bytes_def outcome_simps Let_def dest!: omap_length split: if_splits)

section \<open>Properties\<close>

text \<open>
  C1: The Arrow path builds the same table as the row path.  When every live tuple of a page decodes
  and its values convert, \<open>to_record_batch\<close> hands \<open>RecordBatch::try_new\<close> the Arrow fields of the
  projected columns and, per output position, the array of the converted values of \<open>decode_row\<close>, one
  per live tuple in line pointer order; the tuples left out are those \<open>get_row_data\<close> rejects, those
  with a valid \<open>xmax\<close> and those invisible to the snapshot.  An index that is projected more than once
  fills only its last position.
\<close>

theorem to_record_batch_rows:
  assumes "page_parse_bytes buf = Ok page"
    and "proj \<noteq> []" and "\<forall>i \<in> set proj. i < num_columns s"
    and "accepts_exact (fixed_append_error lib)"
    and "\<forall>t \<in> set (live_tuples snapshot page). row_cells s proj t (cell t)"
  shows "to_record_batch lib page s (Some proj) snapshot =
    map_err ArrowConversionFailed
      (try_new lib (map (\<lambda>i. to_arrow_field (columns s ! i)) proj)
        (map (\<lambda>k. finish_array lib (column_kind s (proj ! k))
                     (if proj ! k \<in> set (drop (Suc k) proj) then []
                      else map (\<lambda>t. cell t (proj ! k)) (live_tuples snapshot page))) [0..<length proj]))"
proof -
  have lps: "length (lp_items page) = lp_num page" "lp_num page \<le> 65536"
    using parsed_page_pointers [OF assms(1)] by simp_all
  show ?thesis
    using to_record_batch_live [OF assms(2-4) lps assms(5)] by (simp add: projected_cells_def)
qed

theorem to_record_batch_rows_witness:
  "to_record_batch log_lib sample_page sample_schema (Some [2, 1]) None =
    Ok [(B_Int4, [Some (AV_Int32 7)]), (B_Utf8, [None])]"
proof -
  let ?t = "sample_tuple [5] [5, 0, 0, 0, 7, 0, 0, 0]"
  let ?cell = "\<lambda>t i. if i = 2 then Some (AV_Int32 7) else None"
  have "row_cells sample_schema [2, 1] ?t (?cell ?t)"
    by (simp add: row_cells_def sample_decode column_kind_def builder_kind_for_def)
  then have "\<forall>t \<in> set (live_tuples None sample_page). row_cells sample_schema [2, 1] t (?cell t)"
    by (simp add: sample_live)
  moreover have "\<forall>i \<in> set [2, 1]. i < num_columns sample_schema"
    by (simp add: sample_schema_def pg_schema_new_def num_columns_def)
  ultimately show ?thesis
    using to_record_batch_rows [OF sample_page_parse _ _ log_lib_exact, of "[2, 1]" sample_schema None ?cell]
    by (simp add: sample_live log_lib_def column_kind_def builder_kind_for_def sample_schema_def pg_schema_new_def
        pg_column_new_def)
qed

text \<open>
  Without a projection, \<open>to_record_batch\<close> does what it does for the projection on all columns in
  order, and both decide visibility and tuple layout as \<open>parse_and_build\<close> does.
\<close>

theorem to_record_batch_all_columns:
  assumes "columns s \<noteq> []"
  shows "to_record_batch lib page s None snapshot =
    to_record_batch lib page s (Some [0..<num_columns s]) snapshot"
proof -
  obtain m where m: "num_columns s = Suc m" using assms by (cases "columns s") (simp_all add: num_columns_def)
  have Max: "Max {0..<Suc m} = m"
    by (rule Max_eqI) (auto simp del: upt_Suc)
  have all: "map ((!) (columns s)) [0..<Suc m] = columns s"
    using map_nth [of "columns s"] m by (simp add: num_columns_def del: upt_Suc)
  have builders: "omap (\<lambda>i. obind (unwrap_opt (column s i)) (\<lambda>c. Ok (column_builder_for c))) [0..<Suc m] =
      Ok (map column_builder_for (columns s))"
  proof -
    have "omap (\<lambda>i. obind (unwrap_opt (column s i)) (\<lambda>c. Ok (column_builder_for c))) [0..<Suc m] =
        Ok (map (\<lambda>i. column_builder_for (columns s ! i)) [0..<Suc m])"
      using m by (intro omap_all_Ok) (simp add: column_def num_columns_def del: upt_Suc)
    also have "map (\<lambda>i. column_builder_for (columns s ! i)) [0..<Suc m] = map column_builder_for (columns s)"
      by (subst (2) all [symmetric]) (simp del: upt_Suc)
    finally show ?thesis .
  qed
  have "project s [0..<Suc m] = Ok s"
    using m by (simp add: project_eq all pg_schema_new_def del: upt_Suc)
  then show ?thesis
    by (simp add: to_record_batch_def m Max builders output_positions_id Let_def del: upt_Suc)
qed

theorem to_record_batch_all_columns_witness:
  "columns sample_schema \<noteq> [] \<and>
    to_record_batch log_lib sample_page sample_schema None None =
    to_record_batch log_lib sample_page sample_schema (Some [0..<3]) None"
proof -
  have "columns sample_schema \<noteq> []" "num_columns sample_schema = 3"
    by (simp_all add: sample_schema_def pg_schema_new_def num_columns_def)
  then show ?thesis using to_record_batch_all_columns [of sample_schema log_lib sample_page None] by simp
qed

text \<open>
  C12: \<open>append_bytes\<close> after \<open>extract_column_bytes\<close> appends what \<open>decode_datum\<close> finds: for each of the
  66 types, when a column decodes to a datum, the extractor returns a payload of the same extent and
  the builder of that type appends the datum's Arrow value (dates and timestamps moved to the Unix
  epoch, numerics brought to the column's scale, which may panic on overflow).
\<close>

theorem append_bytes_of_datum:
  assumes "decode_datum t buf offset = Ok (d, n)" and "accepts_exact ae" and "kind b = builder_kind_for t tm"
  shows "\<exists>p. extract_column_bytes (type_len t) buf offset = Ok (p, n) \<and>
    append_bytes ae b p = obind (cell_of_datum (kind b) d) (\<lambda>c. Ok (b\<lparr>cells := cells b @ [c]\<rparr>))"
proof -
  obtain p where p: "extract_column_bytes (type_len t) buf offset = Ok (p, n)" "decode_payload t p = Ok d"
    using assms(1) by (auto simp: decode_datum_via_extract)
  have "cell_of_bytes ae (builder_kind_for t tm) p = cell_of_datum (builder_kind_for t tm) d"
    by (rule cell_agrees [OF p(2) extract_payload_fits [OF p(1)] assms(2)])
  then show ?thesis using p(1) assms(3) by (intro exI [of _ p]) (simp add: append_bytes_def)
qed

theorem append_bytes_of_datum_witness:
  "append_bytes (fixed_append_error log_lib) \<lparr>kind = B_Date, cells = []\<rparr> [1, 0, 0, 0] =
    Ok \<lparr>kind = B_Date, cells = [Some (AV_Int32 10958)]\<rparr>"
proof -
  have d: "decode_datum T_Date [1, 0, 0, 0] 0 = Ok (D_Date 1, 4)"
    by (simp add: decode_datum_def decode_fixed_arms scalar_def get_range_def read_uint_defs read_simps check_len_def)
  obtain p where p: "extract_column_bytes (type_len T_Date) [1, 0, 0, 0] 0 = Ok (p, 4)"
    "append_bytes (fixed_append_error log_lib) \<lparr>kind = B_Date, cells = []\<rparr> p =
      obind (cell_of_datum B_Date (D_Date 1)) (\<lambda>c. Ok \<lparr>kind = B_Date, cells = [c]\<rparr>)"
    using append_bytes_of_datum [OF d log_lib_exact, of "\<lparr>kind = B_Date, cells = []\<rparr>" "-1"]
    by (auto simp: builder_kind_for_def)
  then show ?thesis
    by (auto simp: extract_column_bytes_def outcome_simps get_range_def shifted_date_def checked_word_def
        DAYS_EPOCH_SHIFT_def)
qed

text \<open>
  The tests of the Arrow path on a raw tuple are those of the row path: a tuple is walked exactly
  when \<open>parse_and_build\<close> accepts its bytes and its header is visible, with the same null flag, null
  bitmap and attribute data.
\<close>

theorem batch_slices_agree:
  "batch_slices snapshot raw =
    (case parse_and_build raw of
       Ok t \<Rightarrow>
         if (has_flag (header t) (info_mask_u16 XmaxInvalid) \<or> t_xmax (header t) = 0) \<and>
            (case snapshot of Some snap \<Rightarrow> xmin_visible snap (t_xmin (header t)) | None \<Rightarrow> True)
         then Some (has_flag (header t) (info_mask_u16 HasNull), null_bitmap t, data t) else None
     | _ \<Rightarrow> None)"
  unfolding batch_slices_parse tuple_visible_def by (rule refl)

text \<open>
  The two paths differ on a tuple whose data ends before a fixed-width column, such as one written
  before the column was added: the row path reports a decode error, the Arrow path slices out of range
  and panics.
\<close>

theorem short_tuple_panics:
  assumes "length (data t) < 4" and "null_bitmap t = []"
    and "s = pg_schema_new nm [pg_column_new a T_Int4 nn tm]"
  shows "(\<exists>detail. decode_row t s = Err (DecodeError detail)) \<and>
    batch_columns ae [T_Int4] [Some 0] (False, [], data t) [0] 0 [column_builder_new T_Int4] = Panic"
proof -
  have "\<not> is_null t 0" using is_null_no_bitmap [OF assms(2)] .
  then have "\<exists>detail. decode_row t s = Err (DecodeError detail)"
    using assms(1) by (simp add: decode_row_def assms(3) pg_schema_new_def pg_column_new_def num_columns_def
        column_def get_column_index align_offset_def decode_datum_def get_range_def Let_def)
  moreover have "batch_columns ae [T_Int4] [Some 0] (False, [], data t) [0] 0 [column_builder_new T_Int4] = Panic"
    using assms(1) by (simp add: batch_is_null_def batch_align_def fixed_size_def extract_fixed_bytes_def
        Let_def outcome_simps)
  ultimately show ?thesis by simp
qed

theorem short_tuple_panics_witness:
  "batch_columns (fixed_append_error log_lib) [T_Int4] [Some 0] (False, [], []) [0] 0 [column_builder_new T_Int4] = Panic"
  using short_tuple_panics [of "sample_tuple [] []" "pg_schema_new ''t'' [pg_column_new ''a'' T_Int4 True 0]" "''t''" "''a''" True 0
      "fixed_append_error log_lib"]
  by (simp add: sample_tuple_def)

text \<open>
  Dates and timestamps are moved from the PostgreSQL epoch (2000-01-01) to the Unix epoch, and
  exactly the values within 10957 days (946684800 seconds) of the maximum overflow; \<open>infinity\<close>, which
  PostgreSQL stores as the maximum, is one of them.
\<close>

theorem append_epoch_shift:
  "append_bytes ae \<lparr>kind = B_Date, cells = cs\<rparr> (u32_bytes d) =
    (if sint d \<le> 2147483647 - 10957
     then Ok \<lparr>kind = B_Date, cells = cs @ [Some (AV_Int32 (d + 10957))]\<rparr> else Panic) \<and>
   append_bytes ae \<lparr>kind = B_Timestamp, cells = cs\<rparr> (u64_bytes v) =
    (if sint v \<le> 9223372036854775807 - 946684800000000
     then Ok \<lparr>kind = B_Timestamp, cells = cs @ [Some (AV_Int64 (v + 946684800000000))]\<rparr> else Panic)"
proof -
  have "- 2147483648 \<le> sint d" "- 9223372036854775808 \<le> sint v"
    using sint_greater_eq [of d] sint_greater_eq [of v] by simp_all
  moreover have "(read_u32 (u32_bytes d) 0 :: u32 pg_result) = Ok d" "(read_u64 (u64_bytes v) 0 :: u64 pg_result) = Ok v"
    using u32.read_at [of 0 "u32_bytes d" d "[]"] u64.read_at [of 0 "u64_bytes v" v "[]"]
    by (simp_all add: read_uint_defs)
  ultimately show ?thesis
    by (auto simp: append_bytes_def cell_of_bytes_def shifted_date_def shifted_timestamp_def checked_word_def
        DAYS_EPOCH_SHIFT_def USECS_EPOCH_SHIFT_def)
qed

end
