(* ===== verification/DataDir.thy ===== *)
theory DataDir
  imports Prelude
begin

text \<open>
  The data directory of \<open>src/file/mod.rs\<close>.  \<open>DATA_DIR\<close>, a \<open>OnceLock\<close>, is a state of type
  \<open>string option\<close> that the first \<open>set_data_dir\<close> fixes.  What \<open>get_data_dir\<close> reads when it is not set
  is the parameter \<open>config_env\<close>: the process environment, the file system, and the \<open>toml\<close> crate (its
  parser and the two lookups on its values).
\<close>

type_synonym data_dir_cell = "string option"

record 'v config_env =
  env_var :: "string \<Rightarrow> string option"
  manifest_dir :: string
  read_to_string :: "string \<Rightarrow> (string, string) outcome"
  parse_table :: "string \<Rightarrow> (string, 'v) outcome"
  value_get :: "'v \<Rightarrow> string \<Rightarrow> 'v option"
  value_as_str :: "'v \<Rightarrow> string option"

text \<open>\<open>DATA_DIR.set(path).ok()\<close>: a cell that is set keeps its value.\<close>

definition set_data_dir :: "string \<Rightarrow> data_dir_cell \<Rightarrow> data_dir_cell" where
  "set_data_dir path cell = (case cell of None \<Rightarrow> Some path | Some dir \<Rightarrow> Some dir)"

text \<open>\<open>PathBuf::join\<close> with a relative path.\<close>

definition path_join :: "string \<Rightarrow> string \<Rightarrow> string" where
  "path_join dir name =
     (if dir = [] \<or> last dir = CHR ''/'' then dir @ name else dir @ ''/'' @ name)"

definition get_data_dir :: "'v config_env \<Rightarrow> data_dir_cell \<Rightarrow> (string, string) outcome" where
  "get_data_dir env cell =
     (case cell of
        Some dir \<Rightarrow> Ok dir
      | None \<Rightarrow>
          let config_path =
                (case env_var env ''PG_ARROW_TEST_CONFIG'' of
                   Some p \<Rightarrow> p
                 | None \<Rightarrow> path_join (manifest_dir env) ''pg-test-config.toml'')
          in
          obind (read_to_string env config_path) (\<lambda>config_str.
          obind (parse_table env config_str) (\<lambda>v.
            case Option.bind (Option.bind (Option.bind (value_get env v ''postgres'')
                    (\<lambda>v. value_get env v ''pg18'')) (\<lambda>v. value_get env v ''data_dir'')) (value_as_str env) of
              Some data_dir \<Rightarrow> Ok data_dir
            | None \<Rightarrow> Ok [])))"

text \<open>
  The data directory can be set once: from any state, after a call of \<open>set_data_dir\<close> the directory
  that \<open>get_data_dir\<close> returns is fixed, whatever calls follow, and it is the argument of the first call
  ever made; the configuration file is not consulted any more.
\<close>

theorem data_dir_set_once:
  "get_data_dir env (fold set_data_dir later (set_data_dir path cell)) =
    Ok (case cell of None \<Rightarrow> path | Some dir \<Rightarrow> dir)"
proof -
  have "fold set_data_dir later (Some dir) = Some dir" for dir
    by (induction later) (simp_all add: set_data_dir_def)
  then show ?thesis
    by (cases cell) (simp_all add: set_data_dir_def get_data_dir_def)
qed

end
