(* ===== verification/Reader.thy ===== *)
theory Reader
  imports Page DataDir
begin

text \<open>
  \<open>TableFileReader\<close>, \<open>PageReader\<close> and \<open>PageRowIter\<close> of \<open>src/file/reader.rs\<close>: from the segment files
  of a relation to its pages and tuples.

  The operating system is the parameter \<open>file_system\<close>.  An open file is a handle; a \<open>BufReader<File>\<close>
  is a handle with its position.  The reader of the program has interior state, the cached segment
  file, and every operation returns it updated.
\<close>

section \<open>The file system\<close>

datatype io_error = NotFound | OtherIo

record 'h file_system =
  metadata_len :: "string \<Rightarrow> (io_error, usize) outcome"
  open_file :: "string \<Rightarrow> 'h option"
  pread :: "'h \<Rightarrow> usize \<Rightarrow> usize \<Rightarrow> bytes option"  \<comment> \<open>handle, byte count, offset; \<open>None\<close> is a negative result\<close>
  seek_ok :: "'h \<Rightarrow> usize \<Rightarrow> bool"

text \<open>
  \<open>Read::read_exact\<close>: reads until the count is reached; an empty read is the end of the file.  The
  result is the bytes, \<open>None\<close> on an error, and the position after the last read.
\<close>

function read_exact :: "'h file_system \<Rightarrow> 'h \<Rightarrow> usize \<Rightarrow> usize \<Rightarrow> bytes option \<times> usize" where
  "read_exact fs h pos n =
     (if n = 0 then (Some [], pos)
      else
        (case pread fs h n pos of
           None \<Rightarrow> (None, pos)
         | Some got \<Rightarrow>
             if got = [] then (None, pos)
             else
               (case read_exact fs h (pos + length got) (n - length got) of
                  (Some rest, pos') \<Rightarrow> (Some (got @ rest), pos')
                | (None, pos') \<Rightarrow> (None, pos'))))"
  by pat_completeness auto
termination
  by (relation "measure (\<lambda>(fs, h, pos, n). n)") auto

declare read_exact.simps [simp del]

section \<open>Segment files\<close>

record 'h table_file_reader =
  relation_id :: usize
  db_id :: usize
  segment_cache :: "(usize \<times> 'h) option"

definition table_file_reader_new :: "usize \<Rightarrow> usize \<Rightarrow> 'h table_file_reader" where
  "table_file_reader_new db rel = \<lparr>relation_id = rel, db_id = db, segment_cache = None\<rparr>"

definition page_file_and_offset ::
    "(string, string) outcome \<Rightarrow> 'h table_file_reader \<Rightarrow> usize \<Rightarrow> (string \<times> usize) pg_result" where
  "page_file_and_offset data_dir r page_index =
     (let segment_num = page_index div PAGES_PER_SEGMENT;
          page_in_segment = page_index mod PAGES_PER_SEGMENT
      in
      obind (unwrap data_dir) (\<lambda>dir.
      let table_file =
            (if db_id r = 0 then dir @ ''/global/'' @ show_nat (relation_id r)
             else dir @ ''/base/'' @ show_nat (db_id r) @ ''/'' @ show_nat (relation_id r));
          segment_path =
            (if segment_num = 0 then table_file else table_file @ ''.'' @ show_nat segment_num)
      in Ok (segment_path, page_in_segment * PAGE_BUFFER_SIZE)))"

text \<open>\<open>impl Default\<close>\<close>

definition table_file_reader_default :: "'h table_file_reader" where
  "table_file_reader_default = \<lparr>relation_id = 0, db_id = 0, segment_cache = None\<rparr>"

record segment_size =
  seg_path :: string
  seg_bytes :: usize
  seg_pages :: usize

text \<open>
  One turn of the loop of \<open>segment_sizes\<close>: the segment that is pushed, if any, and whether the walk
  goes on.  The loop itself may run for as long as full segments follow each other.
\<close>

definition segment_step ::
    "'h file_system \<Rightarrow> (string, string) outcome \<Rightarrow> 'h table_file_reader \<Rightarrow> usize \<Rightarrow>
     (segment_size option \<times> bool) pg_result" where
  "segment_step fs data_dir r segno =
     (let first_page_of_segment = segno * PAGES_PER_SEGMENT in
      obind (page_file_and_offset data_dir r first_page_of_segment) (\<lambda>(path, _).
      case metadata_len fs path of
        Ok bytes \<Rightarrow>
          let pages = bytes div PAGE_BUFFER_SIZE in
          Ok (Some \<lparr>seg_path = path, seg_bytes = bytes, seg_pages = pages\<rparr>, \<not> pages < PAGES_PER_SEGMENT)
      | Err NotFound \<Rightarrow> Ok (None, False)
      | Err OtherIo \<Rightarrow> Err Generic
      | Panic \<Rightarrow> Panic))"

partial_function (option) segment_loop ::
    "'h file_system \<Rightarrow> (string, string) outcome \<Rightarrow> 'h table_file_reader \<Rightarrow> usize \<Rightarrow> segment_size list \<Rightarrow>
     segment_size list pg_result option" where
  "segment_loop fs data_dir r segno out =
     (case segment_step fs data_dir r segno of
        Ok (None, _) \<Rightarrow> Some (Ok out)
      | Ok (Some seg, full) \<Rightarrow>
          if full then segment_loop fs data_dir r (segno + 1) (out @ [seg]) else Some (Ok (out @ [seg]))
      | Err e \<Rightarrow> Some (Err e)
      | Panic \<Rightarrow> Some Panic)"

definition segment_sizes ::
    "'h file_system \<Rightarrow> (string, string) outcome \<Rightarrow> 'h table_file_reader \<Rightarrow> segment_size list pg_result option" where
  "segment_sizes fs data_dir r = segment_loop fs data_dir r 0 []"

definition num_pages ::
    "'h file_system \<Rightarrow> (string, string) outcome \<Rightarrow> 'h table_file_reader \<Rightarrow> usize pg_result option" where
  "num_pages fs data_dir r =
     map_option (\<lambda>segs. obind segs (\<lambda>segs. Ok (sum_list (map seg_pages segs)))) (segment_sizes fs data_dir r)"

section \<open>Reading pages in bulk\<close>

text \<open>The cached file of the segment, or the file opened and cached now; \<open>None\<close> when it does not open.\<close>

definition segment_file ::
    "'h file_system \<Rightarrow> (string, string) outcome \<Rightarrow> 'h table_file_reader \<Rightarrow> usize \<Rightarrow>
     'h option pg_result \<times> 'h table_file_reader" where
  "segment_file fs data_dir r page_idx =
     (let segment_num = page_idx div PAGES_PER_SEGMENT;
          cached = (case segment_cache r of
                      Some (cached_seg, fd) \<Rightarrow> if cached_seg = segment_num then Some fd else None
                    | None \<Rightarrow> None)
      in
      (case cached of
         Some fd \<Rightarrow> (Ok (Some fd), r)
       | None \<Rightarrow>
           (case page_file_and_offset data_dir r page_idx of
              Ok (segment_path, _) \<Rightarrow>
                (case open_file fs segment_path of
                   Some f \<Rightarrow> (Ok (Some f), r\<lparr>segment_cache := Some (segment_num, f)\<rparr>)
                 | None \<Rightarrow> (Ok None, r))
            | Err e \<Rightarrow> (Err e, r)
            | Panic \<Rightarrow> (Panic, r))))"

lemma bulk_progress:
  assumes "page_idx < end_page"
    and "min (end_page - page_idx) (PAGES_PER_SEGMENT - page_idx mod PAGES_PER_SEGMENT) * PAGE_BUFFER_SIZE \<le> n"
  shows "end_page - (page_idx + n div PAGE_BUFFER_SIZE) < end_page - page_idx"
proof -
  have "0 < PAGES_PER_SEGMENT" by (simp add: PAGES_PER_SEGMENT_def PAGE_BUFFER_SIZE_def)
  then have "0 < min (end_page - page_idx) (PAGES_PER_SEGMENT - page_idx mod PAGES_PER_SEGMENT)"
    using assms(1) by simp
  then have "PAGE_BUFFER_SIZE \<le> n"
    using assms(2) by (metis One_nat_def Suc_leI le_trans mult_1 mult_le_mono1)
  then have "0 < n div PAGE_BUFFER_SIZE"
    by (simp add: div_greater_zero_iff PAGE_BUFFER_SIZE_def)
  then show ?thesis using assms(1) by linarith
qed

text \<open>
  The loop of \<open>read_pages_bulk\<close>.  \<open>buf\<close> is the part of the buffer before \<open>buf_offset\<close>; what a read
  leaves behind it is overwritten by the next read or cut off at the end.
\<close>

function bulk_loop ::
    "'h file_system \<Rightarrow> (string, string) outcome \<Rightarrow> usize \<Rightarrow> usize \<Rightarrow> bytes \<Rightarrow> 'h table_file_reader \<Rightarrow>
     bytes pg_result \<times> 'h table_file_reader" where
  "bulk_loop fs data_dir end_page page_idx buf r =
     (if \<not> page_idx < end_page then (Ok buf, r)
      else
        let page_in_segment = page_idx mod PAGES_PER_SEGMENT;
            offset_in_segment = page_in_segment * PAGE_BUFFER_SIZE;
            pages_left_in_segment = PAGES_PER_SEGMENT - page_in_segment;
            pages_to_read = min (end_page - page_idx) pages_left_in_segment;
            read_bytes = pages_to_read * PAGE_BUFFER_SIZE
        in
        (case segment_file fs data_dir r page_idx of
           (Ok None, r) \<Rightarrow> (Ok buf, r)
         | (Ok (Some fd), r) \<Rightarrow>
             (case pread fs fd read_bytes offset_in_segment of
                None \<Rightarrow> (Ok buf, r)
              | Some got \<Rightarrow>
                  if got = [] then (Ok buf, r)
                  else
                    let pages_read = length got div PAGE_BUFFER_SIZE;
                        buf' = buf @ take (pages_read * PAGE_BUFFER_SIZE) got
                    in if length got < read_bytes then (Ok buf', r)
                       else bulk_loop fs data_dir end_page (page_idx + pages_read) buf' r)
         | (Err e, r) \<Rightarrow> (Err e, r)
         | (Panic, r) \<Rightarrow> (Panic, r)))"
  by pat_completeness auto
termination
proof (relation "measure (\<lambda>(fs, dir, end_page, page_idx, buf, r). end_page - page_idx)", goal_cases)
  case 1
  show ?case by (rule wf_measure)
next
  case (2 fs data_dir end_page page_idx buf r in_segment offset left to_read read_bytes res r' opened fd got pages_read buf')
  have "read_bytes = min (end_page - page_idx) (PAGES_PER_SEGMENT - page_idx mod PAGES_PER_SEGMENT) * PAGE_BUFFER_SIZE"
    by (simp only: 2(2) 2(4) 2(5) 2(6))
  with 2(1) 2(14) show ?case
    using bulk_progress [of page_idx end_page "length got"] by (simp only: in_measure prod.case 2(12)) linarith
qed

declare bulk_loop.simps [simp del]

text \<open>
  The buffer is allocated up front: \<open>vec![0u8; n]\<close> panics above \<open>isize::MAX\<close> bytes, and the two
  computations of its size and of the end are checked.
\<close>

definition read_pages_bulk ::
    "'h file_system \<Rightarrow> (string, string) outcome \<Rightarrow> 'h table_file_reader \<Rightarrow> usize \<Rightarrow> usize \<Rightarrow>
     (bytes \<times> usize) pg_result \<times> 'h table_file_reader" where
  "read_pages_bulk fs data_dir r start_page count =
     (if count = 0 then (Ok ([], 0), r)
      else if 2 ^ 63 \<le> count * PAGE_BUFFER_SIZE \<or> 2 ^ 64 \<le> start_page + count then (Panic, r)
      else
        (case bulk_loop fs data_dir (start_page + count) start_page [] r of
           (Ok buf, r) \<Rightarrow> (Ok (buf, length buf div PAGE_BUFFER_SIZE), r)
         | (Err e, r) \<Rightarrow> (Err e, r)
         | (Panic, r) \<Rightarrow> (Panic, r)))"

section \<open>Reading pages in order\<close>

record 'h page_reader =
  segment_chunk_reader :: "'h table_file_reader"
  reader_instance :: "('h \<times> usize) option"

definition get_page_reader :: "'h table_file_reader \<Rightarrow> 'h page_reader pg_result" where
  "get_page_reader r = Ok \<lparr>segment_chunk_reader = r, reader_instance = None\<rparr>"

definition get_reader ::
    "'h file_system \<Rightarrow> (string, string) outcome \<Rightarrow> 'h table_file_reader \<Rightarrow> usize \<Rightarrow> ('h \<times> usize) pg_result" where
  "get_reader fs data_dir r pos =
     obind (page_file_and_offset data_dir r (pos div PAGE_BUFFER_SIZE)) (\<lambda>(path, offset).
     case open_file fs path of
       Some fd \<Rightarrow> if seek_ok fs fd offset then Ok (fd, offset) else Err Generic
     | None \<Rightarrow> Err Generic)"

definition get_page_by_index ::
    "'h file_system \<Rightarrow> (string, string) outcome \<Rightarrow> 'h page_reader \<Rightarrow> usize \<Rightarrow>
     heap_page_data pg_result \<times> 'h page_reader" where
  "get_page_by_index fs data_dir pr page_index =
     (let r = segment_chunk_reader pr in
      (case (case reader_instance pr of
               None \<Rightarrow> unwrap (get_reader fs data_dir r (page_index * PAGE_BUFFER_SIZE))
             | Some inst \<Rightarrow> Ok inst) of
         Ok (h, pos) \<Rightarrow>
           (case read_exact fs h pos PAGE_BUFFER_SIZE of
              (Some page_buffer, pos) \<Rightarrow> (page_parse page_buffer, pr\<lparr>reader_instance := Some (h, pos)\<rparr>)
            | (None, pos) \<Rightarrow>
                (case get_reader fs data_dir r (page_index * PAGE_BUFFER_SIZE) of
                   Ok (h, pos) \<Rightarrow>
                     (case read_exact fs h pos PAGE_BUFFER_SIZE of
                        (Some page_buffer, pos) \<Rightarrow>
                          (page_parse page_buffer, pr\<lparr>reader_instance := Some (h, pos)\<rparr>)
                      | (None, pos) \<Rightarrow> (Err Generic, pr\<lparr>reader_instance := Some (h, pos)\<rparr>))
                 | Err _ \<Rightarrow> (Err Generic, pr\<lparr>reader_instance := Some (h, pos)\<rparr>)
                 | Panic \<Rightarrow> (Panic, pr\<lparr>reader_instance := Some (h, pos)\<rparr>)))
       | Err e \<Rightarrow> (Err e, pr)
       | Panic \<Rightarrow> (Panic, pr)))"

section \<open>Iterating over the tuples\<close>

text \<open>\<open>RowInfo\<close> is its \<open>ctid\<close>.\<close>

record 'h page_row_iter =
  page_reader :: "'h page_reader"
  current_row_info :: "item_pointer_data option"
  current_page :: "heap_page_data option"

definition into_iter :: "'h page_reader \<Rightarrow> 'h page_row_iter" where
  "into_iter pr = \<lparr>page_reader = pr, current_row_info = None, current_page = None\<rparr>"

text \<open>How one turn of the loop of \<open>next\<close> ends: with another turn, a result, or a panic.\<close>

datatype 'a turn = Again | Return 'a | Fault

text \<open>The page to look at: the current one, or page 0.\<close>

definition iter_page ::
    "'h file_system \<Rightarrow> (string, string) outcome \<Rightarrow> 'h page_row_iter \<Rightarrow>
     heap_page_data option pg_result \<times> 'h page_row_iter" where
  "iter_page fs data_dir it =
     (case current_page it of
        Some page \<Rightarrow> (Ok (Some page), it)
      | None \<Rightarrow>
          (case get_page_by_index fs data_dir (page_reader it) 0 of
             (Ok page, pr) \<Rightarrow> (Ok (Some page), it\<lparr>page_reader := pr, current_page := Some page\<rparr>)
           | (Err _, pr) \<Rightarrow> (Ok None, it\<lparr>page_reader := pr\<rparr>)
           | (Panic, pr) \<Rightarrow> (Panic, it\<lparr>page_reader := pr\<rparr>)))"

text \<open>The step to the next page when the current one is finished.\<close>

definition advance_page ::
    "'h file_system \<Rightarrow> (string, string) outcome \<Rightarrow> heap_page_data \<Rightarrow> 'h page_row_iter \<Rightarrow>
     heap_page_data option pg_result \<times> 'h page_row_iter" where
  "advance_page fs data_dir page it =
     (case current_row_info it of
        None \<Rightarrow> (Ok (Some page), it)
      | Some ctid \<Rightarrow>
          if lp_num page \<le> unat (ip_posid ctid) + 1 then
            let next_page_block_number = unat (block_number (ip_blkid ctid)) in
            (case get_page_by_index fs data_dir (page_reader it) (next_page_block_number + 1) of
               (Ok page, pr) \<Rightarrow>
                 (Ok (Some page), it\<lparr>page_reader := pr, current_page := Some page,
                    current_row_info :=
                      Some \<lparr>ip_blkid = \<lparr>bi_hi = ucast (drop_bit 16 (word_of_nat (next_page_block_number + 1) :: u32)),
                                        bi_lo = word_of_nat (next_page_block_number + 1)\<rparr>,
                            ip_posid = 65535\<rparr>\<rparr>)
             | (Err _, pr) \<Rightarrow> (Ok None, it\<lparr>page_reader := pr\<rparr>)
             | (Panic, pr) \<Rightarrow> (Panic, it\<lparr>page_reader := pr\<rparr>))
          else (Ok (Some page), it))"

definition row_iter_turn ::
    "'h file_system \<Rightarrow> (string, string) outcome \<Rightarrow> 'h page_row_iter \<Rightarrow>
     heap_tuple_data pg_result option turn \<times> 'h page_row_iter" where
  "row_iter_turn fs data_dir it =
     (case iter_page fs data_dir it of
        (Ok None, it) \<Rightarrow> (Return None, it)
      | (Ok (Some page), it) \<Rightarrow>
          (case advance_page fs data_dir page it of
             (Ok None, it) \<Rightarrow> (Return None, it)
           | (Ok (Some page), it) \<Rightarrow>
               let ctid =
                     (case current_row_info it of
                        Some ctid \<Rightarrow> ctid\<lparr>ip_posid := ip_posid ctid + 1\<rparr>
                      | None \<Rightarrow> \<lparr>ip_blkid = \<lparr>bi_hi = 0, bi_lo = 0\<rparr>, ip_posid = 0\<rparr>);
                   it = it\<lparr>current_row_info := Some ctid\<rparr>
               in
               (case get_row_data page (ip_posid ctid) of
                  Ok row \<Rightarrow> (Return (Some (Ok row)), it)
                | Err _ \<Rightarrow> (Again, it)
                | Panic \<Rightarrow> (Fault, it))
           | (_, it) \<Rightarrow> (Fault, it))
      | (_, it) \<Rightarrow> (Fault, it))"

partial_function (option) row_iter_next ::
    "'h file_system \<Rightarrow> (string, string) outcome \<Rightarrow> 'h page_row_iter \<Rightarrow>
     ((pg_error, heap_tuple_data pg_result option) outcome \<times> 'h page_row_iter) option" where
  "row_iter_next fs data_dir it =
     (case row_iter_turn fs data_dir it of
        (Again, it) \<Rightarrow> row_iter_next fs data_dir it
      | (Return item, it) \<Rightarrow> Some (Ok item, it)
      | (Fault, it) \<Rightarrow> Some (Panic, it))"

section \<open>Loops over an iterator\<close>

text \<open>
  \<open>for item in it { body }\<close> and the same over \<open>it.take(n)\<close>, for an iterator whose \<open>next\<close> is \<open>step\<close>:
  the body updates the loop's variables, or leaves the function with an error.
\<close>

partial_function (option) for_each ::
    "('it \<Rightarrow> ((pg_error, 'a option) outcome \<times> 'it) option) \<Rightarrow> ('a \<Rightarrow> 's \<Rightarrow> 's pg_result) \<Rightarrow> 'it \<Rightarrow> 's \<Rightarrow>
     's pg_result option" where
  "for_each step body it s =
     (case step it of
        None \<Rightarrow> None
      | Some (Ok None, it) \<Rightarrow> Some (Ok s)
      | Some (Ok (Some item), it) \<Rightarrow>
          (case body item s of
             Ok s \<Rightarrow> for_each step body it s
           | Err e \<Rightarrow> Some (Err e)
           | Panic \<Rightarrow> Some Panic)
      | Some (Err e, it) \<Rightarrow> Some (Err e)
      | Some (Panic, it) \<Rightarrow> Some Panic)"

fun for_take ::
    "('it \<Rightarrow> ((pg_error, 'a option) outcome \<times> 'it) option) \<Rightarrow> ('a \<Rightarrow> 's \<Rightarrow> 's pg_result) \<Rightarrow> usize \<Rightarrow> 'it \<Rightarrow>
     's \<Rightarrow> 's pg_result option" where
  "for_take step body 0 it s = Some (Ok s)"
| "for_take step body (Suc n) it s =
     (case step it of
        None \<Rightarrow> None
      | Some (Ok None, it) \<Rightarrow> Some (Ok s)
      | Some (Ok (Some item), it) \<Rightarrow>
          (case body item s of
             Ok s \<Rightarrow> for_take step body n it s
           | Err e \<Rightarrow> Some (Err e)
           | Panic \<Rightarrow> Some Panic)
      | Some (Err e, it) \<Rightarrow> Some (Err e)
      | Some (Panic, it) \<Rightarrow> Some Panic)"

text \<open>The same loop over the list of the items.\<close>

fun ofold :: "('a \<Rightarrow> 's \<Rightarrow> ('e, 's) outcome) \<Rightarrow> 'a list \<Rightarrow> 's \<Rightarrow> ('e, 's) outcome" where
  "ofold body [] s = Ok s"
| "ofold body (x # xs) s = obind (body x s) (ofold body xs)"

lemma ofold_append: "ofold body (xs @ ys) s = obind (ofold body xs s) (ofold body ys)"
  by (induction xs arbitrary: s) (auto simp: obind_assoc intro!: obind_cong)

text \<open>
  The interface of an iterator to the loops over it: from a state that has still to yield \<open>items\<close>,
  \<open>step\<close> returns the first of them, or the end.
\<close>

locale item_source =
  fixes step :: "'it \<Rightarrow> ((pg_error, 'a option) outcome \<times> 'it) option"
    and yields :: "'it \<Rightarrow> 'a list \<Rightarrow> bool"
  assumes at_end: "yields it [] \<Longrightarrow> \<exists>it'. step it = Some (Ok None, it')"
    and at_item: "yields it (item # items) \<Longrightarrow> \<exists>it'. step it = Some (Ok (Some item), it') \<and> yields it' items"
begin

lemma for_each_yields: "yields it items \<Longrightarrow> for_each step body it s = Some (ofold body items s)"
proof (induction items arbitrary: it s)
  case Nil
  then show ?case using at_end [OF Nil] by (subst for_each.simps) auto
next
  case (Cons item items)
  then obtain it' where "step it = Some (Ok (Some item), it')" "yields it' items"
    using at_item by blast
  then show ?case
    using Cons.IH [of it'] by (subst for_each.simps) (cases "body item s"; simp)
qed

lemma for_take_yields: "yields it items \<Longrightarrow> for_take step body n it s = Some (ofold body (take n items) s)"
proof (induction n arbitrary: it s items)
  case (Suc n)
  show ?case
  proof (cases items)
    case Nil
    then obtain it' where "step it = Some (Ok None, it')" using at_end Suc.prems by blast
    then show ?thesis using Nil by simp
  next
    case (Cons item rest)
    then obtain it' where "step it = Some (Ok (Some item), it')" "yields it' rest"
      using at_item Suc.prems by blast
    then show ?thesis
      using Suc.IH [of it' rest] Cons by (cases "body item s"; simp)
  qed
qed simp

end

end
