(* ===== verification/Scans.thy ===== *)
theory Scans
  imports Reader BatchRows
begin

text \<open>
  What \<open>src/file/reader.rs\<close> does over the segment files of a relation: the size of the relation, the
  bulk reader (with its cached segment), the sequential page reader and the row iterator give the
  pages and tuples that are stored, in order.
\<close>

section \<open>The pages of a relation\<close>

text \<open>
  What the program relies on: an open file gives its bytes at any offset (it is not modified, and a
  read is cut only by the end of the file), and can be positioned.
\<close>

definition file_holds :: "'h file_system \<Rightarrow> 'h \<Rightarrow> bytes \<Rightarrow> bool" where
  "file_holds fs h bs \<longleftrightarrow>
     (\<forall>n off. pread fs h n off = Some (take n (drop off bs))) \<and> (\<forall>off. seek_ok fs h off)"

definition page_list :: "bytes \<Rightarrow> bytes list" where
  "page_list bs = map (\<lambda>i. take 8192 (drop (i * 8192) bs)) [0..<length bs div 8192]"

definition segment_path :: "string \<Rightarrow> 'h table_file_reader \<Rightarrow> usize \<Rightarrow> string" where
  "segment_path dir r segno =
     (let table_file =
            (if db_id r = 0 then dir @ ''/global/'' @ show_nat (relation_id r)
             else dir @ ''/base/'' @ show_nat (db_id r) @ ''/'' @ show_nat (relation_id r))
      in if segno = 0 then table_file else table_file @ ''.'' @ show_nat segno)"

text \<open>
  The pages from segment \<open>segno\<close> on, as PostgreSQL lays a relation out: full segments of 1 GiB, then
  a shorter one (perhaps with a torn page at its end) or none.
\<close>

inductive segment_walk :: "'h file_system \<Rightarrow> (usize \<Rightarrow> string) \<Rightarrow> usize \<Rightarrow> bytes list \<Rightarrow> bool"
  for fs path where
  no_segment: "open_file fs (path segno) = None \<Longrightarrow> metadata_len fs (path segno) = Err NotFound \<Longrightarrow>
     segment_walk fs path segno []"
| last_segment: "open_file fs (path segno) = Some h \<Longrightarrow> file_holds fs h bs \<Longrightarrow>
     metadata_len fs (path segno) = Ok (length bs) \<Longrightarrow> length bs div 8192 < PAGES_PER_SEGMENT \<Longrightarrow>
     segment_walk fs path segno (page_list bs)"
| full_segment: "open_file fs (path segno) = Some h \<Longrightarrow> file_holds fs h bs \<Longrightarrow>
     metadata_len fs (path segno) = Ok (length bs) \<Longrightarrow> length bs = PAGES_PER_SEGMENT * 8192 \<Longrightarrow>
     segment_walk fs path (Suc segno) ps \<Longrightarrow> segment_walk fs path segno (page_list bs @ ps)"

lemma PAGES_PER_SEGMENT_value: "PAGES_PER_SEGMENT = 131072"
  by (simp add: PAGES_PER_SEGMENT_def PAGE_BUFFER_SIZE_def)

lemma PAGE_BUFFER_SIZE_value: "PAGE_BUFFER_SIZE = 8192"
  by (simp add: PAGE_BUFFER_SIZE_def)

lemma PAGES_PER_SEGMENT_pos [simp]: "0 < PAGES_PER_SEGMENT"
  by (simp add: PAGES_PER_SEGMENT_value)

lemma page_list_length [simp]: "length (page_list bs) = length bs div 8192"
  by (simp add: page_list_def)

lemma page_list_nth: "i < length bs div 8192 \<Longrightarrow> page_list bs ! i = take 8192 (drop (i * 8192) bs)"
  by (simp add: page_list_def)

lemma page_list_sizes: "p \<in> set (page_list bs) \<Longrightarrow> length p = 8192"
proof -
  assume "p \<in> set (page_list bs)"
  then obtain i where i: "i < length bs div 8192" "p = take 8192 (drop (i * 8192) bs)"
    by (auto simp: page_list_def)
  have "Suc i * 8192 \<le> length bs" using i(1) by (simp add: less_eq_div_iff_mult_less_eq Suc_le_eq [symmetric])
  then show "length p = 8192" using i(2) by simp
qed

lemma div_diff_mult: "(a - k * n) div n = a div n - (k :: nat)" if "0 < n"
proof (cases "k * n \<le> a")
  case True
  then obtain b where "a = k * n + b" using le_Suc_ex by blast
  then show ?thesis using that by simp
next
  case False
  then have "a div n < k" by (simp add: less_mult_imp_div_less)
  then show ?thesis using False by simp
qed

lemma page_list_drop: "page_list (drop (k * 8192) bs) = drop k (page_list bs)"
proof (rule nth_equalityI)
  have "(length bs - k * 8192) div 8192 = length bs div 8192 - k"
    by (rule div_diff_mult) simp
  then show "length (page_list (drop (k * 8192) bs)) = length (drop k (page_list bs))" by simp
  fix i assume "i < length (page_list (drop (k * 8192) bs))"
  then show "page_list (drop (k * 8192) bs) ! i = drop k (page_list bs) ! i"
    by (simp add: page_list_nth add.commute)
qed

lemma page_list_Cons:
  assumes "8192 \<le> length bs"
  shows "page_list bs = take 8192 bs # page_list (drop 8192 bs)"
proof -
  have "0 < length bs div 8192" using assms by (simp add: div_greater_zero_iff)
  then have "page_list bs = page_list bs ! 0 # drop 1 (page_list bs)"
    using Cons_nth_drop_Suc [of 0 "page_list bs"] by simp
  then show ?thesis
    using page_list_drop [of 1 bs] page_list_nth [OF \<open>0 < length bs div 8192\<close>] by simp
qed

lemma page_list_short: "length bs < 8192 \<Longrightarrow> page_list bs = []"
  by (simp add: page_list_def)

lemma take_pages:
  "take (length (take (m * 8192) bs) div 8192 * 8192) (take (m * 8192) bs) = concat (take m (page_list bs))"
proof (induction m arbitrary: bs)
  case (Suc m)
  show ?case
  proof (cases "length bs < 8192")
    case True
    then show ?thesis by (simp add: page_list_short)
  next
    case False
    let ?d = "drop 8192 bs"
    have t: "take (Suc m * 8192) bs = take 8192 bs @ take (m * 8192) ?d"
      using take_add [of 8192 "m * 8192" bs] by simp
    have "length (take 8192 bs @ take (m * 8192) ?d) div 8192 * 8192 = 8192 + length (take (m * 8192) ?d) div 8192 * 8192"
    proof -
      have "(8192 + n) div 8192 * 8192 = 8192 + n div 8192 * 8192" for n :: nat
        by (simp add: div_add_self1)
      moreover have "length (take 8192 bs @ take (m * 8192) ?d) = 8192 + length (take (m * 8192) ?d)"
        using False by simp
      ultimately show ?thesis by (simp only:)
    qed
    then have "take (length (take (Suc m * 8192) bs) div 8192 * 8192) (take (Suc m * 8192) bs) =
        take 8192 bs @ take (length (take (m * 8192) ?d) div 8192 * 8192) (take (m * 8192) ?d)"
      unfolding t using False by (simp only:) simp
    also have "\<dots> = take 8192 bs @ concat (take m (page_list ?d))" by (simp only: Suc)
    finally show ?thesis using False by (simp add: page_list_Cons)
  qed
qed simp

lemma concat_pages_length: "\<forall>p \<in> set ps. length p = 8192 \<Longrightarrow> length (concat ps) = length ps * 8192"
  by (induction ps) auto

lemma segment_walk_sizes: "segment_walk fs path segno pages \<Longrightarrow> p \<in> set pages \<Longrightarrow> length p = 8192"
  by (induction rule: segment_walk.induct) (auto dest: page_list_sizes)

text \<open>The segment that page \<open>i\<close> lies in, or where the end of the relation is looked for.\<close>

lemma segment_walk_at:
  assumes "segment_walk fs path segno pages" and "i \<le> length pages"
  shows "(open_file fs (path (segno + i div PAGES_PER_SEGMENT)) = None \<and> i = length pages) \<or>
    (\<exists>h bs. open_file fs (path (segno + i div PAGES_PER_SEGMENT)) = Some h \<and> file_holds fs h bs \<and>
       drop (i mod PAGES_PER_SEGMENT) (page_list bs) =
         take (PAGES_PER_SEGMENT - i mod PAGES_PER_SEGMENT) (drop i pages))"
  using assms
proof (induction arbitrary: i rule: segment_walk.induct)
  case (no_segment segno)
  then show ?case by simp
next
  case (last_segment segno h bs)
  then have "i < PAGES_PER_SEGMENT" by simp
  moreover have "drop i (page_list bs) = take (PAGES_PER_SEGMENT - i) (drop i (page_list bs))"
    using last_segment by simp
  ultimately show ?case using last_segment by auto
next
  case (full_segment segno h bs ps)
  have len: "length (page_list bs) = PAGES_PER_SEGMENT" using full_segment.hyps by simp
  show ?case
  proof (cases "i < PAGES_PER_SEGMENT")
    case True
    then have "drop i (page_list bs) = take (PAGES_PER_SEGMENT - i) (drop i (page_list bs @ ps))"
      using len by simp
    then show ?thesis using True full_segment.hyps by auto
  next
    case False
    then obtain j where j: "i = PAGES_PER_SEGMENT + j" using le_Suc_ex not_less by blast
    then have "j \<le> length ps" using full_segment.prems len by simp
    moreover have "i div PAGES_PER_SEGMENT = Suc (j div PAGES_PER_SEGMENT)"
      "i mod PAGES_PER_SEGMENT = j mod PAGES_PER_SEGMENT"
      unfolding j by (simp_all add: div_add_self1)
    moreover have "drop i (page_list bs @ ps) = drop j ps" using j len by simp
    ultimately show ?thesis
      using full_segment.IH [of j] j len by simp
  qed
qed

text \<open>
  A reader holds the pages \<open>pages\<close>: its files do, and the cached handle is that of its segment.
\<close>

definition cache_ok :: "'h file_system \<Rightarrow> string \<Rightarrow> 'h table_file_reader \<Rightarrow> bool" where
  "cache_ok fs dir r \<longleftrightarrow>
     (\<forall>segno h. segment_cache r = Some (segno, h) \<longrightarrow> open_file fs (segment_path dir r segno) = Some h)"

definition relation_holds :: "'h file_system \<Rightarrow> string \<Rightarrow> 'h table_file_reader \<Rightarrow> bytes list \<Rightarrow> bool" where
  "relation_holds fs dir r pages \<longleftrightarrow> cache_ok fs dir r \<and> segment_walk fs (segment_path dir r) 0 pages"

lemma page_file_and_offset_eq:
  "page_file_and_offset (Ok dir) r i =
    Ok (segment_path dir r (i div PAGES_PER_SEGMENT), i mod PAGES_PER_SEGMENT * 8192)"
  by (simp add: page_file_and_offset_def segment_path_def Let_def PAGE_BUFFER_SIZE_def)

lemma segment_path_cache [simp]: "segment_path dir (r\<lparr>segment_cache := c\<rparr>) = segment_path dir r"
  by (rule ext) (simp add: segment_path_def)

lemma segment_file_opens:
  assumes "cache_ok fs dir r"
  shows "\<exists>r'. segment_file fs (Ok dir) r i = (Ok (open_file fs (segment_path dir r (i div PAGES_PER_SEGMENT))), r') \<and>
    cache_ok fs dir r' \<and> segment_path dir r' = segment_path dir r"
proof (cases "open_file fs (segment_path dir r (i div PAGES_PER_SEGMENT))")
  case None
  then show ?thesis
    using assms
    by (auto simp: segment_file_def page_file_and_offset_eq cache_ok_def Let_def split: option.splits)
next
  case (Some f)
  then show ?thesis
    using assms
    by (auto simp: segment_file_def page_file_and_offset_eq cache_ok_def Let_def split: option.splits)
qed

lemma bulk_loop_read:
  assumes "i < e" and "segment_file fs data_dir r i = (Ok (Some h), r')"
    and "pread fs h (min (e - i) (PAGES_PER_SEGMENT - i mod PAGES_PER_SEGMENT) * PAGE_BUFFER_SIZE)
      (i mod PAGES_PER_SEGMENT * PAGE_BUFFER_SIZE) = Some got"
  shows "bulk_loop fs data_dir e i buf r =
    (if got = [] then (Ok buf, r')
     else if length got < min (e - i) (PAGES_PER_SEGMENT - i mod PAGES_PER_SEGMENT) * 8192
     then (Ok (buf @ take (length got div 8192 * 8192) got), r')
     else bulk_loop fs data_dir e (i + length got div 8192) (buf @ take (length got div 8192 * 8192) got) r')"
  using assms
  by (simp only: bulk_loop.simps [of fs data_dir e i buf r] Let_def prod.case outcome.case option.case
      not_not if_True if_False simp_thms PAGE_BUFFER_SIZE_value)

text \<open>The bulk reader returns exactly the pages asked for, up to the end of the relation.\<close>

lemma bulk_loop_pages:
  assumes "relation_holds fs dir r pages" and "i \<le> length pages"
  shows "\<exists>r'. bulk_loop fs (Ok dir) e i buf r = (Ok (buf @ concat (take (e - i) (drop i pages))), r') \<and>
    relation_holds fs dir r' pages"
  using assms
proof (induction "e - i" arbitrary: i buf r rule: less_induct)
  case (less i buf r)
  note walk = less.prems(1) [unfolded relation_holds_def]
  let ?m = "i mod PAGES_PER_SEGMENT"
  show ?case
  proof (cases "i < e")
    case False
    then show ?thesis using less.prems(1) by (simp add: bulk_loop.simps)
  next
    case i: True
    obtain r' where r': "segment_file fs (Ok dir) r i = (Ok (open_file fs (segment_path dir r (i div PAGES_PER_SEGMENT))), r')"
      "cache_ok fs dir r'" "segment_path dir r' = segment_path dir r"
      using segment_file_opens walk by blast
    have holds: "relation_holds fs dir r' pages"
      using r' walk by (simp add: relation_holds_def)
    from segment_walk_at [of fs "segment_path dir r" 0 pages i] walk less.prems(2)
    consider (none) "open_file fs (segment_path dir r (i div PAGES_PER_SEGMENT)) = None" "i = length pages"
      | (some) h bs where "open_file fs (segment_path dir r (i div PAGES_PER_SEGMENT)) = Some h" "file_holds fs h bs"
        "drop ?m (page_list bs) = take (PAGES_PER_SEGMENT - ?m) (drop i pages)"
      by auto
    then show ?thesis
    proof cases
      case none
      then show ?thesis using i r' holds by (simp add: bulk_loop.simps Let_def)
    next
      case some
      define tr where "tr = min (e - i) (PAGES_PER_SEGMENT - ?m)"
      have tr: "0 < tr" "tr \<le> e - i" "tr \<le> PAGES_PER_SEGMENT - ?m"
        using i by (simp_all add: tr_def)
      define got where "got = take (tr * 8192) (drop (?m * 8192) bs)"
      let ?ps = "take tr (drop i pages)"
      have got: "pread fs h (tr * PAGE_BUFFER_SIZE) (?m * PAGE_BUFFER_SIZE) = Some got"
        using some(2) by (simp add: file_holds_def PAGE_BUFFER_SIZE_value got_def)
      have "take tr (page_list (drop (?m * 8192) bs)) = ?ps"
        unfolding page_list_drop some(3) using tr(3) by (simp add: min.absorb1)
      then have cut: "take (length got div 8192 * 8192) got = concat ?ps"
        using take_pages [of tr "drop (?m * 8192) bs"] unfolding got_def by simp
      have "\<forall>p \<in> set ?ps. length p = 8192"
        using walk by (auto dest!: in_set_takeD in_set_dropD intro: segment_walk_sizes)
      then have n: "length got div 8192 = length ?ps"
        using arg_cong [OF cut, of length] concat_pages_length [of ?ps] by simp
      have step: "bulk_loop fs (Ok dir) e i buf r =
          (if length got < tr * 8192 then (Ok (buf @ concat ?ps), r')
           else bulk_loop fs (Ok dir) e (i + length ?ps) (buf @ concat ?ps) r')"
        using bulk_loop_read [OF i r'(1) [unfolded some(1)] got [unfolded tr_def], of buf, folded tr_def] cut tr(1)
        by (cases "got = []") (simp_all only: n cut [unfolded n] if_False if_True list.size, simp)
      show ?thesis
      proof (cases "length got < tr * 8192")
        case True
        then have "length ?ps < tr" using n by (metis less_mult_imp_div_less)
        then have "?ps = take (e - i) (drop i pages)" using tr(2) by simp
        then show ?thesis using True holds unfolding step by auto
      next
        case False
        then have "tr \<le> length ?ps"
          using n by (metis less_eq_div_iff_mult_less_eq not_less zero_less_numeral)
        then have full: "length ?ps = tr" "i + tr \<le> length pages"
          using less.prems(2) tr(1) by simp_all
        have "e - (i + tr) < e - i" using i tr(1) by simp
        from less.hyps [OF this holds full(2), of "buf @ concat ?ps"]
        obtain r'' where "bulk_loop fs (Ok dir) e (i + tr) (buf @ concat ?ps) r' =
            (Ok ((buf @ concat ?ps) @ concat (take (e - (i + tr)) (drop (i + tr) pages))), r'')"
          "relation_holds fs dir r'' pages"
          by blast
        moreover have "take (e - i) (drop i pages) = ?ps @ take (e - (i + tr)) (drop (i + tr) pages)"
        proof -
          have "tr + (e - (i + tr)) = e - i" using tr(2) i by linarith
          then show ?thesis using take_add [of tr "e - (i + tr)" "drop i pages"] by (simp add: add.commute)
        qed
        ultimately show ?thesis using False unfolding step full by auto
      qed
    qed
  qed
qed

lemma read_pages_bulk_pages:
  assumes "relation_holds fs dir r pages" and "i \<le> length pages" and "n * 8192 < 2 ^ 63" and "i + n < 2 ^ 64"
  shows "\<exists>r'. read_pages_bulk fs (Ok dir) r i n =
      (Ok (concat (take n (drop i pages)), length (take n (drop i pages))), r') \<and> relation_holds fs dir r' pages"
proof (cases "n = 0")
  case True
  then show ?thesis using assms(1) by (simp add: read_pages_bulk_def)
next
  case False
  obtain r' where r': "bulk_loop fs (Ok dir) (i + n) i [] r = (Ok (concat (take n (drop i pages))), r')"
    "relation_holds fs dir r' pages"
    using bulk_loop_pages [OF assms(1,2), of "i + n" "[]"] by auto
  have "\<forall>p \<in> set (take n (drop i pages)). length p = 8192"
    using assms(1) by (auto simp: relation_holds_def dest!: in_set_takeD in_set_dropD intro: segment_walk_sizes)
  then show ?thesis
    using r' False assms(3,4) concat_pages_length [of "take n (drop i pages)"]
    by (simp add: read_pages_bulk_def PAGE_BUFFER_SIZE_value not_le)
qed

section \<open>The size of a relation\<close>

lemma segment_step_eq:
  "segment_step fs (Ok dir) r segno =
    (case metadata_len fs (segment_path dir r segno) of
       Ok n \<Rightarrow> Ok (Some \<lparr>seg_path = segment_path dir r segno, seg_bytes = n, seg_pages = n div 8192\<rparr>,
                 PAGES_PER_SEGMENT \<le> n div 8192)
     | Err NotFound \<Rightarrow> Ok (None, False) | Err OtherIo \<Rightarrow> Err Generic | Panic \<Rightarrow> Panic)"
  by (simp add: segment_step_def page_file_and_offset_eq Let_def PAGE_BUFFER_SIZE_value not_less
      split: outcome.split io_error.split)

text \<open>
  \<open>segment_sizes\<close> returns: it lists the segments of the walk, which end, and all but the last have
  \<open>PAGES_PER_SEGMENT\<close> pages.
\<close>

lemma segment_loop_walk:
  assumes "segment_walk fs path segno pages" and "path = segment_path dir r"
  shows "\<exists>segs. segment_loop fs (Ok dir) r segno out = Some (Ok (out @ segs)) \<and>
    sum_list (map seg_pages segs) = length pages \<and>
    map seg_path segs = map path [segno..<segno + length segs] \<and>
    (\<forall>s \<in> set (butlast segs). seg_pages s = PAGES_PER_SEGMENT)"
  using assms
proof (induction arbitrary: out rule: segment_walk.induct)
  case (no_segment segno)
  then show ?case
    by (subst segment_loop.simps) (simp add: segment_step_eq)
next
  case (last_segment segno h bs)
  then show ?case
    by (subst segment_loop.simps) (simp add: segment_step_eq)
next
  case (full_segment segno h bs ps)
  let ?s = "\<lparr>seg_path = path segno, seg_bytes = length bs, seg_pages = PAGES_PER_SEGMENT\<rparr>"
  obtain segs where segs: "segment_loop fs (Ok dir) r (Suc segno) (out @ [?s]) = Some (Ok ((out @ [?s]) @ segs))"
    "sum_list (map seg_pages segs) = length ps" "map seg_path segs = map path [Suc segno..<Suc segno + length segs]"
    "\<forall>s \<in> set (butlast segs). seg_pages s = PAGES_PER_SEGMENT"
    using full_segment.IH [OF full_segment.prems, of "out @ [?s]"] by blast
  have "segment_loop fs (Ok dir) r segno out = Some (Ok (out @ ?s # segs))"
    using full_segment.hyps full_segment.prems segs(1)
    by (subst segment_loop.simps) (simp add: segment_step_eq)
  then show ?case
    using segs full_segment.hyps
    by (intro exI [of _ "?s # segs"]) (auto simp: upt_conv_Cons)
qed

section \<open>Sequential reading\<close>

lemma read_exact_holds:
  assumes "file_holds fs h bs" and "0 < n"
  shows "read_exact fs h pos n =
    (if pos + n \<le> length bs then (Some (take n (drop pos bs)), pos + n) else (None, max pos (length bs)))"
proof -
  have pread: "pread fs h m off = Some (take m (drop off bs))" for m off
    using assms(1) by (simp add: file_holds_def)
  have at_end: "read_exact fs h p m = (None, p)" if "length bs \<le> p" "0 < m" for p m
    using that by (simp add: read_exact.simps [of fs h p m] pread)
  consider "length bs \<le> pos" | "pos < length bs" "pos + n \<le> length bs" | "pos < length bs" "length bs < pos + n"
    by linarith
  then show ?thesis
  proof cases
    case 1
    then show ?thesis using at_end [OF 1 assms(2)] assms(2) by (simp add: max.absorb1)
  next
    case 2
    then show ?thesis using assms(2)
      by (simp add: read_exact.simps [of fs h pos n] pread read_exact.simps [of fs h _ 0])
  next
    case 3
    then have "read_exact fs h (pos + (length bs - pos)) (n - (length bs - pos)) = (None, length bs)"
      using at_end [of "length bs" "n - (length bs - pos)"] by simp
    then show ?thesis using 3 assms(2)
      by (simp add: read_exact.simps [of fs h pos n] pread max.absorb2)
  qed
qed

text \<open>Page \<open>k\<close> read from the segment it lies in.\<close>

lemma read_page_at:
  assumes "file_holds fs h bs"
    and "drop (k mod PAGES_PER_SEGMENT) (page_list bs) =
      take (PAGES_PER_SEGMENT - k mod PAGES_PER_SEGMENT) (drop k pages)" and "k \<le> length pages"
  shows "k < length pages \<Longrightarrow> read_exact fs h (k mod PAGES_PER_SEGMENT * 8192) 8192 =
      (Some (pages ! k), (k mod PAGES_PER_SEGMENT + 1) * 8192)"
    and "k = length pages \<Longrightarrow> \<exists>pos. read_exact fs h (k mod PAGES_PER_SEGMENT * 8192) 8192 = (None, pos)"
proof -
  let ?m = "k mod PAGES_PER_SEGMENT"
  have left: "0 < PAGES_PER_SEGMENT - ?m" by simp
  note eq = read_exact_holds [OF assms(1), of 8192 "?m * 8192"]
  {
    assume k: "k < length pages"
    then have "drop ?m (page_list bs) \<noteq> []"
      using mod_less_divisor [OF PAGES_PER_SEGMENT_pos, of k] unfolding assms(2) by (simp only: take_eq_Nil drop_eq_Nil) linarith
    then have m: "?m < length bs div 8192" by simp
    then have "(?m + 1) * 8192 \<le> length bs"
      by (metis Suc_eq_plus1 Suc_leI less_eq_div_iff_mult_less_eq zero_less_numeral)
    moreover have "page_list bs ! ?m = pages ! k"
    proof -
      have "drop ?m (page_list bs) ! 0 = take (PAGES_PER_SEGMENT - ?m) (drop k pages) ! 0"
        by (simp only: assms(2))
      then show ?thesis using m k left by simp
    qed
    ultimately show "read_exact fs h (?m * 8192) 8192 = (Some (pages ! k), (?m + 1) * 8192)"
      using m by (simp add: eq page_list_nth add.commute)
  next
    assume "k = length pages"
    then have "length bs div 8192 \<le> ?m" using assms(2) by simp
    then have "\<not> (?m + 1) * 8192 \<le> length bs"
      by (metis Suc_eq_plus1 div_le_mono div_mult_self_is_m not_less_eq_eq zero_less_numeral)
    then show "\<exists>pos. read_exact fs h (?m * 8192) 8192 = (None, pos)"
      by (simp add: eq add.commute)
  }
qed

text \<open>\<open>reader_at fs dir pr pages k\<close>: \<open>pr\<close> reads this relation and the pages before \<open>k\<close> have been read, in order.\<close>

definition reader_at :: "'h file_system \<Rightarrow> string \<Rightarrow> 'h page_reader \<Rightarrow> bytes list \<Rightarrow> usize \<Rightarrow> bool" where
  "reader_at fs dir pr pages k \<longleftrightarrow>
     segment_walk fs (segment_path dir (segment_chunk_reader pr)) 0 pages \<and>
     (case reader_instance pr of
        None \<Rightarrow> k = 0 \<and> open_file fs (segment_path dir (segment_chunk_reader pr) 0) \<noteq> None
      | Some (h, pos) \<Rightarrow>
          0 < k \<and> k \<le> length pages \<and>
          (\<exists>bs. open_file fs (segment_path dir (segment_chunk_reader pr) ((k - 1) div PAGES_PER_SEGMENT)) = Some h \<and>
             file_holds fs h bs \<and> pos = ((k - 1) mod PAGES_PER_SEGMENT + 1) * 8192 \<and>
             drop ((k - 1) mod PAGES_PER_SEGMENT) (page_list bs) =
               take (PAGES_PER_SEGMENT - (k - 1) mod PAGES_PER_SEGMENT) (drop (k - 1) pages)))"

lemma get_reader_eq:
  "get_reader fs (Ok dir) r (i * PAGE_BUFFER_SIZE) =
    (case open_file fs (segment_path dir r (i div PAGES_PER_SEGMENT)) of
       Some fd \<Rightarrow> if seek_ok fs fd (i mod PAGES_PER_SEGMENT * 8192)
         then Ok (fd, i mod PAGES_PER_SEGMENT * 8192) else Err Generic
     | None \<Rightarrow> Err Generic)"
  by (simp add: get_reader_def page_file_and_offset_eq PAGE_BUFFER_SIZE_value)

text \<open>The second attempt of \<open>get_page_by_index\<close>: the segment of the page, opened again.\<close>

lemma reopened_page:
  assumes walk: "segment_walk fs (segment_path dir r) 0 pages" and k: "k \<le> length pages"
  shows "(k < length pages \<longrightarrow>
      (\<exists>h bs. get_reader fs (Ok dir) r (k * PAGE_BUFFER_SIZE) = Ok (h, k mod PAGES_PER_SEGMENT * 8192) \<and>
         open_file fs (segment_path dir r (k div PAGES_PER_SEGMENT)) = Some h \<and> file_holds fs h bs \<and>
         drop (k mod PAGES_PER_SEGMENT) (page_list bs) =
           take (PAGES_PER_SEGMENT - k mod PAGES_PER_SEGMENT) (drop k pages) \<and>
         read_exact fs h (k mod PAGES_PER_SEGMENT * 8192) 8192 =
           (Some (pages ! k), (k mod PAGES_PER_SEGMENT + 1) * 8192))) \<and>
    (k = length pages \<longrightarrow>
      get_reader fs (Ok dir) r (k * PAGE_BUFFER_SIZE) = Err Generic \<or>
      (\<exists>h pos pos'. get_reader fs (Ok dir) r (k * PAGE_BUFFER_SIZE) = Ok (h, pos) \<and>
         read_exact fs h pos 8192 = (None, pos')))"
  using segment_walk_at [OF walk k]
proof (elim disjE exE conjE)
  fix h bs
  assume h: "open_file fs (segment_path dir r (0 + k div PAGES_PER_SEGMENT)) = Some h" "file_holds fs h bs"
    and d: "drop (k mod PAGES_PER_SEGMENT) (page_list bs) =
      take (PAGES_PER_SEGMENT - k mod PAGES_PER_SEGMENT) (drop k pages)"
  have "get_reader fs (Ok dir) r (k * PAGE_BUFFER_SIZE) = Ok (h, k mod PAGES_PER_SEGMENT * 8192)"
    using h unfolding get_reader_eq by (simp add: file_holds_def)
  then show ?thesis using h d read_page_at [OF h(2) d k] by auto
qed (simp add: get_reader_eq)

lemma get_page_reopened:
  assumes walk: "segment_walk fs (segment_path dir (segment_chunk_reader pr)) 0 pages" and k: "k \<le> length pages"
    and first: "(case reader_instance pr of
        None \<Rightarrow> unwrap (get_reader fs (Ok dir) (segment_chunk_reader pr) (k * PAGE_BUFFER_SIZE))
      | Some inst \<Rightarrow> Ok inst) = (Ok (h, pos) :: (_ \<times> usize) pg_result)"
    and miss: "read_exact fs h pos 8192 = (None, pos')"
  shows "(k < length pages \<longrightarrow>
      (\<exists>pr'. get_page_by_index fs (Ok dir) pr k = (page_parse (pages ! k), pr') \<and> reader_at fs dir pr' pages (Suc k))) \<and>
    (k = length pages \<longrightarrow> (\<exists>pr'. get_page_by_index fs (Ok dir) pr k = (Err Generic, pr')))"
proof -
  let ?r = "segment_chunk_reader pr"
  have g: "get_page_by_index fs (Ok dir) pr k =
      (case get_reader fs (Ok dir) ?r (k * PAGE_BUFFER_SIZE) of
         Ok (h, pos) \<Rightarrow>
           (case read_exact fs h pos 8192 of
              (Some page_buffer, pos) \<Rightarrow> (page_parse page_buffer, pr\<lparr>reader_instance := Some (h, pos)\<rparr>)
            | (None, pos) \<Rightarrow> (Err Generic, pr\<lparr>reader_instance := Some (h, pos)\<rparr>))
       | Err _ \<Rightarrow> (Err Generic, pr\<lparr>reader_instance := Some (h, pos')\<rparr>)
       | Panic \<Rightarrow> (Panic, pr\<lparr>reader_instance := Some (h, pos')\<rparr>))"
    unfolding get_page_by_index_def Let_def first
    by (simp only: outcome.case prod.case miss option.case PAGE_BUFFER_SIZE_value)
  show ?thesis
  proof (cases "k < length pages")
    case True
    then obtain h' bs where h': "get_reader fs (Ok dir) ?r (k * PAGE_BUFFER_SIZE) = Ok (h', k mod PAGES_PER_SEGMENT * 8192)"
      "open_file fs (segment_path dir ?r (k div PAGES_PER_SEGMENT)) = Some h'" "file_holds fs h' bs"
      "drop (k mod PAGES_PER_SEGMENT) (page_list bs) = take (PAGES_PER_SEGMENT - k mod PAGES_PER_SEGMENT) (drop k pages)"
      "read_exact fs h' (k mod PAGES_PER_SEGMENT * 8192) 8192 = (Some (pages ! k), (k mod PAGES_PER_SEGMENT + 1) * 8192)"
      using reopened_page [OF walk k] by blast
    then show ?thesis
      using True walk unfolding g by (auto simp: reader_at_def)
  next
    case False
    then have "k = length pages" using k by simp
    then show ?thesis
      using reopened_page [OF walk k] unfolding g by auto
  qed
qed

text \<open>Pages read in order are the pages of the relation.\<close>

lemma get_page_in_order:
  assumes at: "reader_at fs dir pr pages k" and k: "k \<le> length pages"
  shows "(k < length pages \<longrightarrow>
      (\<exists>pr'. get_page_by_index fs (Ok dir) pr k = (page_parse (pages ! k), pr') \<and> reader_at fs dir pr' pages (Suc k))) \<and>
    (k = length pages \<longrightarrow> (\<exists>pr'. get_page_by_index fs (Ok dir) pr k = (Err Generic, pr')))"
proof (cases "reader_instance pr")
  case None
  let ?r = "segment_chunk_reader pr"
  have walk: "segment_walk fs (segment_path dir ?r) 0 pages" and k0: "k = 0"
    and f: "open_file fs (segment_path dir ?r 0) \<noteq> None"
    using at None by (auto simp: reader_at_def)
  from segment_walk_at [OF walk, of 0] f obtain h bs where h: "open_file fs (segment_path dir ?r 0) = Some h" "file_holds fs h bs"
    and d: "drop (0 mod PAGES_PER_SEGMENT) (page_list bs) =
      take (PAGES_PER_SEGMENT - 0 mod PAGES_PER_SEGMENT) (drop 0 pages)" by auto
  have gr: "get_reader fs (Ok dir) ?r (k * PAGE_BUFFER_SIZE) = Ok (h, 0)"
    using h unfolding get_reader_eq k0 by (simp add: file_holds_def)
  show ?thesis
  proof (cases "0 < length pages")
    case True
    have "read_exact fs h 0 PAGE_BUFFER_SIZE = (Some (pages ! k), 8192)"
      using read_page_at(1) [OF h(2) d] True k0 by (simp add: PAGE_BUFFER_SIZE_value)
    then have "get_page_by_index fs (Ok dir) pr k = (page_parse (pages ! k), pr\<lparr>reader_instance := Some (h, 8192)\<rparr>)"
      by (simp add: get_page_by_index_def None gr Let_def)
    moreover have "reader_at fs dir (pr\<lparr>reader_instance := Some (h, 8192)\<rparr>) pages (Suc k)"
      using walk h d True by (auto simp: reader_at_def k0 Suc_le_eq)
    ultimately show ?thesis using True k0 by auto
  next
    case False
    then obtain pos where "read_exact fs h 0 8192 = (None, pos)"
      using read_page_at(2) [OF h(2) d] by auto
    then show ?thesis
      by (intro get_page_reopened [OF walk k]) (simp_all add: None gr)
  qed
next
  case (Some inst)
  then obtain h pos bs where inst: "reader_instance pr = Some (h, pos)" and k0: "0 < k"
    and walk: "segment_walk fs (segment_path dir (segment_chunk_reader pr)) 0 pages"
    and o: "open_file fs (segment_path dir (segment_chunk_reader pr) ((k - 1) div PAGES_PER_SEGMENT)) = Some h"
    and h: "file_holds fs h bs" and pos: "pos = ((k - 1) mod PAGES_PER_SEGMENT + 1) * 8192"
    and d: "drop ((k - 1) mod PAGES_PER_SEGMENT) (page_list bs) =
      take (PAGES_PER_SEGMENT - (k - 1) mod PAGES_PER_SEGMENT) (drop (k - 1) pages)"
    using at by (cases inst) (auto simp: reader_at_def)
  show ?thesis
  proof (cases "read_exact fs h pos 8192")
    case (Pair res pos')
    show ?thesis
    proof (cases res)
      case None
      then show ?thesis
        using Pair by (intro get_page_reopened [OF walk k]) (simp_all add: inst)
    next
      case (Some buf)
      let ?m = "(k - 1) mod PAGES_PER_SEGMENT"
      have fit: "pos + 8192 \<le> length bs" and buf: "buf = take 8192 (drop pos bs)" "pos' = pos + 8192"
        using Pair Some read_exact_holds [OF h, of 8192 pos] by (auto split: if_splits)
      have "?m + 2 \<le> length bs div 8192"
        using fit unfolding pos by (simp add: less_eq_div_iff_mult_less_eq)
      then have long: "2 \<le> length (take (PAGES_PER_SEGMENT - ?m) (drop (k - 1) pages))"
        unfolding d [symmetric] by simp
      then have same: "?m + 1 < PAGES_PER_SEGMENT" and kl: "k < length pages"
        using k0 unfolding length_take length_drop by linarith+
      have mk: "k mod PAGES_PER_SEGMENT = ?m + 1" "k div PAGES_PER_SEGMENT = (k - 1) div PAGES_PER_SEGMENT"
        using same mod_Suc [of "k - 1" PAGES_PER_SEGMENT] div_Suc [of "k - 1" PAGES_PER_SEGMENT] k0 by auto
      have dk: "drop (k mod PAGES_PER_SEGMENT) (page_list bs) =
          take (PAGES_PER_SEGMENT - k mod PAGES_PER_SEGMENT) (drop k pages)"
        using arg_cong [OF d, of "drop 1"] k0 unfolding mk by (simp add: drop_take)
      have "read_exact fs h pos 8192 = (Some (pages ! k), (k mod PAGES_PER_SEGMENT + 1) * 8192)"
        using read_page_at(1) [OF h dk k kl] unfolding mk pos .
      then have "get_page_by_index fs (Ok dir) pr k =
          (page_parse (pages ! k), pr\<lparr>reader_instance := Some (h, (k mod PAGES_PER_SEGMENT + 1) * 8192)\<rparr>)"
        by (simp add: get_page_by_index_def inst Let_def PAGE_BUFFER_SIZE_value)
      moreover have "reader_at fs dir (pr\<lparr>reader_instance := Some (h, (k mod PAGES_PER_SEGMENT + 1) * 8192)\<rparr>) pages (Suc k)"
        using walk o h dk kl mk(2) by (auto simp: reader_at_def)
      ultimately show ?thesis using kl by auto
    qed
  qed
qed

section \<open>The tuples of a relation\<close>

definition slot_row :: "heap_page_data \<Rightarrow> usize \<Rightarrow> heap_tuple_data list" where
  "slot_row page i = (case get_row_data page (word_of_nat i) of Ok t \<Rightarrow> [t] | _ \<Rightarrow> [])"

definition page_rows :: "heap_page_data \<Rightarrow> heap_tuple_data list" where
  "page_rows page = concat (map (slot_row page) [0..<lp_num page])"

text \<open>The tuples that a page conversion sees are the visible ones of the iterator's.\<close>

lemma live_tuples_filter: "live_tuples snapshot page = filter (\<lambda>t. tuple_visible snapshot (header t)) (page_rows page)"
  by (auto simp: live_tuples_def page_rows_def slot_row_def filter_concat comp_def
      intro!: arg_cong [of _ _ concat] split: outcome.split)

text \<open>
  The iterator stands on slot \<open>j\<close> of page \<open>k\<close> of the parsed pages \<open>hps\<close>.
\<close>

definition iter_at ::
    "'h file_system \<Rightarrow> string \<Rightarrow> bytes list \<Rightarrow> heap_page_data list \<Rightarrow> usize \<Rightarrow> usize \<Rightarrow> 'h page_row_iter \<Rightarrow> bool" where
  "iter_at fs dir pages hps k j it \<longleftrightarrow>
     k < length pages \<and> reader_at fs dir (page_reader it) pages (Suc k) \<and> current_page it = Some (hps ! k) \<and>
     (\<exists>ctid. current_row_info it = Some ctid \<and> unat (block_number (ip_blkid ctid)) = k \<and> unat (ip_posid ctid) = j \<and>
        j < 16384)"

definition rows_after :: "heap_page_data list \<Rightarrow> usize \<Rightarrow> usize \<Rightarrow> heap_tuple_data list" where
  "rows_after hps k j =
     concat (map (slot_row (hps ! k)) [Suc j..<lp_num (hps ! k)]) @ concat (map page_rows (drop (Suc k) hps))"

lemma get_row_data_slot:
  "get_row_data page (word_of_nat j) \<noteq> Panic \<and>
   (get_row_data page (word_of_nat j) = Ok t \<longrightarrow> slot_row page j = [t]) \<and>
   (get_row_data page (word_of_nat j) = Err e \<longrightarrow> slot_row page j = [])"
  by (simp add: slot_row_def get_row_data_eq Let_def)

lemma rows_after_step:
  assumes "Suc j < lp_num (hps ! k)"
  shows "rows_after hps k j = slot_row (hps ! k) (Suc j) @ rows_after hps k (Suc j)"
  using assms by (simp add: rows_after_def upt_conv_Cons)

lemma slot_row_none: "length (lp_items page) \<le> i \<Longrightarrow> i < 65536 \<Longrightarrow> slot_row page i = []"
  by (simp add: slot_row_def get_row_data_eq unsigned_of_nat take_bit_nat_eq_self)

lemma rows_after_page:
  assumes "lp_num (hps ! k) \<le> Suc j" and "Suc k < length hps"
    and "length (lp_items (hps ! Suc k)) = lp_num (hps ! Suc k)"
  shows "rows_after hps k j = slot_row (hps ! Suc k) 0 @ rows_after hps (Suc k) 0"
proof -
  have "page_rows (hps ! Suc k) = slot_row (hps ! Suc k) 0 @ concat (map (slot_row (hps ! Suc k)) [Suc 0..<lp_num (hps ! Suc k)])"
    using assms(3) slot_row_none [of "hps ! Suc k" 0]
    by (cases "lp_num (hps ! Suc k)") (simp_all add: page_rows_def upt_conv_Cons del: upt_Suc)
  then show ?thesis
    using assms(1,2) by (simp add: rows_after_def Cons_nth_drop_Suc [symmetric])
qed

lemma rows_after_end: "lp_num (hps ! k) \<le> Suc j \<Longrightarrow> length hps \<le> Suc k \<Longrightarrow> rows_after hps k j = []"
  by (simp add: rows_after_def)

text \<open>The block number survives its split into two halves.\<close>

lemma block_number_halves:
  "block_number \<lparr>bi_hi = ucast (drop_bit 16 (word_of_nat n :: u32)), bi_lo = word_of_nat n\<rparr> = (word_of_nat n :: u32)"
  unfolding block_number_def block_id_data.simps
  by (rule bit_word_eqI) (auto simp: bit_simps bit_of_nat_iff_bit possible_bit_def)

text \<open>The step on the slot that a turn arrives at.\<close>

definition visit_slot ::
    "heap_page_data \<Rightarrow> item_pointer_data \<Rightarrow> 'h page_row_iter \<Rightarrow>
     heap_tuple_data pg_result option turn \<times> 'h page_row_iter" where
  "visit_slot page ctid it =
     (let it = it\<lparr>current_row_info := Some ctid\<rparr> in
      case get_row_data page (ip_posid ctid) of
        Ok row \<Rightarrow> (Return (Some (Ok row)), it) | Err _ \<Rightarrow> (Again, it) | Panic \<Rightarrow> (Fault, it))"

lemma visit_slot_row:
  "(\<exists>t. slot_row page (unat (ip_posid ctid)) = [t] \<and>
      visit_slot page ctid it = (Return (Some (Ok t)), it\<lparr>current_row_info := Some ctid\<rparr>)) \<or>
   (slot_row page (unat (ip_posid ctid)) = [] \<and>
      visit_slot page ctid it = (Again, it\<lparr>current_row_info := Some ctid\<rparr>))"
  using get_row_data_slot [of page "unat (ip_posid ctid)"]
  by (cases "get_row_data page (ip_posid ctid)") (simp_all add: visit_slot_def slot_row_def)

definition next_slot :: "item_pointer_data option \<Rightarrow> item_pointer_data" where
  "next_slot current =
     (case current of
        Some ctid \<Rightarrow> ctid\<lparr>ip_posid := ip_posid ctid + 1\<rparr>
      | None \<Rightarrow> \<lparr>ip_blkid = \<lparr>bi_hi = 0, bi_lo = 0\<rparr>, ip_posid = 0\<rparr>)"

lemma row_iter_turn_visit:
  assumes "iter_page fs dir it = (Ok (Some page), it1)" and "advance_page fs dir page it1 = (Ok (Some page'), it2)"
  shows "row_iter_turn fs dir it = visit_slot page' (next_slot (current_row_info it2)) it2"
  using assms by (simp add: row_iter_turn_def visit_slot_def next_slot_def Let_def)

lemma row_iter_turn_same_page:
  assumes "current_page it = Some page" and "current_row_info it = Some ctid"
    and "unat (ip_posid ctid) + 1 < lp_num page"
  shows "row_iter_turn fs dir it = visit_slot page (ctid\<lparr>ip_posid := ip_posid ctid + 1\<rparr>) it"
proof -
  have "iter_page fs dir it = (Ok (Some page), it)" "advance_page fs dir page it = (Ok (Some page), it)"
    using assms by (simp_all add: iter_page_def advance_page_def)
  from row_iter_turn_visit [OF this] show ?thesis using assms(2) by (simp add: next_slot_def)
qed

lemma row_iter_turn_next_page:
  assumes "current_page it = Some page" and "current_row_info it = Some ctid"
    and "lp_num page \<le> unat (ip_posid ctid) + 1" and "unat (block_number (ip_blkid ctid)) = k"
    and "get_page_by_index fs dir (page_reader it) (k + 1) = (Ok page', pr')"
    and "blk = \<lparr>bi_hi = ucast (drop_bit 16 (word_of_nat (k + 1) :: u32)), bi_lo = word_of_nat (k + 1)\<rparr>"
  shows "row_iter_turn fs dir it =
    visit_slot page' \<lparr>ip_blkid = blk, ip_posid = 0\<rparr>
      (it\<lparr>page_reader := pr', current_page := Some page',
         current_row_info := Some \<lparr>ip_blkid = blk, ip_posid = 65535\<rparr>\<rparr>)"
proof -
  have "iter_page fs dir it = (Ok (Some page), it)"
    using assms(1) by (simp add: iter_page_def)
  moreover have "advance_page fs dir page it =
      (Ok (Some page'), it\<lparr>page_reader := pr', current_page := Some page',
         current_row_info := Some \<lparr>ip_blkid = blk, ip_posid = 65535\<rparr>\<rparr>)"
    using assms by (simp add: advance_page_def Let_def)
  moreover have "next_slot (Some \<lparr>ip_blkid = blk, ip_posid = 65535\<rparr>) = \<lparr>ip_blkid = blk, ip_posid = 0\<rparr>"
    by (simp add: next_slot_def)
  ultimately show ?thesis by (simp add: row_iter_turn_visit)
qed

lemma row_iter_turn_end:
  assumes "current_page it = Some page" and "current_row_info it = Some ctid"
    and "lp_num page \<le> unat (ip_posid ctid) + 1"
    and "get_page_by_index fs dir (page_reader it) (unat (block_number (ip_blkid ctid)) + 1) = (Err e, pr')"
  shows "\<exists>it'. row_iter_turn fs dir it = (Return None, it')"
  using assms by (simp add: row_iter_turn_def iter_page_def advance_page_def Let_def)

lemma row_iter_turn_start:
  assumes "current_page it = None" and "current_row_info it = None"
    and "get_page_by_index fs dir (page_reader it) 0 = (Ok page, pr)"
  shows "row_iter_turn fs dir it =
    visit_slot page \<lparr>ip_blkid = \<lparr>bi_hi = 0, bi_lo = 0\<rparr>, ip_posid = 0\<rparr> (it\<lparr>page_reader := pr, current_page := Some page\<rparr>)"
proof -
  let ?it = "it\<lparr>page_reader := pr, current_page := Some page\<rparr>"
  have "iter_page fs dir it = (Ok (Some page), ?it)" "advance_page fs dir page ?it = (Ok (Some page), ?it)"
    using assms by (simp_all add: iter_page_def advance_page_def)
  from row_iter_turn_visit [OF this] show ?thesis using assms(2) by (simp add: next_slot_def)
qed

text \<open>What the iterator has still to yield.\<close>

definition iter_rows ::
    "'h file_system \<Rightarrow> string \<Rightarrow> 'h page_row_iter \<Rightarrow> heap_tuple_data list \<Rightarrow> bool" where
  "iter_rows fs dir it rows \<longleftrightarrow>
     (\<exists>pages hps. map page_parse pages = map Ok hps \<and> length pages < 2 ^ 32 \<and>
        ((\<exists>k j. iter_at fs dir pages hps k j it \<and> rows = rows_after hps k j) \<or>
         (reader_at fs dir (page_reader it) pages 0 \<and> current_page it = None \<and> current_row_info it = None \<and>
          rows = concat (map page_rows hps))))"

text \<open>Slots left, counted with room to spare for each page.\<close>

definition slots_left :: "heap_page_data list \<Rightarrow> usize \<Rightarrow> usize \<Rightarrow> usize" where
  "slots_left hps k j = (length hps - k) * 20000 - j"

text \<open>One turn: a row, another turn closer to the end, or the end.\<close>

definition turn_ok ::
    "'h file_system \<Rightarrow> string \<Rightarrow> bytes list \<Rightarrow> heap_page_data list \<Rightarrow> usize \<Rightarrow> heap_tuple_data list \<Rightarrow>
     heap_tuple_data pg_result option turn \<times> 'h page_row_iter \<Rightarrow> bool" where
  "turn_ok fs dir pages hps left rows res \<longleftrightarrow>
     (\<exists>k j it' t. res = (Return (Some (Ok t)), it') \<and> iter_at fs dir pages hps k j it' \<and> rows = t # rows_after hps k j) \<or>
     (\<exists>k j it'. res = (Again, it') \<and> iter_at fs dir pages hps k j it' \<and> rows = rows_after hps k j \<and>
        slots_left hps k j < left) \<or>
     (\<exists>it'. res = (Return None, it') \<and> rows = [])"

lemma visit_slot_turn_ok:
  assumes "k < length pages" and "reader_at fs dir (page_reader it) pages (Suc k)"
    and "current_page it = Some (hps ! k)"
    and "unat (block_number (ip_blkid ctid)) = k" and "unat (ip_posid ctid) = j" and "j < 16384"
    and "rows = slot_row (hps ! k) j @ rows_after hps k j" and "slots_left hps k j < left"
  shows "turn_ok fs dir pages hps left rows (visit_slot (hps ! k) ctid it)"
proof -
  have "iter_at fs dir pages hps k j (it\<lparr>current_row_info := Some ctid\<rparr>)"
    using assms by (simp add: iter_at_def)
  then show ?thesis
    using visit_slot_row [of "hps ! k" ctid it]
  proof (elim disjE exE conjE)
    fix t
    assume at: "iter_at fs dir pages hps k j (it\<lparr>current_row_info := Some ctid\<rparr>)"
      and "slot_row (hps ! k) (unat (ip_posid ctid)) = [t]"
      and "visit_slot (hps ! k) ctid it = (Return (Some (Ok t)), it\<lparr>current_row_info := Some ctid\<rparr>)"
    moreover from this have "rows = t # rows_after hps k j" using assms(5,7) by simp
    ultimately show ?thesis unfolding turn_ok_def by blast
  next
    assume at: "iter_at fs dir pages hps k j (it\<lparr>current_row_info := Some ctid\<rparr>)"
      and "slot_row (hps ! k) (unat (ip_posid ctid)) = []"
      and "visit_slot (hps ! k) ctid it = (Again, it\<lparr>current_row_info := Some ctid\<rparr>)"
    moreover from this have "rows = rows_after hps k j" using assms(5,7) by simp
    ultimately show ?thesis using assms(8) unfolding turn_ok_def by blast
  qed
qed

lemma parsed_pages:
  assumes "map page_parse pages = map Ok hps" and "k < length pages"
  shows "page_parse (pages ! k) = Ok (hps ! k)" and "k < length hps"
    and "length (lp_items (hps ! k)) = lp_num (hps ! k)" and "lp_num (hps ! k) \<le> 16377"
proof -
  have len: "length pages = length hps" using assms(1) map_eq_imp_length_eq by blast
  then show "k < length hps" using assms(2) by simp
  show p: "page_parse (pages ! k) = Ok (hps ! k)"
    using assms len by (metis nth_map)
  show "length (lp_items (hps ! k)) = lp_num (hps ! k)" "lp_num (hps ! k) \<le> 16377"
    using p parsed_page_pointers unfolding page_parse_def by blast+
qed

lemma turn_from_slot:
  assumes parsed: "map page_parse pages = map Ok hps" and few: "length pages < 2 ^ 32"
    and at: "iter_at fs dir pages hps k j it"
  shows "turn_ok fs dir pages hps (slots_left hps k j) (rows_after hps k j) (row_iter_turn fs (Ok dir) it)"
proof -
  obtain ctid where k: "k < length pages" and rd: "reader_at fs dir (page_reader it) pages (Suc k)"
    and page: "current_page it = Some (hps ! k)" and ctid: "current_row_info it = Some ctid"
    and blk: "unat (block_number (ip_blkid ctid)) = k" and pos: "unat (ip_posid ctid) = j" and j: "j < 16384"
    using at by (auto simp: iter_at_def)
  note hk = parsed_pages [OF parsed k]
  have len: "length pages = length hps" using parsed map_eq_imp_length_eq by blast
  show ?thesis
  proof (cases "j + 1 < lp_num (hps ! k)")
    case True
    have "unat (ip_posid ctid + 1) = Suc j"
      using pos j by (simp add: unat_word_ariths)
    moreover have "slots_left hps k (Suc j) < slots_left hps k j"
      using hk(2) j by (simp add: slots_left_def)
    ultimately have "turn_ok fs dir pages hps (slots_left hps k j) (rows_after hps k j)
        (visit_slot (hps ! k) (ctid\<lparr>ip_posid := ip_posid ctid + 1\<rparr>) it)"
      using k rd page blk True hk(4) rows_after_step [of j hps k]
      by (intro visit_slot_turn_ok [where j = "Suc j"]) simp_all
    then show ?thesis
      using row_iter_turn_same_page [OF page ctid, of fs "Ok dir"] True pos by simp
  next
    case False
    then have full: "lp_num (hps ! k) \<le> unat (ip_posid ctid) + 1" using pos by simp
    show ?thesis
    proof (cases "Suc k < length pages")
      case True
      note hk' = parsed_pages [OF parsed True]
      obtain pr' where pr': "get_page_by_index fs (Ok dir) (page_reader it) (Suc k) = (Ok (hps ! Suc k), pr')"
        "reader_at fs dir pr' pages (Suc (Suc k))"
        using get_page_in_order [OF rd] True hk'(1) by auto
      have "unat (word_of_nat (Suc k) :: u32) = Suc k"
        using True few by (simp only: unsigned_of_nat) (simp add: take_bit_nat_eq_self)
      then have blk': "unat (block_number \<lparr>bi_hi = ucast (drop_bit 16 (word_of_nat (k + 1) :: u32)),
          bi_lo = word_of_nat (k + 1)\<rparr>) = Suc k"
        by (simp only: block_number_halves Suc_eq_plus1)
      have "slots_left hps (Suc k) 0 < slots_left hps k j"
        using True len j by (simp add: slots_left_def)
      then have "turn_ok fs dir pages hps (slots_left hps k j) (rows_after hps k j)
          (visit_slot (hps ! Suc k) \<lparr>ip_blkid = \<lparr>bi_hi = ucast (drop_bit 16 (word_of_nat (k + 1) :: u32)),
              bi_lo = word_of_nat (k + 1)\<rparr>, ip_posid = 0\<rparr>
            (it\<lparr>page_reader := pr', current_page := Some (hps ! Suc k),
               current_row_info := Some \<lparr>ip_blkid = \<lparr>bi_hi = ucast (drop_bit 16 (word_of_nat (k + 1) :: u32)),
                 bi_lo = word_of_nat (k + 1)\<rparr>, ip_posid = 65535\<rparr>\<rparr>))"
        using True pr'(2) blk' full pos hk'(3) len rows_after_page [of hps k j]
        by (intro visit_slot_turn_ok [where j = 0]) simp_all
      then show ?thesis
        using row_iter_turn_next_page [OF page ctid full blk, of fs "Ok dir" "hps ! Suc k" pr', OF _ refl] pr'(1)
        by (simp only: Suc_eq_plus1)
    next
      case False
      then have "Suc k = length pages" using k by simp
      then obtain pr' where "get_page_by_index fs (Ok dir) (page_reader it) (Suc k) = (Err Generic, pr')"
        using get_page_in_order [OF rd] by auto
      then obtain it' where "row_iter_turn fs (Ok dir) it = (Return None, it')"
        using row_iter_turn_end [OF page ctid full, of fs "Ok dir" Generic pr'] blk by auto
      moreover have "rows_after hps k j = []"
        using full pos False len by (intro rows_after_end) simp_all
      ultimately show ?thesis by (simp add: turn_ok_def)
    qed
  qed
qed

lemma turn_from_start:
  assumes parsed: "map page_parse pages = map Ok hps"
    and at: "reader_at fs dir (page_reader it) pages 0" "current_page it = None" "current_row_info it = None"
  shows "turn_ok fs dir pages hps (length hps * 20000 + 1) (concat (map page_rows hps)) (row_iter_turn fs (Ok dir) it)"
proof (cases "pages")
  case Nil
  then obtain pr' where "get_page_by_index fs (Ok dir) (page_reader it) 0 = (Err Generic, pr')"
    using get_page_in_order [OF at(1)] by auto
  then have "row_iter_turn fs (Ok dir) it = (Return None, it\<lparr>page_reader := pr'\<rparr>)"
    using at(2) by (simp add: row_iter_turn_def iter_page_def)
  moreover have "hps = []" using parsed Nil by simp
  ultimately show ?thesis by (simp add: turn_ok_def)
next
  case (Cons p ps)
  then have k: "0 < length pages" by simp
  note h0 = parsed_pages [OF parsed k]
  obtain pr' where pr': "get_page_by_index fs (Ok dir) (page_reader it) 0 = (Ok (hps ! 0), pr')"
    "reader_at fs dir pr' pages (Suc 0)"
    using get_page_in_order [OF at(1)] k h0(1) by auto
  have "concat (map page_rows hps) = page_rows (hps ! 0) @ concat (map page_rows (drop (Suc 0) hps))"
    using h0(2) Cons_nth_drop_Suc [of 0 hps] by (metis concat.simps(2) drop0 list.simps(9))
  also have "page_rows (hps ! 0) = slot_row (hps ! 0) 0 @ concat (map (slot_row (hps ! 0)) [Suc 0..<lp_num (hps ! 0)])"
    using h0(3) slot_row_none [of "hps ! 0" 0]
    by (cases "lp_num (hps ! 0)") (simp_all add: page_rows_def upt_conv_Cons del: upt_Suc)
  finally have "concat (map page_rows hps) = slot_row (hps ! 0) 0 @ rows_after hps 0 0"
    by (simp add: rows_after_def)
  moreover have "unat (block_number \<lparr>bi_hi = 0, bi_lo = 0\<rparr>) = 0" by (simp add: block_number_def)
  ultimately show ?thesis
    unfolding row_iter_turn_start [OF at(2,3) pr'(1)]
    using k pr'(2) by (intro visit_slot_turn_ok [where j = 0]) (simp_all add: slots_left_def)
qed

definition next_yields :: "'h file_system \<Rightarrow> string \<Rightarrow> 'h page_row_iter \<Rightarrow> heap_tuple_data list \<Rightarrow> bool" where
  "next_yields fs dir it rows \<longleftrightarrow>
     (case rows of
        [] \<Rightarrow> \<exists>it'. row_iter_next fs (Ok dir) it = Some (Ok None, it')
      | t # ts \<Rightarrow> \<exists>it'. row_iter_next fs (Ok dir) it = Some (Ok (Some (Ok t)), it') \<and> iter_rows fs dir it' ts)"

lemma next_yields_turn:
  assumes turn: "turn_ok fs dir pages hps left rows (row_iter_turn fs (Ok dir) it)"
    and parsed: "map page_parse pages = map Ok hps" and few: "length pages < 2 ^ 32"
    and again: "\<And>k j it'. iter_at fs dir pages hps k j it' \<Longrightarrow> slots_left hps k j < left \<Longrightarrow>
      next_yields fs dir it' (rows_after hps k j)"
  shows "next_yields fs dir it rows"
  using turn unfolding turn_ok_def
proof (elim disjE exE conjE)
  fix k j it' t
  assume "row_iter_turn fs (Ok dir) it = (Return (Some (Ok t)), it')" "iter_at fs dir pages hps k j it'"
    and "rows = t # rows_after hps k j"
  then show ?thesis
    using parsed few by (auto simp: next_yields_def iter_rows_def row_iter_next.simps [of fs "Ok dir" it])
next
  fix k j it'
  assume t: "row_iter_turn fs (Ok dir) it = (Again, it')" and "iter_at fs dir pages hps k j it'"
    and r: "rows = rows_after hps k j" and "slots_left hps k j < left"
  then have "next_yields fs dir it' (rows_after hps k j)" using again by blast
  moreover have "row_iter_next fs (Ok dir) it = row_iter_next fs (Ok dir) it'"
    using t by (simp add: row_iter_next.simps [of fs "Ok dir" it])
  ultimately show ?thesis by (simp only: next_yields_def r)
next
  fix it'
  assume "row_iter_turn fs (Ok dir) it = (Return None, it')" "rows = []"
  then show ?thesis by (simp add: next_yields_def row_iter_next.simps [of fs "Ok dir" it])
qed

lemma row_iter_next_at:
  assumes parsed: "map page_parse pages = map Ok hps" and few: "length pages < 2 ^ 32"
  shows "iter_at fs dir pages hps k j it \<Longrightarrow> next_yields fs dir it (rows_after hps k j)"
proof (induction "slots_left hps k j" arbitrary: k j it rule: less_induct)
  case less
  show ?case
    by (rule next_yields_turn [OF turn_from_slot [OF parsed few less.prems] parsed few less.hyps])
qed

text \<open>\<open>next\<close> returns, and gives the first row that is left, or the end.\<close>

lemma row_iter_next_rows: "iter_rows fs dir it rows \<Longrightarrow> next_yields fs dir it rows"
  unfolding iter_rows_def
  using row_iter_next_at next_yields_turn [OF turn_from_start] by blast

text \<open>The row iterator is an item source.\<close>

interpretation row_iter: item_source "row_iter_next fs (Ok dir)" "\<lambda>it items. \<exists>rows. items = map Ok rows \<and> iter_rows fs dir it rows"
  for fs dir
proof (unfold_locales, goal_cases)
  case (1 it)
  then show ?case using row_iter_next_rows [of fs dir it "[]"] by (auto simp: next_yields_def)
next
  case (2 it item items)
  then obtain t ts where "item = Ok t" "items = map Ok ts" "iter_rows fs dir it (t # ts)"
    by (auto simp: Cons_eq_map_conv)
  then show ?case using row_iter_next_rows [of fs dir it "t # ts"] by (auto simp: next_yields_def)
qed

text \<open>A fresh iterator over a relation whose pages parse has all their rows to yield.\<close>

lemma fresh_iter_rows:
  assumes "segment_walk fs (segment_path dir r) 0 pages" and "open_file fs (segment_path dir r 0) \<noteq> None"
    and "map page_parse pages = map Ok hps" and "length pages < 2 ^ 32"
    and "get_page_reader r = (Ok pr :: 'h page_reader pg_result)"
  shows "iter_rows fs dir (into_iter pr) (concat (map page_rows hps))"
proof -
  have pr: "pr = \<lparr>segment_chunk_reader = r, reader_instance = None\<rparr>" using assms(5) by (simp add: get_page_reader_def)
  have "reader_at fs dir pr pages 0" using assms(1,2) by (simp add: reader_at_def pr)
  then show ?thesis
    using assms(3,4) unfolding iter_rows_def
    by (intro exI [of _ pages] exI [of _ hps]) (simp add: into_iter_def)
qed

section \<open>A relation of one page\<close>

text \<open>A file system whose handles are the contents.\<close>

definition disk :: "(string \<rightharpoonup> bytes) \<Rightarrow> bytes file_system" where
  "disk files =
     \<lparr>metadata_len = (\<lambda>p. case files p of Some bs \<Rightarrow> Ok (length bs) | None \<Rightarrow> Err NotFound),
      open_file = files, pread = (\<lambda>h n off. Some (take n (drop off h))), seek_ok = (\<lambda>h off. True)\<rparr>"

abbreviation one_file :: "string \<Rightarrow> bytes \<Rightarrow> bytes file_system" where
  "one_file path content \<equiv> disk [path \<mapsto> content]"

lemma disk_walk:
  assumes "files (path segno) = Some bs" and "length bs div 8192 < 131072"
  shows "segment_walk (disk files) path segno (page_list bs)"
  by (rule last_segment [where h = bs])
    (use assms in \<open>simp_all add: disk_def file_holds_def PAGES_PER_SEGMENT_value\<close>)

abbreviation sample_fs :: "bytes file_system" where
  "sample_fs \<equiv> one_file ''/d/base/5/7'' (page_data sample_page)"

abbreviation sample_reader :: "bytes table_file_reader" where
  "sample_reader \<equiv> table_file_reader_new 5 7"

lemma show_digits: "show_nat 5 = ''5''" "show_nat 7 = ''7''"
  by code_simp+

lemma sample_path: "segment_path ''/d'' sample_reader 0 = ''/d/base/5/7''"
  by (simp add: segment_path_def table_file_reader_new_def show_digits Let_def)

lemma sample_page_length: "length (page_data sample_page) = 8192"
  by (simp add: sample_page_def sample_rest_def Let_def) (simp add: tuple_bytes_def sample_tuple_def)

lemma one_file_walk:
  assumes "length bs div 8192 < 131072"
  shows "segment_walk (one_file ''/d/base/5/7'' bs) (segment_path ''/d'' sample_reader) 0 (page_list bs)"
  by (rule disk_walk [OF _ assms]) (simp add: sample_path)

lemma sample_page_rows: "page_rows sample_page = [sample_tuple [5] [5, 0, 0, 0, 7, 0, 0, 0], sample_deleted]"
proof -
  have "lp_num sample_page = Suc (Suc 0)" by (simp add: sample_page_def Let_def)
  then show ?thesis by (simp add: page_rows_def slot_row_def sample_slots)
qed

lemma sample_pages:
  "page_list (page_data sample_page) = [page_data sample_page]"
  "page_list (page_data sample_page @ page_data sample_page) = [page_data sample_page, page_data sample_page]"
  using page_list_Cons [of "page_data sample_page @ page_data sample_page"] page_list_Cons [of "page_data sample_page"]
  by (simp_all add: sample_page_length page_list_short)

lemma sample_walk: "segment_walk sample_fs (segment_path ''/d'' sample_reader) 0 [page_data sample_page]"
  using one_file_walk [of "page_data sample_page"] by (simp add: sample_pages sample_page_length)

lemma sample_open: "open_file sample_fs (segment_path ''/d'' sample_reader 0) = Some (page_data sample_page)"
  by (simp add: disk_def sample_path)

lemma sample_parsed: "map page_parse [page_data sample_page] = map Ok [sample_page]"
  using sample_page_parse by (simp add: page_parse_def)

lemma ofold_push: "ofold (\<lambda>item items. Ok (items @ [item])) xs ys = Ok (ys @ xs)"
  by (induction xs arbitrary: ys) simp_all

section \<open>Properties\<close>

text \<open>
  C30: \<open>segment_sizes\<close> and \<open>num_pages\<close> end and give the size of the relation: the segments are listed in
  order from segment 0 until one is missing or holds fewer than 131072 pages, every segment but the
  last is full, and the sum of their whole pages is the number of pages of the relation; a torn page
  at the end is not counted.
\<close>

theorem num_pages_total:
  assumes "segment_walk fs (segment_path dir r) 0 pages"
  shows "\<exists>segs. segment_sizes fs (Ok dir) r = Some (Ok segs) \<and>
    map seg_path segs = map (segment_path dir r) [0..<length segs] \<and>
    (\<forall>s \<in> set (butlast segs). seg_pages s = 131072) \<and>
    num_pages fs (Ok dir) r = Some (Ok (length pages))"
proof -
  obtain segs where "segment_loop fs (Ok dir) r 0 [] = Some (Ok segs)"
    and "sum_list (map seg_pages segs) = length pages" "map seg_path segs = map (segment_path dir r) [0..<length segs]"
    "\<forall>s \<in> set (butlast segs). seg_pages s = PAGES_PER_SEGMENT"
    using segment_loop_walk [OF assms refl, of "[]"] by auto
  then show ?thesis
    by (intro exI [of _ segs]) (simp add: segment_sizes_def num_pages_def PAGES_PER_SEGMENT_value)
qed

theorem num_pages_total_witness: "num_pages sample_fs (Ok ''/d'') sample_reader = Some (Ok 1)"
  using num_pages_total [OF sample_walk] by auto

text \<open>
  C6: \<open>read_pages_bulk\<close> returns exactly the pages asked for, up to the end of the relation, across segment
  boundaries and whatever segment the reader has cached from earlier calls; it leaves a reader of the
  same relation.
\<close>

theorem read_pages_bulk_exact:
  assumes "relation_holds fs dir r pages" and "i \<le> length pages" and "n * 8192 < 2 ^ 63" and "i + n < 2 ^ 64"
  shows "\<exists>r'. read_pages_bulk fs (Ok dir) r i n =
      (Ok (concat (take n (drop i pages)), min n (length pages - i)), r') \<and> relation_holds fs dir r' pages"
  using read_pages_bulk_pages [OF assms] by (simp add: min.commute)

theorem read_pages_bulk_exact_witness:
  "\<exists>r'. read_pages_bulk sample_fs (Ok ''/d'') sample_reader 0 128 = (Ok (page_data sample_page, 1), r')"
proof -
  have "relation_holds sample_fs ''/d'' sample_reader [page_data sample_page]"
    using sample_walk by (simp add: relation_holds_def cache_ok_def table_file_reader_new_def)
  from read_pages_bulk_exact [OF this, of 0 128] show ?thesis by auto
qed

text \<open>
  C5: Iterating over a relation returns, terminates, and yields the tuple of every line pointer that
  \<open>get_row_data\<close> accepts, page by page and in line pointer order, and nothing else; pages without line
  pointers and unusable line pointers are passed over.
\<close>

theorem row_iter_yields_all:
  assumes "segment_walk fs (segment_path dir r) 0 pages" and "open_file fs (segment_path dir r 0) \<noteq> None"
    and "map page_parse pages = map Ok hps" and "length pages < 2 ^ 32"
    and "get_page_reader r = (Ok pr :: 'h page_reader pg_result)"
  shows "for_each (row_iter_next fs (Ok dir)) (\<lambda>item items. Ok (items @ [item])) (into_iter pr) [] =
    Some (Ok (concat (map (\<lambda>page. concat (map (\<lambda>i. case get_row_data page (word_of_nat i) of
                 Ok t \<Rightarrow> [Ok t] | _ \<Rightarrow> []) [0..<lp_num page])) hps)))"
proof -
  let ?rows = "concat (map page_rows hps)"
  have slot: "map Ok (slot_row page i) = (case get_row_data page (word_of_nat i) of
      Ok t \<Rightarrow> [Ok t :: heap_tuple_data pg_result] | _ \<Rightarrow> [])" for page i
    by (simp add: slot_row_def split: outcome.split)
  have "map Ok ?rows = concat (map (\<lambda>page. concat (map (\<lambda>i. case get_row_data page (word_of_nat i) of
      Ok t \<Rightarrow> [Ok t :: heap_tuple_data pg_result] | _ \<Rightarrow> []) [0..<lp_num page])) hps)"
    by (simp add: map_concat page_rows_def comp_def slot)
  moreover have "\<exists>rows. map Ok ?rows = map Ok rows \<and> iter_rows fs dir (into_iter pr) rows"
    using fresh_iter_rows [OF assms] by blast
  from row_iter.for_each_yields [OF this, of "\<lambda>item items. Ok (items @ [item])" "[]"]
  have "for_each (row_iter_next fs (Ok dir)) (\<lambda>item items. Ok (items @ [item])) (into_iter pr) [] = Some (Ok (map Ok ?rows))"
    by (simp add: ofold_push)
  ultimately show ?thesis by (simp only:)
qed

theorem row_iter_yields_all_witness:
  "for_each (row_iter_next sample_fs (Ok ''/d'')) (\<lambda>item items. Ok (items @ [item]))
      (into_iter \<lparr>segment_chunk_reader = sample_reader, reader_instance = None\<rparr>) [] =
    Some (Ok (concat (map (\<lambda>page. concat (map (\<lambda>i. case get_row_data page (word_of_nat i) of
      Ok t \<Rightarrow> [Ok t] | _ \<Rightarrow> []) [0..<lp_num page])) [sample_page])))"
  by (rule row_iter_yields_all [OF sample_walk _ sample_parsed])
    (simp_all add: sample_open get_page_reader_def)

text \<open>
  \<open>get_page_by_index\<close> reads in sequence: once a page has been read, the next call gives the page
  after it, whatever index it is called with, as long as that page lies in the same segment.
\<close>

theorem get_page_ignores_index:
  assumes "reader_at fs dir pr pages k" and "0 < k" and "k < length pages" and "k mod 131072 \<noteq> 0"
  shows "fst (get_page_by_index fs (Ok dir) pr i) = page_parse (pages ! k)"
proof -
  obtain h pos bs where inst: "reader_instance pr = Some (h, pos)" and h: "file_holds fs h bs"
    and pos: "pos = ((k - 1) mod PAGES_PER_SEGMENT + 1) * 8192"
    and d: "drop ((k - 1) mod PAGES_PER_SEGMENT) (page_list bs) =
      take (PAGES_PER_SEGMENT - (k - 1) mod PAGES_PER_SEGMENT) (drop (k - 1) pages)"
    using assms(1,2) by (auto simp: reader_at_def split: option.splits)
  have mk: "k mod PAGES_PER_SEGMENT = (k - 1) mod PAGES_PER_SEGMENT + 1"
    using assms(2,4) mod_Suc [of "k - 1" PAGES_PER_SEGMENT] by (simp add: PAGES_PER_SEGMENT_value split: if_splits)
  have "drop (k mod PAGES_PER_SEGMENT) (page_list bs) =
      take (PAGES_PER_SEGMENT - k mod PAGES_PER_SEGMENT) (drop k pages)"
    using arg_cong [OF d, of "drop 1"] assms(2) unfolding mk by (simp add: drop_take)
  then have "read_exact fs h pos PAGE_BUFFER_SIZE = (Some (pages ! k), (k mod PAGES_PER_SEGMENT + 1) * 8192)"
    using read_page_at(1) [OF h _ _ assms(3)] assms(3) by (simp add: pos mk PAGE_BUFFER_SIZE_value)
  then show ?thesis by (simp add: get_page_by_index_def inst Let_def)
qed

theorem get_page_ignores_index_witness:
  "\<exists>pr. fst (get_page_by_index (one_file ''/d/base/5/7'' (page_data sample_page @ page_data sample_page)) (Ok ''/d'') pr 42) =
    Ok sample_page"
proof -
  let ?two = "page_data sample_page @ page_data sample_page"
  let ?fs = "one_file ''/d/base/5/7'' ?two" and ?ps = "[page_data sample_page, page_data sample_page]"
  let ?pr = "\<lparr>segment_chunk_reader = sample_reader, reader_instance = Some (?two, 8192)\<rparr>"
  have "segment_walk ?fs (segment_path ''/d'' sample_reader) 0 ?ps"
    using one_file_walk [of ?two] by (simp add: sample_pages sample_page_length)
  moreover have "open_file ?fs (segment_path ''/d'' sample_reader 0) = Some ?two"
    by (simp add: disk_def sample_path)
  moreover have "file_holds ?fs ?two ?two"
    by (simp add: file_holds_def disk_def)
  ultimately have "reader_at ?fs ''/d'' ?pr ?ps 1"
    unfolding reader_at_def
    by (intro conjI) (simp, simp, intro exI [of _ ?two], simp add: sample_pages PAGES_PER_SEGMENT_value)
  from get_page_ignores_index [OF this, of 42]
  have "fst (get_page_by_index ?fs (Ok ''/d'') ?pr 42) = Ok sample_page"
    using sample_page_parse by (simp add: page_parse_def)
  then show ?thesis by blast
qed

text \<open>
  A relation whose first file does not open makes the first page access panic, also through the row
  iterator, although \<open>get_reader\<close> reports an error; at a later segment the same failure is the end of
  the relation.
\<close>

theorem missing_file_panics:
  assumes "open_file fs (segment_path dir r 0) = None" and "get_page_reader r = (Ok pr :: 'h page_reader pg_result)"
  shows "get_reader fs (Ok dir) r 0 = Err Generic \<and>
    fst (get_page_by_index fs (Ok dir) pr 0) = Panic \<and>
    (\<exists>it. row_iter_next fs (Ok dir) (into_iter pr) = Some (Panic, it))"
proof -
  have pr: "pr = \<lparr>segment_chunk_reader = r, reader_instance = None\<rparr>" using assms(2) by (simp add: get_page_reader_def)
  have g: "get_reader fs (Ok dir) r (0 * PAGE_BUFFER_SIZE) = Err Generic"
    unfolding get_reader_eq using assms(1) by simp
  then have p: "get_page_by_index fs (Ok dir) pr 0 = (Panic, pr)"
    by (simp add: get_page_by_index_def pr)
  then have "\<exists>it. row_iter_turn fs (Ok dir) (into_iter pr) = (Fault, it)"
    by (simp add: row_iter_turn_def iter_page_def into_iter_def)
  then have "\<exists>it. row_iter_next fs (Ok dir) (into_iter pr) = Some (Panic, it)"
    by (subst row_iter_next.simps) auto
  then show ?thesis using g p by simp
qed

theorem missing_file_panics_witness:
  "fst (get_page_by_index sample_fs (Ok ''/other'') \<lparr>segment_chunk_reader = sample_reader, reader_instance = None\<rparr> 0) = Panic"
proof -
  have "open_file sample_fs (segment_path ''/other'' sample_reader 0) = None"
    by (simp add: disk_def segment_path_def table_file_reader_new_def show_digits Let_def)
  from missing_file_panics [OF this, of "\<lparr>segment_chunk_reader = sample_reader, reader_instance = None\<rparr>"]
  show ?thesis by (simp add: get_page_reader_def)
qed

end
