(* ===== verification/Streams.thy ===== *)
theory Streams
  imports Scans
begin

text \<open>
  The batch streams of \<open>src/file/reader.rs\<close>: \<open>RecordBatchStream\<close>, which converts the pages of a
  relation to record batches one bulk read at a time, its parallel converter, and \<open>AsyncBatchStream\<close>,
  which runs the same stream in blocking tasks.

  \<open>RecordBatchStream\<close> is generic in its \<open>ChunkReader\<close>: here the state of the reader and its
  \<open>read_pages_bulk\<close> are arguments.
\<close>

section \<open>The synchronous stream\<close>

definition DEFAULT_PAGES_PER_BATCH :: usize where
  "DEFAULT_PAGES_PER_BATCH = 128"

record ('s, 'batch) record_batch_stream =
  chunk_source :: 's
  stream_schema :: pg_schema
  projection :: "usize list option"
  pages_per_batch :: usize
  num_threads :: usize
  next_page_index :: usize
  max_page_index :: "usize option"
  buffer :: "'batch list"
  exhausted :: bool
  stream_snapshot :: "pg_snapshot option"

text \<open>\<open>threads\<close> is what \<open>available_parallelism\<close> gives.\<close>

definition record_batch_stream_new ::
    "usize option \<Rightarrow> 's \<Rightarrow> pg_schema \<Rightarrow> usize list option \<Rightarrow> ('s, 'batch) record_batch_stream" where
  "record_batch_stream_new threads source s proj =
     \<lparr>chunk_source = source, stream_schema = s, projection = proj, pages_per_batch = DEFAULT_PAGES_PER_BATCH,
      num_threads = (case threads of Some n \<Rightarrow> n | None \<Rightarrow> 4), next_page_index = 0, max_page_index = None,
      buffer = [], exhausted = False, stream_snapshot = None\<rparr>"

definition with_snapshot :: "pg_snapshot \<Rightarrow> ('s, 'batch) record_batch_stream \<Rightarrow> ('s, 'batch) record_batch_stream" where
  "with_snapshot snap st = st\<lparr>stream_snapshot := Some snap\<rparr>"

definition with_pages_per_batch :: "usize \<Rightarrow> ('s, 'batch) record_batch_stream \<Rightarrow> ('s, 'batch) record_batch_stream" where
  "with_pages_per_batch n st = st\<lparr>pages_per_batch := (if n = 0 then DEFAULT_PAGES_PER_BATCH else n)\<rparr>"

definition with_page_range ::
    "usize \<Rightarrow> usize \<Rightarrow> ('s, 'batch) record_batch_stream \<Rightarrow> ('s, 'batch) record_batch_stream" where
  "with_page_range start stop st = st\<lparr>next_page_index := start, max_page_index := Some stop\<rparr>"

text \<open>
  The loop over the pages of a bulk read: each is sliced out, parsed, converted, and its batch is
  pushed; \<open>batch.unwrap()\<close> panics where the conversion fails.
\<close>

fun push_batches ::
    "('arr, 'batch) arrow_lib \<Rightarrow> pg_schema \<Rightarrow> usize list option \<Rightarrow> pg_snapshot option \<Rightarrow> bytes \<Rightarrow> usize list \<Rightarrow>
     'batch list \<Rightarrow> 'batch list \<times> unit pg_result" where
  "push_batches lib s proj snapshot bulk_bytes [] buf = (buf, Ok ())"
| "push_batches lib s proj snapshot bulk_bytes (i # rest) buf =
     (let start = i * PAGE_BUFFER_SIZE; stop = start + PAGE_BUFFER_SIZE in
      case obind (index_range bulk_bytes start stop) (\<lambda>page_bytes.
           obind (page_parse_bytes page_bytes) (\<lambda>page.
             unwrap (to_record_batch lib page s proj snapshot))) of
        Ok batch \<Rightarrow> push_batches lib s proj snapshot bulk_bytes rest (buf @ [batch])
      | Err e \<Rightarrow> (buf, Err e)
      | Panic \<Rightarrow> (buf, Panic))"

definition fill_buffer ::
    "('arr, 'batch) arrow_lib \<Rightarrow> ('s \<Rightarrow> usize \<Rightarrow> usize \<Rightarrow> (bytes \<times> usize) pg_result \<times> 's) \<Rightarrow>
     ('s, 'batch) record_batch_stream \<Rightarrow> unit pg_result \<times> ('s, 'batch) record_batch_stream" where
  "fill_buffer lib read_bulk st =
     (if exhausted st then (Ok (), st)
      else
        let want = (case max_page_index st of
                      Some m \<Rightarrow> min (pages_per_batch st) (m - next_page_index st)
                    | None \<Rightarrow> pages_per_batch st)
        in
        if want = 0 then (Ok (), st\<lparr>exhausted := True\<rparr>)
        else
          (case read_bulk (chunk_source st) (next_page_index st) want of
             (Err e, source) \<Rightarrow> (Err e, st\<lparr>chunk_source := source\<rparr>)
           | (Panic, source) \<Rightarrow> (Panic, st\<lparr>chunk_source := source\<rparr>)
           | (Ok (bulk_bytes, pages_read), source) \<Rightarrow>
               let st = st\<lparr>chunk_source := source\<rparr> in
               if pages_read = 0 then (Ok (), st\<lparr>exhausted := True\<rparr>)
               else
                 (case push_batches lib (stream_schema st) (projection st) (stream_snapshot st) bulk_bytes
                         [0..<pages_read] (buffer st) of
                    (buf, Ok _) \<Rightarrow>
                      (Ok (), st\<lparr>buffer := buf, next_page_index := next_page_index st + pages_read,
                                exhausted := pages_read < want\<rparr>)
                  | (buf, Err e) \<Rightarrow> (Err e, st\<lparr>buffer := buf\<rparr>)
                  | (buf, Panic) \<Rightarrow> (Panic, st\<lparr>buffer := buf\<rparr>))))"

text \<open>\<open>self.buffer.pop_front()\<close>\<close>

definition pop_front :: "('s, 'batch) record_batch_stream \<Rightarrow> 'batch option \<times> ('s, 'batch) record_batch_stream" where
  "pop_front st = (case buffer st of [] \<Rightarrow> (None, st) | b # bs \<Rightarrow> (Some b, st\<lparr>buffer := bs\<rparr>))"

definition stream_next ::
    "('arr, 'batch) arrow_lib \<Rightarrow> ('s \<Rightarrow> usize \<Rightarrow> usize \<Rightarrow> (bytes \<times> usize) pg_result \<times> 's) \<Rightarrow>
     ('s, 'batch) record_batch_stream \<Rightarrow>
     ((pg_error, 'batch pg_result option) outcome \<times> ('s, 'batch) record_batch_stream) option" where
  "stream_next lib read_bulk st =
     (case pop_front st of
        (Some batch, st) \<Rightarrow> Some (Ok (Some (Ok batch)), st)
      | (None, st) \<Rightarrow>
          if exhausted st then Some (Ok None, st)
          else
            (case fill_buffer lib read_bulk st of
               (Err e, st) \<Rightarrow> Some (Ok (Some (Err e)), st)
             | (Panic, st) \<Rightarrow> Some (Panic, st)
             | (Ok _, st) \<Rightarrow> (case pop_front st of (batch, st) \<Rightarrow> Some (Ok (map_option Ok batch), st))))"

text \<open>\<open>PageReader::into_batch_stream\<close> and \<open>read_all_to_batches\<close>; the loop leaves at the first error.\<close>

definition into_batch_stream ::
    "usize option \<Rightarrow> 's \<Rightarrow> pg_schema \<Rightarrow> usize list option \<Rightarrow> ('s, 'batch) record_batch_stream" where
  "into_batch_stream threads source s proj = record_batch_stream_new threads source s proj"

definition read_all_to_batches ::
    "('arr, 'batch) arrow_lib \<Rightarrow> ('s \<Rightarrow> usize \<Rightarrow> usize \<Rightarrow> (bytes \<times> usize) pg_result \<times> 's) \<Rightarrow> usize option \<Rightarrow>
     's \<Rightarrow> pg_schema \<Rightarrow> usize list option \<Rightarrow> 'batch list pg_result option" where
  "read_all_to_batches lib read_bulk threads source s proj =
     for_each (stream_next lib read_bulk) (\<lambda>item bs. obind item (\<lambda>batch. Ok (bs @ [batch])))
       (record_batch_stream_new threads source s proj) []"

section \<open>The parallel converter\<close>

text \<open>
  \<open>convert_pages_parallel\<close>: one task per chunk, joined in order.  A task that panics makes its
  \<open>join().unwrap()\<close> panic; the results are looked at after all tasks are joined.
\<close>

function chunks :: "usize \<Rightarrow> 'a list \<Rightarrow> 'a list list" where
  "chunks n xs = (if xs = [] \<or> n = 0 then [] else take n xs # chunks n (drop n xs))"
  by pat_completeness auto
termination
  by (relation "measure (\<lambda>(n, xs). length xs)") auto

declare chunks.simps [simp del]

definition convert_pages_parallel ::
    "('arr, 'batch) arrow_lib \<Rightarrow> heap_page_data list \<Rightarrow> pg_schema \<Rightarrow> usize list option \<Rightarrow> usize \<Rightarrow>
     'batch list pg_result" where
  "convert_pages_parallel lib pages s proj threads =
     (if pages = [] then Ok []
      else
        let effective_threads = min threads (length pages) in
        if effective_threads \<le> 1 \<or> length pages \<le> 2
        then omap (\<lambda>page. to_record_batch lib page s proj None) pages
        else
          let chunk_size = div_ceil (length pages) effective_threads;
              handles = map (omap (\<lambda>page. to_record_batch lib page s proj None)) (chunks chunk_size pages)
          in
          if Panic \<in> set handles then Panic
          else obind (omap (\<lambda>result. result) handles) (\<lambda>batches. Ok (concat batches)))"

section \<open>The asynchronous stream\<close>

text \<open>
  \<open>AsyncBatchStream\<close>.  \<open>inner\<close> is \<open>None\<close> while a blocking task owns the stream.  \<open>begin_fill\<close> is
  \<open>next_batch\<close> up to its \<open>await\<close>: it returns a result at once, or hands the stream to a task;
  \<open>run_task\<close> is the task, and \<open>end_fill\<close> is the rest of \<open>next_batch\<close>.  A panic of the task is the
  \<open>JoinError\<close> whose text is \<open>join_err\<close>.
\<close>

record ('s, 'batch) async_batch_stream =
  inner :: "('s, 'batch) record_batch_stream option"
  async_buffer :: "'batch list"
  async_exhausted :: bool

definition async_batch_stream_new ::
    "usize option \<Rightarrow> usize \<Rightarrow> usize \<Rightarrow> pg_schema \<Rightarrow> usize list option \<Rightarrow>
     ('h table_file_reader, 'batch) async_batch_stream" where
  "async_batch_stream_new threads db rel s proj =
     \<lparr>inner = Some (record_batch_stream_new threads (table_file_reader_new db rel) s proj),
      async_buffer = [], async_exhausted = False\<rparr>"

definition async_with_pages_per_batch :: "usize \<Rightarrow> ('s, 'batch) async_batch_stream \<Rightarrow> ('s, 'batch) async_batch_stream" where
  "async_with_pages_per_batch n a = a\<lparr>inner := map_option (with_pages_per_batch n) (inner a)\<rparr>"

definition async_with_page_range ::
    "usize \<Rightarrow> usize \<Rightarrow> ('s, 'batch) async_batch_stream \<Rightarrow> ('s, 'batch) async_batch_stream" where
  "async_with_page_range start stop a = a\<lparr>inner := map_option (with_page_range start stop) (inner a)\<rparr>"

definition async_with_snapshot :: "pg_snapshot \<Rightarrow> ('s, 'batch) async_batch_stream \<Rightarrow> ('s, 'batch) async_batch_stream" where
  "async_with_snapshot snap a = a\<lparr>inner := map_option (with_snapshot snap) (inner a)\<rparr>"

datatype ('s, 'batch) fill_call =
    Done "'batch pg_result option"
  | Spawn "('s, 'batch) record_batch_stream"

definition begin_fill ::
    "('s, 'batch) async_batch_stream \<Rightarrow> ('s, 'batch) fill_call \<times> ('s, 'batch) async_batch_stream" where
  "begin_fill a =
     (case async_buffer a of
        batch # rest \<Rightarrow> (Done (Some (Ok batch)), a\<lparr>async_buffer := rest\<rparr>)
      | [] \<Rightarrow>
          if async_exhausted a then (Done None, a)
          else
            (case inner a of
               None \<Rightarrow> (Done None, a)
             | Some stream \<Rightarrow> (Spawn stream, a\<lparr>inner := None\<rparr>)))"

text \<open>The result of a task: \<open>FillResult\<close>, or \<open>None\<close> when it panicked.\<close>

definition run_task ::
    "('arr, 'batch) arrow_lib \<Rightarrow> ('s \<Rightarrow> usize \<Rightarrow> usize \<Rightarrow> (bytes \<times> usize) pg_result \<times> 's) \<Rightarrow>
     ('s, 'batch) record_batch_stream \<Rightarrow>
     (('s, 'batch) record_batch_stream \<times> 'batch list pg_result \<times> bool) option" where
  "run_task lib read_bulk stream =
     (case fill_buffer lib read_bulk stream of
        (Err e, stream) \<Rightarrow> Some (stream, Err e, exhausted stream)
      | (Ok _, stream) \<Rightarrow> Some (stream\<lparr>buffer := []\<rparr>, Ok (buffer stream), exhausted stream)
      | (Panic, _) \<Rightarrow> None)"

definition end_fill ::
    "string \<Rightarrow> (('s, 'batch) record_batch_stream \<times> 'batch list pg_result \<times> bool) option \<Rightarrow>
     ('s, 'batch) async_batch_stream \<Rightarrow> 'batch pg_result option \<times> ('s, 'batch) async_batch_stream" where
  "end_fill join_err result a =
     (case result of
        Some (stream, Ok batches, exh) \<Rightarrow>
          let a = a\<lparr>inner := Some stream, async_exhausted := exh \<and> batches = []\<rparr>;
              queue = async_buffer a @ batches
          in (case queue of
                [] \<Rightarrow> (None, a\<lparr>async_buffer := []\<rparr>)
              | batch # rest \<Rightarrow> (Some (Ok batch), a\<lparr>async_buffer := rest\<rparr>))
      | Some (stream, Err e, exh) \<Rightarrow> (Some (Err e), a\<lparr>inner := Some stream, async_exhausted := True\<rparr>)
      | Some (stream, Panic, exh) \<Rightarrow> (None, a)
      | None \<Rightarrow> (Some (Err (DecodeError join_err)), a\<lparr>async_exhausted := True\<rparr>))"

text \<open>A call of \<open>next_batch\<close> that is awaited to its end.\<close>

definition next_batch ::
    "('arr, 'batch) arrow_lib \<Rightarrow> ('s \<Rightarrow> usize \<Rightarrow> usize \<Rightarrow> (bytes \<times> usize) pg_result \<times> 's) \<Rightarrow> string \<Rightarrow>
     ('s, 'batch) async_batch_stream \<Rightarrow> 'batch pg_result option \<times> ('s, 'batch) async_batch_stream" where
  "next_batch lib read_bulk join_err a =
     (case begin_fill a of
        (Done item, a) \<Rightarrow> (item, a)
      | (Spawn stream, a) \<Rightarrow> end_fill join_err (run_task lib read_bulk stream) a)"

end
