(* ===== verification/StreamRuns.thy ===== *)
theory StreamRuns
  imports Streams
begin

text \<open>
  Runs of the batch streams of \<open>src/file/reader.rs\<close>: over any source of pages, the synchronous stream,
  the asynchronous one and the parallel converter give the batches of the pages, in order.  The
  asynchronous stream is also a transition system, in which the caller may drop the future.
\<close>

section \<open>Sources of pages\<close>

text \<open>
  The interface of a \<open>ChunkReader\<close> to the stream: \<open>holds s pages\<close> says that the source \<open>s\<close> reads these
  pages; a bulk read gives the pages asked for, up to the end, and keeps the source.
\<close>

locale page_source =
  fixes read_bulk :: "'s \<Rightarrow> usize \<Rightarrow> usize \<Rightarrow> (bytes \<times> usize) pg_result \<times> 's"
    and holds :: "'s \<Rightarrow> bytes list \<Rightarrow> bool"
  assumes bulk_pages:
    "holds s pages \<Longrightarrow> i \<le> length pages \<Longrightarrow> n * 8192 < 2 ^ 63 \<Longrightarrow> i + n < 2 ^ 64 \<Longrightarrow>
      \<exists>s'. read_bulk s i n = (Ok (concat (take n (drop i pages)), length (take n (drop i pages))), s') \<and> holds s' pages"
    and page_lengths: "holds s pages \<Longrightarrow> p \<in> set pages \<Longrightarrow> length p = 8192"

interpretation table_file: page_source "read_pages_bulk fs (Ok dir)" "relation_holds fs dir" for fs dir
proof (unfold_locales, goal_cases)
  case (1 s pages i n)
  then show ?case by (rule read_pages_bulk_pages)
next
  case (2 s pages p)
  then show ?case using segment_walk_sizes by (auto simp: relation_holds_def)
qed

section \<open>The batches of a stream\<close>

definition page_batch ::
    "('arr, 'batch) arrow_lib \<Rightarrow> pg_schema \<Rightarrow> usize list option \<Rightarrow> pg_snapshot option \<Rightarrow> bytes \<Rightarrow> 'batch pg_result" where
  "page_batch lib s proj snapshot p = obind (page_parse_bytes p) (\<lambda>page. to_record_batch lib page s proj snapshot)"

lemma concat_slice:
  "\<forall>p \<in> set ps. length p = n \<Longrightarrow> k < length ps \<Longrightarrow> take n (drop (k * n) (concat ps)) = ps ! k"
proof (induction ps arbitrary: k)
  case (Cons p ps)
  then show ?case by (cases k) (simp_all add: add.commute)
qed simp

lemma push_batches_all:
  assumes "\<forall>p \<in> set ps. length p = 8192" and "map (page_batch lib s proj snapshot) ps = map Ok bs" and "k \<le> length ps"
  shows "push_batches lib s proj snapshot (concat ps) [k..<length ps] buf = (buf @ drop k bs, Ok ())"
  using assms(3)
proof (induction "length ps - k" arbitrary: k buf)
  case 0
  then show ?case using map_eq_imp_length_eq [OF assms(2)] by simp
next
  case (Suc n)
  then have k: "k < length ps" by simp
  have len: "length ps = length bs" using map_eq_imp_length_eq [OF assms(2)] .
  have "k * 8192 + 8192 \<le> length (concat ps)"
    using k concat_pages_length [OF assms(1)] by simp
  then have "index_range (concat ps) (k * 8192) (k * 8192 + 8192) = (Ok (ps ! k) :: bytes pg_result)"
    using concat_slice [OF assms(1) k] by (simp add: index_range_Ok)
  moreover have "page_batch lib s proj snapshot (ps ! k) = Ok (bs ! k)"
    using assms(2) k len by (metis nth_map)
  ultimately have "obind (index_range (concat ps) (k * PAGE_BUFFER_SIZE) (k * PAGE_BUFFER_SIZE + PAGE_BUFFER_SIZE))
      (\<lambda>b. obind (page_parse_bytes b) (\<lambda>page. unwrap (to_record_batch lib page s proj snapshot))) = (Ok (bs ! k) :: _ pg_result)"
    by (auto simp: PAGE_BUFFER_SIZE_value page_batch_def outcome_simps)
  then have "push_batches lib s proj snapshot (concat ps) [k..<length ps] buf =
      push_batches lib s proj snapshot (concat ps) [Suc k..<length ps] (buf @ [bs ! k])"
    using k by (simp add: upt_conv_Cons Let_def)
  moreover have "n = length ps - Suc k" "Suc k \<le> length ps" using Suc.hyps(2) k by linarith+
  ultimately show ?case
    using Suc.hyps(1) [of "Suc k" "buf @ [bs ! k]"] k len by (simp add: Cons_nth_drop_Suc)
qed

text \<open>The batches that a stream has still to yield, when those of its pages are \<open>batches\<close>.\<close>

definition stream_left :: "('s, 'batch) record_batch_stream \<Rightarrow> 'batch list \<Rightarrow> 'batch list" where
  "stream_left st batches =
     buffer st @
     (if exhausted st then []
      else drop (next_page_index st) (take (case max_page_index st of Some m \<Rightarrow> m | None \<Rightarrow> length batches) batches))"

definition stream_ok ::
    "('arr, 'batch) arrow_lib \<Rightarrow> ('s \<Rightarrow> bytes list \<Rightarrow> bool) \<Rightarrow> bytes list \<Rightarrow> 'batch list \<Rightarrow>
     ('s, 'batch) record_batch_stream \<Rightarrow> bool" where
  "stream_ok lib holds pages batches st \<longleftrightarrow>
     holds (chunk_source st) pages \<and>
     map (page_batch lib (stream_schema st) (projection st) (stream_snapshot st)) pages = map Ok batches \<and>
     0 < pages_per_batch st \<and> pages_per_batch st * 8192 < 2 ^ 63 \<and> length pages + pages_per_batch st < 2 ^ 64 \<and>
     next_page_index st \<le> length pages"

lemma split_left:
  assumes "want \<le> m - nx \<or> length bs \<le> m"
  shows "drop nx (take m bs) = take want (drop nx bs) @ drop (nx + want) (take m bs)"
  using assms
proof
  assume "want \<le> m - nx"
  then have "take want (drop nx (take m bs)) = take want (drop nx bs)"
    by (simp add: drop_take min.absorb1)
  then show ?thesis by (metis append_take_drop_id drop_drop add.commute)
next
  assume "length bs \<le> m"
  then show ?thesis by (simp, metis append_take_drop_id drop_drop add.commute)
qed

context page_source
begin

lemma fill_buffer_left:
  assumes ok: "stream_ok lib holds pages batches st" and empty: "buffer st = []" and more: "\<not> exhausted st"
  shows "\<exists>st'. fill_buffer lib read_bulk st = (Ok (), st') \<and> stream_ok lib holds pages batches st' \<and>
    stream_left st' batches = stream_left st batches \<and> (buffer st' = [] \<longrightarrow> exhausted st')"
proof -
  let ?nx = "next_page_index st"
  define want where "want = (case max_page_index st of
      Some m \<Rightarrow> min (pages_per_batch st) (m - ?nx) | None \<Rightarrow> pages_per_batch st)"
  define m where "m = (case max_page_index st of Some m \<Rightarrow> m | None \<Rightarrow> length batches)"
  have len: "length pages = length batches"
    using ok map_eq_imp_length_eq by (auto simp: stream_ok_def)
  have left: "stream_left st batches = drop ?nx (take m batches)"
    by (simp add: stream_left_def empty more m_def)
  have cover: "want \<le> m - ?nx \<or> length batches \<le> m"
    by (cases "max_page_index st") (simp_all add: want_def m_def)
  have "want \<le> pages_per_batch st" by (simp add: want_def split: option.split)
  show ?thesis
  proof (cases "want = 0")
    case True
    then have "drop ?nx (take m batches) = []"
      using ok by (cases "max_page_index st") (auto simp: want_def m_def stream_ok_def)
    then show ?thesis
      using True more ok empty left
      by (intro exI [of _ "st\<lparr>exhausted := True\<rparr>"])
        (simp add: fill_buffer_def want_def stream_ok_def stream_left_def)
  next
    case want: False
    have bounds: "?nx \<le> length pages" "want * 8192 < 2 ^ 63" "?nx + want < 2 ^ 64"
      using ok \<open>want \<le> pages_per_batch st\<close> by (auto simp: stream_ok_def)
    let ?ps = "take want (drop ?nx pages)" and ?bs = "take want (drop ?nx batches)"
    obtain s' where s': "read_bulk (chunk_source st) ?nx want = (Ok (concat ?ps, length ?ps), s')" "holds s' pages"
      using bulk_pages [OF _ bounds] ok by (auto simp: stream_ok_def)
    show ?thesis
    proof (cases "?ps = []")
      case True
      then have "?nx = length pages" using want bounds(1) by simp
      then have "drop ?nx (take m batches) = []" using len by simp
      then show ?thesis
        using True want more ok empty left s'
        by (intro exI [of _ "st\<lparr>chunk_source := s', exhausted := True\<rparr>"])
          (simp add: fill_buffer_def Let_def stream_ok_def stream_left_def flip: want_def)
    next
      case False
      have "map (page_batch lib (stream_schema st) (projection st) (stream_snapshot st)) ?ps = map Ok ?bs"
        using ok by (simp add: stream_ok_def flip: take_map drop_map)
      moreover have "\<forall>p \<in> set ?ps. length p = 8192"
        using page_lengths ok by (auto simp: stream_ok_def dest!: in_set_takeD in_set_dropD)
      ultimately have push: "push_batches lib (stream_schema st) (projection st) (stream_snapshot st) (concat ?ps)
          [0..<length ?ps] [] = (?bs, Ok ())"
        using push_batches_all [of ?ps lib "stream_schema st" "projection st" "stream_snapshot st" ?bs 0 "[]"] by simp
      let ?st = "st\<lparr>chunk_source := s', buffer := ?bs, next_page_index := ?nx + length ?ps, exhausted := length ?ps < want\<rparr>"
      have "fill_buffer lib read_bulk st = (Ok (), ?st)"
        using False want more empty s'(1) push by (simp add: fill_buffer_def Let_def flip: want_def)
      moreover have "stream_ok lib holds pages batches ?st"
        using ok s'(2) by (auto simp: stream_ok_def)
      moreover have "stream_left ?st batches = stream_left st batches"
      proof (cases "length ?ps < want")
        case True
        then have "drop (?nx + want) (take m batches) = []" using len by simp
        then show ?thesis
          using True split_left [OF cover] unfolding left by (simp add: stream_left_def)
      next
        case full: False
        then have "length ?ps = want" by simp
        then show ?thesis
          using full split_left [OF cover] unfolding left by (simp add: stream_left_def flip: m_def)
      qed
      moreover have "buffer ?st \<noteq> []" using False want len by simp
      ultimately show ?thesis by blast
    qed
  qed
qed

text \<open>One call of \<open>next\<close>: the first batch that is left, or the end.\<close>

lemma stream_next_left:
  assumes ok: "stream_ok lib holds pages batches st"
  shows "case stream_left st batches of
      [] \<Rightarrow> \<exists>st'. stream_next lib read_bulk st = Some (Ok None, st')
    | b # bs \<Rightarrow> \<exists>st'. stream_next lib read_bulk st = Some (Ok (Some (Ok b)), st') \<and>
                 stream_ok lib holds pages batches st' \<and> stream_left st' batches = bs"
proof (cases "buffer st")
  case (Cons b bs)
  then show ?thesis
    using ok by (simp add: stream_next_def pop_front_def stream_left_def stream_ok_def)
next
  case Nil
  show ?thesis
  proof (cases "exhausted st")
    case True
    then show ?thesis using Nil by (simp add: stream_next_def pop_front_def stream_left_def)
  next
    case False
    obtain st' where st': "fill_buffer lib read_bulk st = (Ok (), st')" "stream_ok lib holds pages batches st'"
      "stream_left st' batches = stream_left st batches" "buffer st' = [] \<longrightarrow> exhausted st'"
      using fill_buffer_left [OF ok Nil False] by blast
    show ?thesis
    proof (cases "buffer st'")
      case (Cons b bs)
      have "stream_left st batches = b # stream_left (st'\<lparr>buffer := bs\<rparr>) batches"
        unfolding st'(3) [symmetric] using Cons by (simp add: stream_left_def)
      moreover have "stream_next lib read_bulk st = Some (Ok (Some (Ok b)), st'\<lparr>buffer := bs\<rparr>)"
        using Nil False st'(1) Cons by (simp add: stream_next_def pop_front_def)
      moreover have "stream_ok lib holds pages batches (st'\<lparr>buffer := bs\<rparr>)"
        using st'(2) by (simp add: stream_ok_def)
      ultimately show ?thesis by simp
    next
      case empty: Nil
      then have "stream_left st batches = []" using st'(3,4) by (simp add: stream_left_def)
      then show ?thesis
        using Nil False st'(1) empty by (simp add: stream_next_def pop_front_def)
    qed
  qed
qed

end

definition stream_yields ::
    "('arr, 'batch) arrow_lib \<Rightarrow> ('s \<Rightarrow> bytes list \<Rightarrow> bool) \<Rightarrow> ('s, 'batch) record_batch_stream \<Rightarrow>
     'batch pg_result list \<Rightarrow> bool" where
  "stream_yields lib holds st items \<longleftrightarrow>
     (\<exists>pages batches. stream_ok lib holds pages batches st \<and> items = map Ok (stream_left st batches))"

text \<open>A stream over a source of pages is a source of batches.\<close>

sublocale page_source \<subseteq> stream: item_source "stream_next lib read_bulk" "stream_yields lib holds" for lib
proof (unfold_locales, goal_cases)
  case (1 st)
  then obtain pages batches where "stream_ok lib holds pages batches st" "stream_left st batches = []"
    by (auto simp: stream_yields_def)
  then show ?case using stream_next_left by fastforce
next
  case (2 st item items)
  then obtain pages batches b bs where "stream_ok lib holds pages batches st" "stream_left st batches = b # bs"
    and "item = Ok b" "items = map Ok bs"
    by (auto simp: stream_yields_def Cons_eq_map_conv)
  then show ?case using stream_next_left [of lib pages batches st] by (force simp: stream_yields_def)
qed

section \<open>The asynchronous stream\<close>

definition async_next ::
    "('arr, 'batch) arrow_lib \<Rightarrow> ('s \<Rightarrow> usize \<Rightarrow> usize \<Rightarrow> (bytes \<times> usize) pg_result \<times> 's) \<Rightarrow> string \<Rightarrow>
     ('s, 'batch) async_batch_stream \<Rightarrow>
     ((pg_error, 'batch pg_result option) outcome \<times> ('s, 'batch) async_batch_stream) option" where
  "async_next lib read_bulk join_err a =
     (case next_batch lib read_bulk join_err a of (item, a) \<Rightarrow> Some (Ok item, a))"

definition async_left :: "('s, 'batch) async_batch_stream \<Rightarrow> 'batch list \<Rightarrow> 'batch list" where
  "async_left a batches =
     async_buffer a @
     (if async_exhausted a then [] else case inner a of None \<Rightarrow> [] | Some st \<Rightarrow> stream_left st batches)"

definition async_ok ::
    "('arr, 'batch) arrow_lib \<Rightarrow> ('s \<Rightarrow> bytes list \<Rightarrow> bool) \<Rightarrow> bytes list \<Rightarrow> 'batch list \<Rightarrow>
     ('s, 'batch) async_batch_stream \<Rightarrow> bool" where
  "async_ok lib holds pages batches a \<longleftrightarrow>
     (\<exists>st. inner a = Some st \<and> stream_ok lib holds pages batches st \<and> buffer st = [])"

definition async_yields ::
    "('arr, 'batch) arrow_lib \<Rightarrow> ('s \<Rightarrow> bytes list \<Rightarrow> bool) \<Rightarrow> ('s, 'batch) async_batch_stream \<Rightarrow>
     'batch pg_result list \<Rightarrow> bool" where
  "async_yields lib holds a items \<longleftrightarrow>
     (\<exists>pages batches. async_ok lib holds pages batches a \<and> items = map Ok (async_left a batches))"

context page_source
begin

text \<open>The task on the inner stream leaves its buffer to the caller.\<close>

lemma run_task_left:
  assumes ok: "stream_ok lib holds pages batches st" and empty: "buffer st = []"
  shows "\<exists>st' bs. run_task lib read_bulk st = Some (st', Ok bs, exhausted st') \<and>
    stream_ok lib holds pages batches st' \<and> buffer st' = [] \<and>
    bs @ stream_left st' batches = stream_left st batches \<and> (bs = [] \<longrightarrow> exhausted st')"
proof (cases "exhausted st")
  case True
  then show ?thesis
    using ok empty by (intro exI [of _ "st\<lparr>buffer := []\<rparr>"] exI [of _ "[]"])
      (simp add: run_task_def fill_buffer_def stream_ok_def stream_left_def)
next
  case False
  obtain st' where st': "fill_buffer lib read_bulk st = (Ok (), st')" "stream_ok lib holds pages batches st'"
    "stream_left st' batches = stream_left st batches" "buffer st' = [] \<longrightarrow> exhausted st'"
    using fill_buffer_left [OF ok empty False] by blast
  show ?thesis
    unfolding st'(3) [symmetric]
    using st'(1,2,4) by (intro exI [of _ "st'\<lparr>buffer := []\<rparr>"] exI [of _ "buffer st'"])
      (simp add: run_task_def stream_ok_def stream_left_def)
qed

lemma next_batch_left:
  assumes ok: "async_ok lib holds pages batches a"
  shows "case async_left a batches of
      [] \<Rightarrow> \<exists>a'. next_batch lib read_bulk join_err a = (None, a')
    | b # bs \<Rightarrow> \<exists>a'. next_batch lib read_bulk join_err a = (Some (Ok b), a') \<and>
                 async_ok lib holds pages batches a' \<and> async_left a' batches = bs"
proof (cases "async_buffer a")
  case (Cons b bs)
  then show ?thesis
    using ok by (simp add: next_batch_def begin_fill_def async_left_def async_ok_def)
next
  case Nil
  obtain st where st: "inner a = Some st" "stream_ok lib holds pages batches st" "buffer st = []"
    using ok by (auto simp: async_ok_def)
  show ?thesis
  proof (cases "async_exhausted a")
    case True
    then show ?thesis using Nil by (simp add: next_batch_def begin_fill_def async_left_def)
  next
    case False
    obtain st' bs where t: "run_task lib read_bulk st = Some (st', Ok bs, exhausted st')"
      "stream_ok lib holds pages batches st'" "buffer st' = []"
      "bs @ stream_left st' batches = stream_left st batches" "bs = [] \<longrightarrow> exhausted st'"
      using run_task_left [OF st(2,3)] by blast
    have left: "async_left a batches = bs @ stream_left st' batches"
      using Nil False st(1) t(4) by (simp add: async_left_def)
    show ?thesis
    proof (cases bs)
      case (Cons b bs')
      let ?a = "a\<lparr>inner := Some st', async_exhausted := False, async_buffer := bs'\<rparr>"
      have "next_batch lib read_bulk join_err a = (Some (Ok b), ?a)"
        using Nil False st(1) t(1) Cons by (simp add: next_batch_def begin_fill_def end_fill_def Let_def)
      moreover have "async_ok lib holds pages batches ?a" using t(2,3) by (simp add: async_ok_def)
      moreover have "async_left ?a batches = bs' @ stream_left st' batches" by (simp add: async_left_def)
      ultimately show ?thesis unfolding left Cons by simp
    next
      case empty: Nil
      then have "stream_left st' batches = []" using t(3,5) by (simp add: stream_left_def)
      then show ?thesis
        unfolding left using empty Nil False st(1) t(1)
        by (simp add: next_batch_def begin_fill_def end_fill_def Let_def)
    qed
  qed
qed

end

sublocale page_source \<subseteq> async: item_source "async_next lib read_bulk join_err" "async_yields lib holds" for lib join_err
proof (unfold_locales, goal_cases)
  case (1 a)
  then obtain pages batches where "async_ok lib holds pages batches a" "async_left a batches = []"
    by (auto simp: async_yields_def)
  then show ?case using next_batch_left [of lib pages batches a join_err] by (auto simp: async_next_def)
next
  case (2 a item items)
  then obtain pages batches b bs where "async_ok lib holds pages batches a" "async_left a batches = b # bs"
    and "item = Ok b" "items = map Ok bs"
    by (auto simp: async_yields_def Cons_eq_map_conv)
  then show ?case
    using next_batch_left [of lib pages batches a join_err] by (force simp: async_yields_def async_next_def)
qed

text \<open>
  The stream as a transition system: the caller and the blocking task, with the future that may be
  dropped while the task runs.  The detached task then runs on, but nothing receives its result, the
  stream included, so that the step \<open>cancelled\<close> forgets it at once.
\<close>

datatype 'batch async_event = Started | Yielded "'batch pg_result option" | Dropped

type_synonym ('s, 'batch) async_state =
  "('s, 'batch) async_batch_stream \<times> ('s, 'batch) record_batch_stream option"

inductive async_step ::
    "('arr, 'batch) arrow_lib \<Rightarrow> ('s \<Rightarrow> usize \<Rightarrow> usize \<Rightarrow> (bytes \<times> usize) pg_result \<times> 's) \<Rightarrow> string \<Rightarrow>
     ('s, 'batch) async_state \<Rightarrow> 'batch async_event \<Rightarrow> ('s, 'batch) async_state \<Rightarrow> bool"
  for lib read_bulk join_err where
  at_once: "begin_fill a = (Done item, a') \<Longrightarrow>
     async_step lib read_bulk join_err (a, None) (Yielded item) (a', None)"
| spawned: "begin_fill a = (Spawn st, a') \<Longrightarrow>
     async_step lib read_bulk join_err (a, None) Started (a', Some st)"
| completed: "end_fill join_err (run_task lib read_bulk st) a = (item, a') \<Longrightarrow>
     async_step lib read_bulk join_err (a, Some st) (Yielded item) (a', None)"
| cancelled: "async_step lib read_bulk join_err (a, Some st) Dropped (a, None)"

inductive_cases idle_stepE: "async_step lib read_bulk join_err (a, None) e c"
inductive_cases running_stepE: "async_step lib read_bulk join_err (a, Some st) e c"
inductive_simps dropped_step: "async_step lib read_bulk join_err c Dropped c'"

inductive async_reach ::
    "('arr, 'batch) arrow_lib \<Rightarrow> ('s \<Rightarrow> usize \<Rightarrow> usize \<Rightarrow> (bytes \<times> usize) pg_result \<times> 's) \<Rightarrow> string \<Rightarrow>
     ('s, 'batch) async_state \<Rightarrow> ('s, 'batch) async_state \<Rightarrow> bool"
  for lib read_bulk join_err c0 where
  reach_refl: "async_reach lib read_bulk join_err c0 c0"
| reach_step: "async_reach lib read_bulk join_err c0 c \<Longrightarrow> async_step lib read_bulk join_err c e c' \<Longrightarrow>
     async_reach lib read_bulk join_err c0 c'"

text \<open>The stream has one owner: while a task has it, the caller has neither the stream nor a batch.\<close>

definition one_owner :: "('s, 'batch) async_state \<Rightarrow> bool" where
  "one_owner c \<longleftrightarrow>
     (case c of (a, None) \<Rightarrow> True
      | (a, Some st) \<Rightarrow> inner a = None \<and> async_buffer a = [] \<and> \<not> async_exhausted a)"

lemma begin_fill_spawn:
  "begin_fill a = (Spawn st, a') \<Longrightarrow>
    inner a = Some st \<and> a' = a\<lparr>inner := None\<rparr> \<and> async_buffer a = [] \<and> \<not> async_exhausted a"
  by (auto simp: begin_fill_def split: list.splits if_splits option.splits)

lemma async_step_one_owner: "async_step lib read_bulk join_err c e c' \<Longrightarrow> one_owner c \<Longrightarrow> one_owner c'"
  by (induction rule: async_step.induct) (auto simp: one_owner_def dest: begin_fill_spawn)

lemma async_reach_one_owner:
  "async_reach lib read_bulk join_err c0 c \<Longrightarrow> one_owner c0 \<Longrightarrow> one_owner c"
  by (induction rule: async_reach.induct) (auto dest: async_step_one_owner)

text \<open>A state that has lost the stream yields nothing and stays.\<close>

lemma lost_stream_step:
  assumes "inner a = None" and "async_buffer a = []" and "async_step lib read_bulk join_err (a, None) e c"
  shows "e = Yielded None \<and> c = (a, None)"
  using assms(3)
  by (rule idle_stepE) (use assms(1,2) in \<open>auto simp: begin_fill_def split: if_splits\<close>)

lemma lost_stream_reach:
  assumes "inner a = None" and "async_buffer a = []"
  shows "async_reach lib read_bulk join_err (a, None) c \<Longrightarrow> c = (a, None)"
proof (induction rule: async_reach.induct)
  case (reach_step c e c')
  then show ?case using lost_stream_step [OF assms, of lib read_bulk join_err e c'] by simp
qed simp

text \<open>An awaited call is at most one start and one completion.\<close>

lemma next_batch_steps:
  assumes "next_batch lib read_bulk join_err a = (item, a')"
  shows "async_step lib read_bulk join_err (a, None) (Yielded item) (a', None) \<or>
    (\<exists>c. async_step lib read_bulk join_err (a, None) Started c \<and>
       async_step lib read_bulk join_err c (Yielded item) (a', None))"
  using assms
  by (auto simp: next_batch_def split: prod.splits fill_call.splits intro: at_once spawned completed)

section \<open>The parallel converter\<close>

lemma chunks_concat: "0 < n \<Longrightarrow> concat (chunks n xs) = xs"
  by (induction n xs rule: chunks.induct) (subst chunks.simps, auto)

lemma omap_concat: "omap f (concat xss) = obind (omap (omap f) xss) (\<lambda>yss. Ok (concat yss))"
proof -
  have app: "omap f (xs @ ys) = obind (omap f xs) (\<lambda>as. obind (omap f ys) (\<lambda>bs. Ok (as @ bs)))" for xs ys
    by (induction xs) (simp_all add: obind_assoc)
  show ?thesis
    by (induction xss) (simp_all add: app obind_assoc)
qed

lemma omap_id_map: "omap (\<lambda>result. result) (map f xs) = omap f xs"
  by (induction xs) simp_all

lemma set_chunks: "xs' \<in> set (chunks n xs) \<Longrightarrow> set xs' \<subseteq> set xs"
proof (induction n xs rule: chunks.induct)
  case (1 n xs)
  show ?case
  proof (cases "xs = [] \<or> n = 0")
    case True
    then have "chunks n xs = []" by (subst chunks.simps) simp
    then show ?thesis using "1.prems" by simp
  next
    case False
    then have "chunks n xs = take n xs # chunks n (drop n xs)" by (subst chunks.simps) simp
    then have "xs' = take n xs \<or> set xs' \<subseteq> set (drop n xs)"
      using "1.prems" "1.IH" [OF False] by auto
    then show ?thesis using set_take_subset [of n xs] set_drop_subset [of n xs] by blast
  qed
qed

lemma convert_chunks:
  assumes "0 < n"
  shows "obind (omap (\<lambda>result. result) (map (omap f) (chunks n xs))) (\<lambda>yss. Ok (concat yss)) = omap f xs"
  unfolding omap_id_map omap_concat [symmetric] chunks_concat [OF assms] ..

lemma div_ceil_pos: "0 < n \<Longrightarrow> 0 < m \<Longrightarrow> 0 < div_ceil n m"
  by (simp add: div_ceil_def div_greater_zero_iff)

text \<open>A relation of two pages, and its batches.\<close>

abbreviation two_pages_fs :: "bytes file_system" where
  "two_pages_fs \<equiv> one_file ''/d/base/5/7'' (page_data sample_page @ page_data sample_page)"

lemma two_pages_hold:
  "relation_holds two_pages_fs ''/d'' sample_reader [page_data sample_page, page_data sample_page]"
  using one_file_walk [of "page_data sample_page @ page_data sample_page"]
  by (simp add: relation_holds_def cache_ok_def table_file_reader_new_def sample_pages sample_page_length)

definition sample_snapshot :: pg_snapshot where
  "sample_snapshot = \<lparr>snap_xmin = 5, snap_xmax = 5, snap_xip = []\<rparr>"

abbreviation sample_batch :: "(builder_kind \<times> arrow_cell list) list" where
  "sample_batch \<equiv> [(B_Int4, [Some (AV_Int32 7)]), (B_Utf8, [None])]"

lemma sample_to_batch: "to_record_batch log_lib sample_page sample_schema (Some [2, 1]) snapshot = Ok sample_batch"
proof -
  let ?t = "sample_tuple [5] [5, 0, 0, 0, 7, 0, 0, 0]"
  let ?cell = "\<lambda>t i. if i = 2 then Some (AV_Int32 7) else None"
  have "\<forall>t \<in> set (live_tuples snapshot sample_page). row_cells sample_schema [2, 1] t (?cell t)"
    by (simp add: sample_live row_cells_def sample_decode column_kind_def builder_kind_for_def)
  moreover have "\<forall>i \<in> set [2, 1]. i < num_columns sample_schema"
    by (simp add: sample_schema_def pg_schema_new_def num_columns_def)
  ultimately show ?thesis
    using to_record_batch_live [OF _ _ log_lib_exact, of "[2, 1]" sample_schema sample_page snapshot ?cell]
      parsed_page_pointers [OF sample_page_parse]
    by (simp add: projected_cells_def sample_live log_lib_def column_kind_def builder_kind_for_def sample_schema_def
        pg_schema_new_def pg_column_new_def)
qed

lemma sample_page_batch: "page_batch log_lib sample_schema (Some [2, 1]) snapshot (page_data sample_page) = Ok sample_batch"
  by (simp add: page_batch_def sample_page_parse sample_to_batch [simplified])

lemma ofold_map_Ok: "ofold (\<lambda>item bs. obind item (\<lambda>b. Ok (bs @ [b]))) (map Ok xs) ys = Ok (ys @ xs)"
  by (induction xs arbitrary: ys) simp_all

context page_source
begin

lemma whole_stream_yields:
  assumes "holds source pages" and "map (page_batch lib s proj None) pages = map Ok batches"
    and "n * 8192 < 2 ^ 63" and "length pages + (if n = 0 then 128 else n) < 2 ^ 64"
  shows "stream_yields lib holds (with_pages_per_batch n (into_batch_stream threads source s proj)) (map Ok batches)"
proof -
  let ?st = "with_pages_per_batch n (into_batch_stream threads source s proj)"
  have "stream_ok lib holds pages batches ?st"
    using assms by (auto simp: stream_ok_def with_pages_per_batch_def into_batch_stream_def record_batch_stream_new_def
        DEFAULT_PAGES_PER_BATCH_def)
  moreover have "stream_left ?st batches = batches"
    by (simp add: stream_left_def with_pages_per_batch_def into_batch_stream_def record_batch_stream_new_def)
  ultimately show ?thesis unfolding stream_yields_def by metis
qed

lemma new_stream_yields:
  assumes "holds source pages" and "map (page_batch lib s proj None) pages = map Ok batches"
    and "length pages + 128 < 2 ^ 64"
  shows "stream_yields lib holds (into_batch_stream threads source s proj) (map Ok batches)"
  using whole_stream_yields [OF assms(1,2), of 0 threads] assms(3)
  by (simp add: with_pages_per_batch_def into_batch_stream_def record_batch_stream_new_def DEFAULT_PAGES_PER_BATCH_def)

lemma read_all_yields:
  assumes "holds source pages" and "map (page_batch lib s proj None) pages = map Ok batches"
    and "length pages + 128 < 2 ^ 64"
  shows "read_all_to_batches lib read_bulk threads source s proj = Some (Ok batches)"
  using stream.for_each_yields [OF new_stream_yields [OF assms, of threads], of "\<lambda>item bs. obind item (\<lambda>batch. Ok (bs @ [batch]))" "[]"]
  by (simp add: read_all_to_batches_def into_batch_stream_def ofold_map_Ok)

end

definition no_batch_lib :: "(builder_kind \<times> arrow_cell list, (builder_kind \<times> arrow_cell list) list) arrow_lib" where
  "no_batch_lib = log_lib\<lparr>try_new_empty := (\<lambda>fields. Err ''no columns'')\<rparr>"

lemma unwrap_not_Ok: "\<forall>a. m \<noteq> Ok a \<Longrightarrow> unwrap m = Panic"
  by (cases m) auto

lemma conversion_panics:
  assumes ok: "relation_holds fs dir (chunk_source st) pages" and empty: "buffer st = []" "\<not> exhausted st"
    and idx: "next_page_index st < length pages" "max_page_index st = None"
    and n: "0 < pages_per_batch st" "pages_per_batch st * 8192 < 2 ^ 63" "length pages + pages_per_batch st < 2 ^ 64"
    and page: "page_parse_bytes (pages ! next_page_index st) = Ok page"
      "\<forall>batch. to_record_batch lib page (stream_schema st) (projection st) (stream_snapshot st) \<noteq> Ok batch"
  shows "\<exists>st'. fill_buffer lib (read_pages_bulk fs (Ok dir)) st = (Panic, st')"
proof -
  let ?nx = "next_page_index st" and ?n = "pages_per_batch st"
  let ?ps = "take ?n (drop ?nx pages)"
  obtain r' where r': "read_pages_bulk fs (Ok dir) (chunk_source st) ?nx ?n = (Ok (concat ?ps, length ?ps), r')"
    using table_file.bulk_pages [OF ok, of ?nx ?n] idx n by auto
  have ps: "?ps \<noteq> []" "?ps ! 0 = pages ! ?nx" using idx(1) n(1) by simp_all
  have sizes: "\<forall>p \<in> set ?ps. length p = 8192"
    using table_file.page_lengths [OF ok] by (auto dest!: in_set_takeD in_set_dropD)
  have "8192 \<le> length (concat ?ps)" using concat_pages_length [OF sizes] ps(1) by (cases ?ps) simp_all
  then have "index_range (concat ?ps) 0 8192 = (Ok (pages ! ?nx) :: bytes pg_result)"
    using concat_slice [OF sizes, of 0] ps by (simp add: index_range_Ok)
  moreover have "[0..<length ?ps] = 0 # [1..<length ?ps]" using ps(1) by (simp add: upt_conv_Cons)
  ultimately have "push_batches lib (stream_schema st) (projection st) (stream_snapshot st) (concat ?ps)
      [0..<length ?ps] [] = ([], Panic)"
    using page by (simp add: PAGE_BUFFER_SIZE_value Let_def unwrap_not_Ok del: upt_Suc)
  then show ?thesis
    using r' ps(1) n(1) empty idx(2) by (simp add: fill_buffer_def Let_def)
qed

section \<open>Properties\<close>

text \<open>
  C4: A batch stream over a relation returns, terminates, and yields exactly the batches of the pages of
  its range, in page order and each once, whatever the number of pages per bulk read (0 stands for the
  default) and wherever the segment boundaries lie.
\<close>

theorem stream_yields_page_range:
  assumes "relation_holds fs dir r pages"
    and "map (page_batch lib s proj (Some snap)) pages = map Ok batches"
    and "start \<le> length pages" and "n * 8192 < 2 ^ 63" and "length pages + (if n = 0 then 128 else n) < 2 ^ 64"
  shows "for_each (stream_next lib (read_pages_bulk fs (Ok dir))) (\<lambda>item items. Ok (items @ [item]))
      (with_page_range start stop (with_pages_per_batch n (with_snapshot snap (into_batch_stream threads r s proj)))) [] =
    Some (Ok (map Ok (drop start (take stop batches))))"
proof -
  let ?st = "with_page_range start stop (with_pages_per_batch n (with_snapshot snap (into_batch_stream threads r s proj)))"
  have "stream_ok lib (relation_holds fs dir) pages batches ?st"
    using assms by (auto simp: stream_ok_def with_page_range_def with_pages_per_batch_def with_snapshot_def
        into_batch_stream_def record_batch_stream_new_def DEFAULT_PAGES_PER_BATCH_def)
  moreover have "stream_left ?st batches = drop start (take stop batches)"
    by (simp add: stream_left_def with_page_range_def with_pages_per_batch_def with_snapshot_def
        into_batch_stream_def record_batch_stream_new_def)
  ultimately have "stream_yields lib (relation_holds fs dir) ?st (map Ok (drop start (take stop batches)))"
    unfolding stream_yields_def by metis
  from table_file.stream.for_each_yields [OF this, of "\<lambda>item items. Ok (items @ [item])" "[]"] show ?thesis
    by (simp add: ofold_push)
qed

theorem stream_yields_page_range_witness:
  "for_each (stream_next log_lib (read_pages_bulk two_pages_fs (Ok ''/d''))) (\<lambda>item items. Ok (items @ [item]))
      (with_page_range 1 9 (with_pages_per_batch 1 (with_snapshot sample_snapshot
        (into_batch_stream None sample_reader sample_schema (Some [2, 1]))))) [] =
    Some (Ok [Ok sample_batch])"
  using stream_yields_page_range [OF two_pages_hold, of log_lib sample_schema "Some [2, 1]" sample_snapshot
      "[sample_batch, sample_batch]" 1 1 9 None]
  by (simp add: sample_page_batch [simplified])

text \<open>
  \<open>read_all_to_batches\<close> on a readable relation returns the batches of all its pages.
\<close>

theorem read_all_to_batches_all:
  assumes "relation_holds fs dir r pages" and "map (page_batch lib s proj None) pages = map Ok batches"
    and "length pages + 128 < 2 ^ 64"
  shows "read_all_to_batches lib (read_pages_bulk fs (Ok dir)) threads r s proj = Some (Ok batches)"
  by (rule table_file.read_all_yields [OF assms])

theorem read_all_to_batches_all_witness:
  "read_all_to_batches log_lib (read_pages_bulk two_pages_fs (Ok ''/d'')) (Some 2) sample_reader sample_schema
    (Some [2, 1]) = Some (Ok [sample_batch, sample_batch])"
  by (rule read_all_to_batches_all [OF two_pages_hold]) (simp_all add: sample_page_batch [simplified])

text \<open>
  C29: The parallel converter returns what the sequential one does: batches in page order exactly when
  every page converts, whatever the number of threads; and the first error when no page panics.
\<close>

theorem parallel_is_sequential:
  "(convert_pages_parallel lib pages s proj threads = Ok batches \<longleftrightarrow>
      omap (\<lambda>page. to_record_batch lib page s proj None) pages = Ok batches) \<and>
   ((\<forall>page \<in> set pages. to_record_batch lib page s proj None \<noteq> Panic) \<longrightarrow>
      convert_pages_parallel lib pages s proj threads = omap (\<lambda>page. to_record_batch lib page s proj None) pages)"
proof (cases "pages = [] \<or> min threads (length pages) \<le> 1 \<or> length pages \<le> 2")
  case True
  then show ?thesis by (auto simp: convert_pages_parallel_def Let_def)
next
  case False
  let ?f = "\<lambda>page. to_record_batch lib page s proj None"
  let ?n = "div_ceil (length pages) (min threads (length pages))"
  let ?handles = "map (omap ?f) (chunks ?n pages)"
  have pos: "0 < ?n" using False by (intro div_ceil_pos) auto
  have par: "convert_pages_parallel lib pages s proj threads = (if Panic \<in> set ?handles then Panic else omap ?f pages)"
    using False convert_chunks [OF pos, of ?f pages]
    by (simp add: convert_pages_parallel_def Let_def del: set_map)
  have fault: "\<exists>page \<in> set pages. ?f page = Panic" if "Panic \<in> set ?handles"
    using that set_chunks [of _ ?n pages] by (force dest!: sym [of Panic] omap_Panic)
  have "omap ?f pages \<noteq> Ok batches" if "Panic \<in> set ?handles"
    using fault [OF that] omap_nth [of ?f pages batches] by (auto simp: in_set_conv_nth)
  then show ?thesis using fault par by auto
qed

theorem parallel_is_sequential_witness:
  "convert_pages_parallel log_lib [sample_page, sample_page, sample_page] sample_schema (Some [2, 1]) 2 =
    Ok [sample_batch, sample_batch, sample_batch]"
  using parallel_is_sequential [of log_lib "[sample_page, sample_page, sample_page]" sample_schema "Some [2, 1]" 2
      "[sample_batch, sample_batch, sample_batch]"]
  by (simp add: sample_to_batch [simplified])

text \<open>
  C36: A page that does not convert is not an \<open>Err\<close> item: the synchronous stream panics on it, and the
  asynchronous one reports the panic of its task as a decode error and ends, whatever pages are left.
\<close>

theorem conversion_error_faults:
  assumes "relation_holds fs dir (chunk_source st) pages" and "buffer st = []" and "\<not> exhausted st"
    and "next_page_index st < length pages" and "max_page_index st = None"
    and "0 < pages_per_batch st" and "pages_per_batch st * 8192 < 2 ^ 63" and "length pages + pages_per_batch st < 2 ^ 64"
    and "page_parse_bytes (pages ! next_page_index st) = Ok page"
    and "\<forall>batch. to_record_batch lib page (stream_schema st) (projection st) (stream_snapshot st) \<noteq> Ok batch"
  shows "(\<exists>st'. stream_next lib (read_pages_bulk fs (Ok dir)) st = Some (Panic, st')) \<and>
    (\<exists>a'. next_batch lib (read_pages_bulk fs (Ok dir)) join_err
        \<lparr>inner = Some st, async_buffer = [], async_exhausted = False\<rparr> = (Some (Err (DecodeError join_err)), a') \<and>
      next_batch lib (read_pages_bulk fs (Ok dir)) join_err a' = (None, a'))"
proof -
  obtain st' where "fill_buffer lib (read_pages_bulk fs (Ok dir)) st = (Panic, st')"
    using conversion_panics [OF assms] by blast
  then show ?thesis
    using assms(2,3)
    by (simp add: stream_next_def pop_front_def next_batch_def begin_fill_def run_task_def end_fill_def)
qed

theorem conversion_error_faults_witness:
  "\<exists>st'. stream_next no_batch_lib (read_pages_bulk two_pages_fs (Ok ''/d''))
      (into_batch_stream None sample_reader sample_schema (Some [])) = Some (Panic, st')"
proof -
  let ?st = "into_batch_stream None sample_reader sample_schema (Some [])"
  have "\<forall>batch. to_record_batch no_batch_lib sample_page (stream_schema ?st) (projection ?st) (stream_snapshot ?st) \<noteq>
      Ok batch"
    by (simp add: to_record_batch_def no_batch_lib_def into_batch_stream_def record_batch_stream_new_def)
  from conversion_error_faults [OF _ _ _ _ _ _ _ _ _ this, of two_pages_fs "''/d''"
      "[page_data sample_page, page_data sample_page]"]
  show ?thesis
    using two_pages_hold sample_page_parse
    by (simp add: into_batch_stream_def record_batch_stream_new_def DEFAULT_PAGES_PER_BATCH_def)
qed

text \<open>
  C27: Awaited calls of \<open>next_batch\<close> yield what iterating over the synchronous stream yields: the batches
  of the pages of the range, in page order and each once, and then the end.
\<close>

theorem async_yields_sync:
  assumes "relation_holds fs dir (table_file_reader_new db rel) pages" and "map (page_batch lib s proj (Some snap)) pages = map Ok batches"
    and "start \<le> length pages" and "n * 8192 < 2 ^ 63" and "length pages + (if n = 0 then 128 else n) < 2 ^ 64"
  shows "for_each (async_next lib (read_pages_bulk fs (Ok dir)) join_err) (\<lambda>item items. Ok (items @ [item]))
      (async_with_page_range start stop (async_with_pages_per_batch n (async_with_snapshot snap
        (async_batch_stream_new threads db rel s proj)))) [] =
    Some (Ok (map Ok (drop start (take stop batches))))"
proof -
  let ?a = "async_with_page_range start stop (async_with_pages_per_batch n (async_with_snapshot snap
        (async_batch_stream_new threads db rel s proj)))"
  have "async_ok lib (relation_holds fs dir) pages batches ?a"
    using assms by (auto simp: async_ok_def stream_ok_def async_with_page_range_def async_with_pages_per_batch_def
        async_with_snapshot_def async_batch_stream_new_def with_page_range_def with_pages_per_batch_def with_snapshot_def
        record_batch_stream_new_def DEFAULT_PAGES_PER_BATCH_def)
  moreover have "async_left ?a batches = drop start (take stop batches)"
    by (simp add: async_left_def stream_left_def async_with_page_range_def async_with_pages_per_batch_def
        async_with_snapshot_def async_batch_stream_new_def with_page_range_def with_pages_per_batch_def with_snapshot_def
        record_batch_stream_new_def)
  ultimately have "async_yields lib (relation_holds fs dir) ?a (map Ok (drop start (take stop batches)))"
    unfolding async_yields_def by metis
  from table_file.async.for_each_yields [OF this, of join_err "\<lambda>item items. Ok (items @ [item])" "[]"] show ?thesis
    by (simp add: ofold_push)
qed

theorem async_yields_sync_witness:
  "for_each (async_next log_lib (read_pages_bulk two_pages_fs (Ok ''/d'')) ''panic'') (\<lambda>item items. Ok (items @ [item]))
      (async_with_page_range 0 9 (async_with_pages_per_batch 0 (async_with_snapshot sample_snapshot
        (async_batch_stream_new None 5 7 sample_schema (Some [2, 1]))))) [] =
    Some (Ok [Ok sample_batch, Ok sample_batch])"
  using async_yields_sync [OF two_pages_hold, of log_lib sample_schema "Some [2, 1]" sample_snapshot
      "[sample_batch, sample_batch]" 0 0 "''panic''" 9 None]
  by (simp add: sample_page_batch [simplified])

text \<open>
  C31: Between a caller and its blocking task the stream has one owner.  In every state reachable from a
  new stream, by calls that are awaited, calls that are dropped, and tasks that complete or panic: while
  a task owns the stream the caller holds neither the stream nor a batch and has not seen the end.
\<close>

theorem stream_has_one_owner:
  assumes "async_reach lib read_bulk join_err (async_batch_stream_new threads db rel s proj, None) (a, Some st)"
  shows "inner a = None \<and> async_buffer a = [] \<and> \<not> async_exhausted a"
  using async_reach_one_owner [OF assms] by (simp add: one_owner_def)

theorem stream_has_one_owner_witness:
  "\<exists>a st. async_reach log_lib (read_pages_bulk two_pages_fs (Ok ''/d'')) ''panic''
      (async_batch_stream_new None 5 7 sample_schema None, None) (a, Some st) \<and> inner a = None"
proof -
  let ?a = "async_batch_stream_new None 5 7 sample_schema None :: (bytes table_file_reader, _) async_batch_stream"
  let ?st = "record_batch_stream_new None sample_reader sample_schema None"
  have "begin_fill ?a = (Spawn ?st, ?a\<lparr>inner := None\<rparr>)"
    by (simp add: begin_fill_def async_batch_stream_new_def)
  then have r: "async_reach log_lib (read_pages_bulk two_pages_fs (Ok ''/d'')) ''panic''
      (?a, None) (?a\<lparr>inner := None\<rparr>, Some ?st)"
    by (rule reach_step [OF reach_refl spawned])
  show ?thesis using stream_has_one_owner [OF r] r by blast
qed

text \<open>
  C28: \<open>next_batch\<close> is not safe to cancel: a call that is dropped while its task runs loses the stream.
  From then on, every call yields the end at once and nothing else can happen, although pages may be
  left and the stream was never marked exhausted.
\<close>

theorem cancelled_call_loses_stream:
  assumes "begin_fill a = (Spawn st, a')"
  shows "async_step lib read_bulk join_err (a, None) Started (a', Some st) \<and>
    async_step lib read_bulk join_err (a', Some st) Dropped (a', None) \<and>
    \<not> async_exhausted a' \<and>
    (\<forall>c e c'. async_reach lib read_bulk join_err (a', None) c \<longrightarrow>
       (async_step lib read_bulk join_err c e c' \<longleftrightarrow> e = Yielded None \<and> c' = (a', None)))"
proof -
  have a': "inner a' = None" "async_buffer a' = []" "\<not> async_exhausted a'"
    using begin_fill_spawn [OF assms] by auto
  have "async_step lib read_bulk join_err (a', None) (Yielded None) (a', None)"
    using a' by (intro at_once) (simp add: begin_fill_def)
  then have "async_step lib read_bulk join_err c e c' \<longleftrightarrow> e = Yielded None \<and> c' = (a', None)"
    if "async_reach lib read_bulk join_err (a', None) c" for c e c'
    using lost_stream_reach [OF a'(1,2) that] lost_stream_step [OF a'(1,2)] by blast
  then show ?thesis using spawned [OF assms] cancelled a'(3) by blast
qed

theorem cancelled_call_loses_stream_witness:
  "\<exists>a'. async_step log_lib (read_pages_bulk two_pages_fs (Ok ''/d'')) ''panic''
      (async_batch_stream_new None 5 7 sample_schema None, None) Started
      (a', Some (record_batch_stream_new None sample_reader sample_schema None)) \<and>
    \<not> async_exhausted a'"
proof -
  let ?a = "async_batch_stream_new None 5 7 sample_schema None :: (bytes table_file_reader, _) async_batch_stream"
  have "begin_fill ?a = (Spawn (record_batch_stream_new None sample_reader sample_schema None), ?a\<lparr>inner := None\<rparr>)"
    by (simp add: begin_fill_def async_batch_stream_new_def)
  from cancelled_call_loses_stream [OF this] show ?thesis by blast
qed

end
