(* ===== verification/Tables.thy ===== *)
theory Tables
  imports Scans Catalogs
begin

text \<open>
  \<open>PgTableReader\<close>, the catalog bootstrap and the database lookup of \<open>src/table/mod.rs\<close>, over the row
  iterator and the page reader of \<open>src/file/reader.rs\<close>.

  The file system and the data directory are arguments.  A function that loops over a file has the
  result \<open>None\<close> when it does not return.  Log messages are not part of the model.
\<close>

section \<open>Reading a file to its end\<close>

text \<open>The operator \<open>?\<close> before a loop.\<close>

fun try_run :: "'a pg_result \<Rightarrow> ('a \<Rightarrow> 'b pg_result option) \<Rightarrow> 'b pg_result option" where
  "try_run (Ok x) f = f x"
| "try_run (Err e) f = Some (Err e)"
| "try_run Panic f = Some Panic"

text \<open>The page reader of a relation of a database; the closure of \<open>map_err\<close> is given its text.\<close>

definition open_pages :: "string \<Rightarrow> usize \<Rightarrow> usize \<Rightarrow> 'h page_reader pg_result" where
  "open_pages detail db rel =
     map_err (\<lambda>e. CatalogBootstrapFailed (detail @ '': '' @ pg_error_to_string e))
       (get_page_reader (table_file_reader_new db rel))"

section \<open>The catalogs\<close>

text \<open>The bodies of the two loops of \<open>bootstrap_catalogs\<close>: a row that does not decode is skipped.\<close>

definition push_class :: "heap_tuple_data pg_result \<Rightarrow> pg_class list \<Rightarrow> pg_class list pg_result" where
  "push_class row_result rows =
     (case row_result of
        Ok t \<Rightarrow>
          if t_xmax (header t) = 0 then
            (case pg_class_from_row t pg_class_catalog_schema of
               Ok row \<Rightarrow> Ok (rows @ [row])
             | Err _ \<Rightarrow> Ok rows
             | Panic \<Rightarrow> Panic)
          else Ok rows
      | Err _ \<Rightarrow> Ok rows
      | Panic \<Rightarrow> Panic)"

definition push_attribute :: "heap_tuple_data pg_result \<Rightarrow> pg_attribute list \<Rightarrow> pg_attribute list pg_result" where
  "push_attribute row_result rows =
     (case row_result of
        Ok t \<Rightarrow>
          (case pg_attribute_from_row t pg_attribute_catalog_schema of
             Ok row \<Rightarrow> Ok (rows @ [row])
           | Err _ \<Rightarrow> Ok rows
           | Panic \<Rightarrow> Panic)
      | Err _ \<Rightarrow> Ok rows
      | Panic \<Rightarrow> Panic)"

definition bootstrap_catalogs ::
    "'h file_system \<Rightarrow> (string, string) outcome \<Rightarrow> usize \<Rightarrow> (pg_class list \<times> pg_attribute list) pg_result option" where
  "bootstrap_catalogs fs data_dir db =
     try_run (open_pages ''failed to read pg_class'' db (unat PG_CLASS_RELATION_OID)) (\<lambda>pr.
     case for_each (row_iter_next fs data_dir) push_class (into_iter pr) [] of
       None \<Rightarrow> None
     | Some classes \<Rightarrow>
         try_run classes (\<lambda>pg_class_rows.
         try_run (open_pages ''failed to read pg_attribute'' db (unat PG_ATTRIBUTE_RELATION_OID)) (\<lambda>pr.
         case for_each (row_iter_next fs data_dir) push_attribute (into_iter pr) [] of
           None \<Rightarrow> None
         | Some attrs \<Rightarrow> try_run attrs (\<lambda>pg_attr_rows. Some (Ok (pg_class_rows, pg_attr_rows))))))"

section \<open>The table reader\<close>

record pg_table_reader =
  reader_db :: usize
  pg_class_cache :: "pg_class list"
  pg_attribute_cache :: "pg_attribute list"
  current_table :: "pg_class option"
  current_schema :: "pg_schema option"

definition pg_table_reader_new ::
    "'h file_system \<Rightarrow> (string, string) outcome \<Rightarrow> usize \<Rightarrow> pg_table_reader pg_result option" where
  "pg_table_reader_new fs data_dir db =
     (case bootstrap_catalogs fs data_dir db of
        None \<Rightarrow> None
      | Some catalogs \<Rightarrow>
          try_run catalogs (\<lambda>(classes, attrs).
            Some (Ok \<lparr>reader_db = db, pg_class_cache = classes, pg_attribute_cache = attrs,
                      current_table = None, current_schema = None\<rparr>)))"

text \<open>The attributes of a class, and its schema.\<close>

definition table_schema :: "pg_table_reader \<Rightarrow> pg_class \<Rightarrow> pg_schema" where
  "table_schema rd c =
     from_attributes (relname c) (filter (\<lambda>a. attrelid a = class_oid c) (pg_attribute_cache rd))"

definition is_table :: "pg_class \<Rightarrow> bool" where
  "is_table c \<longleftrightarrow> relkind c = 114"  \<comment> \<open>\<open>b'r'\<close>\<close>

definition set_table :: "string \<Rightarrow> pg_table_reader \<Rightarrow> unit pg_result \<times> pg_table_reader" where
  "set_table name rd =
     (case List.find (\<lambda>c. relname c = name \<and> is_table c) (pg_class_cache rd) of
        None \<Rightarrow> (Err (TableNotFound name), rd)
      | Some table \<Rightarrow>
          (Ok (), rd\<lparr>current_table := Some table, current_schema := Some (table_schema rd table)\<rparr>))"

definition get_all_tables :: "pg_table_reader \<Rightarrow> (pg_class \<times> pg_schema) list pg_result" where
  "get_all_tables rd = Ok (map (\<lambda>c. (c, table_schema rd c)) (filter is_table (pg_class_cache rd)))"

text \<open>\<open>set_db\<close> changes the database and the selection before it reads the new catalogs.\<close>

definition set_db ::
    "'h file_system \<Rightarrow> (string, string) outcome \<Rightarrow> usize \<Rightarrow> pg_table_reader \<Rightarrow>
     (unit pg_result \<times> pg_table_reader) option" where
  "set_db fs data_dir db rd =
     (let rd = rd\<lparr>reader_db := db, current_table := None, current_schema := None\<rparr> in
      case bootstrap_catalogs fs data_dir db of
        None \<Rightarrow> None
      | Some (Ok (classes, attrs)) \<Rightarrow>
          Some (Ok (), rd\<lparr>pg_class_cache := classes, pg_attribute_cache := attrs\<rparr>)
      | Some (Err e) \<Rightarrow> Some (Err e, rd)
      | Some Panic \<Rightarrow> Some (Panic, rd))"

definition reader_schema :: "pg_table_reader \<Rightarrow> pg_schema option" where
  "reader_schema rd = current_schema rd"

definition table_name :: "pg_table_reader \<Rightarrow> string option" where
  "table_name rd = map_option relname (current_table rd)"

definition require_table :: "pg_table_reader \<Rightarrow> (pg_class \<times> pg_schema) pg_result" where
  "require_table rd =
     (case (current_table rd, current_schema rd) of
        (Some table, Some s) \<Rightarrow> Ok (table, s)
      | _ \<Rightarrow> Err NoTableSelected)"

text \<open>The body of the loops of the \<open>fetch\<close> operations: what is done with a tuple; errors are skipped.\<close>

definition on_row :: "(heap_tuple_data \<Rightarrow> 's \<Rightarrow> 's pg_result) \<Rightarrow> heap_tuple_data pg_result \<Rightarrow> 's \<Rightarrow> 's pg_result" where
  "on_row f row_result s = (case row_result of Ok t \<Rightarrow> f t s | Err _ \<Rightarrow> Ok s | Panic \<Rightarrow> Panic)"

definition fetch_all ::
    "'h file_system \<Rightarrow> (string, string) outcome \<Rightarrow> pg_table_reader \<Rightarrow> pg_row list pg_result option" where
  "fetch_all fs data_dir rd =
     try_run (require_table rd) (\<lambda>(table, s).
     try_run (open_pages ''failed to open table file'' (reader_db rd) (unat (relfilenode table))) (\<lambda>pr.
       for_each (row_iter_next fs data_dir)
         (on_row (\<lambda>t rows. obind (decode_row t s) (\<lambda>row. Ok (rows @ [row])))) (into_iter pr) []))"

definition fetch_all_projected ::
    "'h file_system \<Rightarrow> (string, string) outcome \<Rightarrow> usize list \<Rightarrow> pg_table_reader \<Rightarrow>
     pg_row list pg_result option" where
  "fetch_all_projected fs data_dir proj rd =
     try_run (require_table rd) (\<lambda>(table, s).
     try_run (open_pages ''failed to open table file'' (reader_db rd) (unat (relfilenode table))) (\<lambda>pr.
       for_each (row_iter_next fs data_dir)
         (on_row (\<lambda>t rows. obind (decode_row_projected t s proj) (\<lambda>row. Ok (rows @ [row]))))
         (into_iter pr) []))"

text \<open>\<open>fetch_by_limit\<close> counts the tuples it visits; the count is not used.\<close>

definition fetch_by_limit ::
    "'h file_system \<Rightarrow> (string, string) outcome \<Rightarrow> usize \<Rightarrow> pg_table_reader \<Rightarrow> pg_row list pg_result option" where
  "fetch_by_limit fs data_dir limit rd =
     try_run (require_table rd) (\<lambda>(table, s).
     try_run (open_pages ''failed to open table file'' (reader_db rd) (unat (relfilenode table))) (\<lambda>pr.
       map_option (\<lambda>count. obind count (\<lambda>_. Ok []))
         (for_take (row_iter_next fs data_dir)
            (on_row (\<lambda>_ count. if count = 2147483647 then Panic else Ok (count + 1))) limit
            (into_iter pr) (0 :: nat))))"

definition fetch_with_filter ::
    "'h file_system \<Rightarrow> (string, string) outcome \<Rightarrow> (pg_row \<Rightarrow> bool) \<Rightarrow> pg_table_reader \<Rightarrow>
     pg_row list pg_result option" where
  "fetch_with_filter fs data_dir predicate rd =
     try_run (require_table rd) (\<lambda>(table, s).
     try_run (open_pages ''failed to open table file'' (reader_db rd) (unat (relfilenode table))) (\<lambda>pr.
       for_each (row_iter_next fs data_dir)
         (on_row (\<lambda>t rows. obind (decode_row t s) (\<lambda>row. Ok (if predicate row then rows @ [row] else rows))))
         (into_iter pr) []))"

section \<open>Databases\<close>

text \<open>The tuple at one position of a page of \<open>pg_database\<close>.\<close>

definition push_database :: "heap_page_data \<Rightarrow> usize \<Rightarrow> pg_database list \<Rightarrow> pg_database list pg_result" where
  "push_database page posid out =
     obind (index (lp_items page) posid) (\<lambda>lp.
     if lp_flags lp \<noteq> LP_NORMAL then Ok out
     else
       (case get_row_data page (word_of_nat posid) of
          Ok t \<Rightarrow>
            if t_xmax (header t) \<noteq> 0 then Ok out
            else
              (case pg_database_from_row t pg_database_catalog_schema of
                 Ok row \<Rightarrow> Ok (if datname row \<noteq> [] then out @ [row] else out)
               | Err _ \<Rightarrow> Ok out
               | Panic \<Rightarrow> Panic)
        | Err _ \<Rightarrow> Ok out
        | Panic \<Rightarrow> Panic))"

partial_function (option) database_loop ::
    "'h file_system \<Rightarrow> (string, string) outcome \<Rightarrow> usize \<Rightarrow> 'h page_reader \<Rightarrow> pg_database list \<Rightarrow>
     pg_database list pg_result option" where
  "database_loop fs data_dir page_index pr out =
     (case get_page_by_index fs data_dir pr page_index of
        (Ok page, pr) \<Rightarrow>
          (case ofold (push_database page) [0..<lp_num page] out of
             Ok out \<Rightarrow> database_loop fs data_dir (page_index + 1) pr out
           | Err e \<Rightarrow> Some (Err e)
           | Panic \<Rightarrow> Some Panic)
      | (Err _, _) \<Rightarrow> Some (Ok out)
      | (Panic, _) \<Rightarrow> Some Panic)"

definition list_databases ::
    "'h file_system \<Rightarrow> (string, string) outcome \<Rightarrow> pg_database list pg_result option" where
  "list_databases fs data_dir =
     try_run (get_page_reader (table_file_reader_new 0 (unat PG_DATABASE_RELATION_OID))) (\<lambda>pr.
       database_loop fs data_dir 0 pr [])"

definition get_database_oid ::
    "'h file_system \<Rightarrow> (string, string) outcome \<Rightarrow> string \<Rightarrow> u32 option pg_result option" where
  "get_database_oid fs data_dir name =
     map_option (\<lambda>r. obind r (\<lambda>dbs. Ok (map_option db_oid (List.find (\<lambda>d. datname d = name) dbs))))
       (list_databases fs data_dir)"

end
