(* ===== verification/TableRuns.thy ===== *)
theory TableRuns
  imports Tables
begin

text \<open>
  What the operations of \<open>src/table/mod.rs\<close> return when the files they read are readable: the loops of
  \<open>Tables\<close> as folds over the tuples of a relation, the table reader as a state machine, and a cluster of
  one database on which the operations are run.
\<close>

section \<open>Loops over a relation\<close>

text \<open>\<open>relation_rows fs dir db rel rows\<close>: the relation is readable, its pages parse, and these are its tuples.\<close>

definition relation_rows ::
    "'h file_system \<Rightarrow> string \<Rightarrow> usize \<Rightarrow> usize \<Rightarrow> heap_tuple_data list \<Rightarrow> bool" where
  "relation_rows fs dir db rel rows \<longleftrightarrow>
     (let path = segment_path dir (table_file_reader_new db rel :: 'h table_file_reader) in
      \<exists>pages hps. segment_walk fs path 0 pages \<and> open_file fs (path 0) \<noteq> None \<and>
        map page_parse pages = map Ok hps \<and> length pages < 2 ^ 32 \<and> rows = concat (map page_rows hps))"

abbreviation fresh_pages :: "usize \<Rightarrow> usize \<Rightarrow> 'h page_reader" where
  "fresh_pages db rel \<equiv> \<lparr>segment_chunk_reader = table_file_reader_new db rel, reader_instance = None\<rparr>"

lemma open_pages_Ok: "open_pages detail db rel = Ok (fresh_pages db rel)"
  by (simp add: open_pages_def get_page_reader_def)

lemma relation_rows_iter:
  assumes "relation_rows fs dir db rel rows"
  shows "\<exists>rs. map Ok rows = map Ok rs \<and> iter_rows fs dir (into_iter (fresh_pages db rel)) rs"
  using assms fresh_iter_rows [of fs dir "table_file_reader_new db rel"]
  by (auto simp: relation_rows_def Let_def get_page_reader_def)

lemmas for_each_relation = row_iter.for_each_yields [OF relation_rows_iter]

lemma for_take_relation:
  assumes "relation_rows fs dir db rel rows"
  shows "for_take (row_iter_next fs (Ok dir)) body n (into_iter (fresh_pages db rel)) s = Some (ofold body (map Ok (take n rows)) s)"
  using row_iter.for_take_yields [OF relation_rows_iter [OF assms]] by (simp add: take_map)

lemma ofold_on_row: "ofold (on_row f) (map Ok ts) s = ofold f ts s"
proof -
  have "on_row f (Ok t) = f t" for t by (simp add: on_row_def fun_eq_iff)
  then show ?thesis by (induction ts arbitrary: s) (auto intro: obind_cong)
qed

lemma ofold_omap:
  "ofold (\<lambda>t rows. obind (f t) (\<lambda>row. Ok (rows @ [row]))) ts acc = obind (omap f ts) (\<lambda>rows. Ok (acc @ rows))"
proof (induction ts arbitrary: acc)
  case (Cons t ts)
  then show ?case by (cases "f t"; cases "omap f ts") simp_all
qed simp

lemma ofold_omap_filter:
  "ofold (\<lambda>t rows. obind (f t) (\<lambda>row. Ok (if p row then rows @ [row] else rows))) ts acc =
    obind (omap f ts) (\<lambda>rows. Ok (acc @ filter p rows))"
proof (induction ts arbitrary: acc)
  case (Cons t ts)
  then show ?case by (cases "f t"; cases "omap f ts") simp_all
qed simp

lemma ofold_collect:
  "(\<And>t acc. t \<in> set ts \<Longrightarrow> body t acc = Ok (acc @ g t)) \<Longrightarrow> ofold body ts acc = Ok (acc @ concat (map g ts))"
  by (induction ts arbitrary: acc) simp_all

lemma ofold_concat: "ofold body (concat xss) s = ofold (ofold body) xss s"
  by (induction xss arbitrary: s) (auto simp: ofold_append intro: obind_cong)

section \<open>The rows that a catalog scan keeps\<close>

definition decoded_rows :: "(heap_tuple_data \<Rightarrow> 'a pg_result) \<Rightarrow> heap_tuple_data list \<Rightarrow> 'a list" where
  "decoded_rows f ts = concat (map (\<lambda>t. case f t of Ok row \<Rightarrow> [row] | _ \<Rightarrow> []) ts)"

abbreviation live_rows :: "heap_tuple_data list \<Rightarrow> heap_tuple_data list" where
  "live_rows \<equiv> filter (\<lambda>t. t_xmax (header t) = 0)"

lemma concat_map_filter: "concat (map f (filter p xs)) = concat (map (\<lambda>x. if p x then f x else []) xs)"
  by (induction xs) simp_all

lemma ofold_push_class:
  assumes "\<forall>t \<in> set (live_rows ts). pg_class_from_row t pg_class_catalog_schema \<noteq> Panic"
  shows "ofold push_class (map Ok ts) [] = Ok (decoded_rows (\<lambda>t. pg_class_from_row t pg_class_catalog_schema) (live_rows ts))"
proof -
  let ?g = "\<lambda>r :: heap_tuple_data pg_result. case r of Ok t \<Rightarrow> if t_xmax (header t) = 0 then
      (case pg_class_from_row t pg_class_catalog_schema of Ok row \<Rightarrow> [row] | _ \<Rightarrow> []) else [] | _ \<Rightarrow> []"
  have "ofold push_class (map Ok ts) [] = Ok ([] @ concat (map ?g (map Ok ts)))"
    using assms by (intro ofold_collect) (auto simp: push_class_def split: outcome.split)
  then show ?thesis by (simp add: decoded_rows_def concat_map_filter comp_def)
qed

lemma ofold_push_attribute:
  assumes "\<forall>t \<in> set ts. pg_attribute_from_row t pg_attribute_catalog_schema \<noteq> Panic"
  shows "ofold push_attribute (map Ok ts) [] = Ok (decoded_rows (\<lambda>t. pg_attribute_from_row t pg_attribute_catalog_schema) ts)"
proof -
  let ?g = "\<lambda>r :: heap_tuple_data pg_result. case r of Ok t \<Rightarrow>
      (case pg_attribute_from_row t pg_attribute_catalog_schema of Ok row \<Rightarrow> [row] | _ \<Rightarrow> []) | _ \<Rightarrow> []"
  have "ofold push_attribute (map Ok ts) [] = Ok ([] @ concat (map ?g (map Ok ts)))"
    using assms by (intro ofold_collect) (auto simp: push_attribute_def split: outcome.split)
  then show ?thesis by (simp add: decoded_rows_def comp_def)
qed

lemma bootstrap_rows:
  assumes crows: "relation_rows fs dir db 1259 crows" and arows: "relation_rows fs dir db 1249 arows"
  shows "bootstrap_catalogs fs (Ok dir) db =
    Some (obind (ofold push_class (map Ok crows) []) (\<lambda>classes.
          obind (ofold push_attribute (map Ok arows) []) (\<lambda>attrs. Ok (classes, attrs))))"
  by (cases "ofold push_class (map Ok crows) []"; cases "ofold push_attribute (map Ok arows) []")
    (simp_all add: bootstrap_catalogs_def open_pages_Ok PG_CLASS_RELATION_OID_def PG_ATTRIBUTE_RELATION_OID_def
      for_each_relation [OF crows] for_each_relation [OF arows])

section \<open>Databases\<close>

definition keep_database :: "heap_tuple_data \<Rightarrow> pg_database list \<Rightarrow> pg_database list pg_result" where
  "keep_database t out =
     (if t_xmax (header t) \<noteq> 0 then Ok out
      else (case pg_database_from_row t pg_database_catalog_schema of
              Ok row \<Rightarrow> Ok (if datname row \<noteq> [] then out @ [row] else out)
            | Err _ \<Rightarrow> Ok out
            | Panic \<Rightarrow> Panic))"

lemma push_database_slot:
  assumes "i < length (lp_items page)" and "i < 65536"
  shows "push_database page i out = ofold keep_database (slot_row page i) out"
proof -
  have i: "unat (word_of_nat i :: u16) = i" using assms(2) by (simp add: unsigned_of_nat take_bit_nat_eq_self)
  have "lp_flags (lp_items page ! i) = LP_NORMAL" if "get_row_data page (word_of_nat i) = Ok t" for t
    using that assms(1) by (auto simp: get_row_data_eq i Let_def split: if_splits)
  then show ?thesis
    using assms(1) get_row_data_slot [of page i]
    by (cases "get_row_data page (word_of_nat i)")
      (auto simp: push_database_def slot_row_def keep_database_def index_def split: outcome.split)
qed

lemma push_database_page:
  assumes "page_parse_bytes buf = Ok page"
  shows "ofold (push_database page) [0..<lp_num page] out = ofold keep_database (page_rows page) out"
proof -
  note lps = parsed_page_pointers [OF assms]
  have "ofold (push_database page) is out = ofold (ofold keep_database) (map (slot_row page) is) out"
    if "\<forall>i \<in> set is. i < lp_num page" for "is" out
    using that lps by (induction "is" arbitrary: out) (auto simp: push_database_slot intro!: obind_cong)
  then show ?thesis by (simp add: page_rows_def ofold_concat)
qed

lemma database_loop_pages:
  assumes parsed: "map page_parse pages = map Ok hps"
  shows "reader_at fs dir pr pages k \<Longrightarrow> k \<le> length pages \<Longrightarrow>
    database_loop fs (Ok dir) k pr out = Some (ofold keep_database (concat (map page_rows (drop k hps))) out)"
proof (induction "length pages - k" arbitrary: k pr out)
  case 0
  then obtain pr' where "get_page_by_index fs (Ok dir) pr k = (Err Generic, pr')"
    using get_page_in_order [OF 0(2,3)] by auto
  moreover have "length hps \<le> k" using 0 map_eq_imp_length_eq [OF parsed] by simp
  ultimately show ?case by (subst database_loop.simps) simp
next
  case (Suc n)
  then have k: "k < length pages" by simp
  note hp = parsed_pages [OF parsed k]
  obtain pr' where "get_page_by_index fs (Ok dir) pr k = (Ok (hps ! k), pr')" "reader_at fs dir pr' pages (Suc k)"
    using get_page_in_order [OF Suc.prems] k hp(1) by auto
  moreover have "page_parse_bytes (pages ! k) = Ok (hps ! k)" using hp(1) by (simp add: page_parse_def)
  moreover have "concat (map page_rows (drop k hps)) = page_rows (hps ! k) @ concat (map page_rows (drop (Suc k) hps))"
    using hp(2) by (simp add: Cons_nth_drop_Suc [symmetric])
  ultimately show ?case
    using Suc.hyps(1) [of "Suc k" pr'] Suc.hyps(2) k
    by (subst database_loop.simps)
      (cases "ofold keep_database (page_rows (hps ! k)) out"; simp add: push_database_page ofold_append)
qed

lemma list_databases_rows:
  fixes fs :: "'h file_system"
  assumes "relation_rows fs dir 0 1262 rows"
  shows "list_databases fs (Ok dir) = Some (ofold keep_database rows [])"
proof -
  let ?r = "table_file_reader_new 0 1262 :: 'h table_file_reader"
  obtain pages hps where walk: "segment_walk fs (segment_path dir ?r) 0 pages" "open_file fs (segment_path dir ?r 0) \<noteq> None"
    and parsed: "map page_parse pages = map Ok hps" and rows: "rows = concat (map page_rows hps)"
    using assms unfolding relation_rows_def Let_def by blast
  have "reader_at fs dir (fresh_pages 0 1262) pages 0" using walk by (simp add: reader_at_def)
  from database_loop_pages [OF parsed this]
  show ?thesis by (simp add: list_databases_def get_page_reader_def PG_DATABASE_RELATION_OID_def rows)
qed

lemma ofold_keep_database:
  assumes "\<forall>t \<in> set (live_rows ts). pg_database_from_row t pg_database_catalog_schema \<noteq> Panic"
  shows "ofold keep_database ts [] = Ok (filter (\<lambda>d. datname d \<noteq> [])
    (decoded_rows (\<lambda>t. pg_database_from_row t pg_database_catalog_schema) (live_rows ts)))"
proof -
  let ?g = "\<lambda>t. if t_xmax (header t) = 0 then filter (\<lambda>d. datname d \<noteq> [])
      (case pg_database_from_row t pg_database_catalog_schema of Ok row \<Rightarrow> [row] | _ \<Rightarrow> []) else []"
  have "ofold keep_database ts [] = Ok ([] @ concat (map ?g ts))"
    using assms by (intro ofold_collect) (auto simp: keep_database_def split: outcome.split)
  moreover have "filter p (concat (map h ts)) = concat (map (\<lambda>t. filter p (h t)) ts)" for p and h :: "_ \<Rightarrow> pg_database list"
    by (induction ts) simp_all
  then have "filter (\<lambda>d. datname d \<noteq> []) (decoded_rows (\<lambda>t. pg_database_from_row t pg_database_catalog_schema) (live_rows ts)) =
      concat (map ?g ts)"
    unfolding decoded_rows_def concat_map_filter
    by (simp add: if_distrib [of "filter _"] cong: if_cong)
  ultimately show ?thesis by simp
qed

section \<open>Loops that report no error\<close>

lemma row_iter_next_no_error: "row_iter_next fs data_dir it \<noteq> Some (Err e, it')"
proof -
  have "fst r \<noteq> Err e" if "row_iter_next fs data_dir it = Some r" for r
    using that
  proof (induction rule: row_iter_next.raw_induct [rotated 1, consumes 1])
    case (1 loop fs data_dir it r)
    then show ?case by (auto split: prod.splits turn.splits)
  qed
  then show ?thesis by force
qed

lemma for_each_no_error:
  assumes "\<And>it it' e. step it \<noteq> Some (Err e, it')" and "\<And>a s e. body a s \<noteq> Err e"
  shows "for_each step body it s \<noteq> Some (Err e)"
proof -
  have "(\<forall>it it' e. step it \<noteq> Some (Err e, it')) \<longrightarrow> (\<forall>a s e. body a s \<noteq> Err e) \<longrightarrow> r \<noteq> Err e"
    if "for_each step body it s = Some r" for r
    using that
  proof (induction rule: for_each.raw_induct [rotated 1, consumes 1])
    case (1 loop step body it s r)
    then show ?case
      by (auto split: option.splits prod.splits outcome.splits)
  qed
  then show ?thesis using assms by blast
qed

lemma bootstrap_no_error: "bootstrap_catalogs fs data_dir db \<noteq> Some (Err e)"
proof -
  have c: "push_class a s \<noteq> Err e" for a s e
    by (auto simp: push_class_def split: outcome.split if_splits)
  have a: "push_attribute a s \<noteq> Err e" for a s e
    by (auto simp: push_attribute_def split: outcome.split if_splits)
  let ?c = "for_each (row_iter_next fs data_dir) push_class (into_iter (fresh_pages db (unat PG_CLASS_RELATION_OID))) []"
  let ?a = "for_each (row_iter_next fs data_dir) push_attribute (into_iter (fresh_pages db (unat PG_ATTRIBUTE_RELATION_OID))) []"
  have "?c \<noteq> Some (Err e)" "?a \<noteq> Some (Err e)" for e
    by (rule for_each_no_error [OF row_iter_next_no_error c], rule for_each_no_error [OF row_iter_next_no_error a])
  then show ?thesis
    unfolding bootstrap_catalogs_def open_pages_Ok try_run.simps
    by (cases ?c; cases "the ?c"; cases ?a; cases "the ?a"; simp)
qed

section \<open>The table reader as a state machine\<close>

text \<open>
  A step is a call of \<open>set_table\<close> or \<open>set_db\<close>, whatever its result: after an error the reader can be
  used again, and after a panic too where the caller catches it.
\<close>

inductive reader_step :: "'h file_system \<Rightarrow> (string, string) outcome \<Rightarrow> pg_table_reader \<Rightarrow> pg_table_reader \<Rightarrow> bool"
  for fs data_dir where
  table_step: "set_table name rd = (result, rd') \<Longrightarrow> reader_step fs data_dir rd rd'"
| db_step: "set_db fs data_dir db rd = Some (result, rd') \<Longrightarrow> reader_step fs data_dir rd rd'"

inductive reader_reach :: "'h file_system \<Rightarrow> (string, string) outcome \<Rightarrow> pg_table_reader \<Rightarrow> bool"
  for fs data_dir where
  reader_new: "pg_table_reader_new fs data_dir db = Some (Ok rd) \<Longrightarrow> reader_reach fs data_dir rd"
| reader_next: "reader_reach fs data_dir rd \<Longrightarrow> reader_step fs data_dir rd rd' \<Longrightarrow> reader_reach fs data_dir rd'"

definition selection_ok :: "pg_table_reader \<Rightarrow> bool" where
  "selection_ok rd \<longleftrightarrow>
     (case current_table rd of
        None \<Rightarrow> current_schema rd = None
      | Some c \<Rightarrow> c \<in> set (pg_class_cache rd) \<and> is_table c \<and> current_schema rd = Some (table_schema rd c))"

lemma new_selection_ok: "pg_table_reader_new fs data_dir db = Some (Ok rd) \<Longrightarrow> selection_ok rd"
  by (auto simp: pg_table_reader_new_def selection_ok_def split: option.splits elim!: try_run.elims)

lemma set_table_selection_ok: "set_table name rd = (result, rd') \<Longrightarrow> selection_ok rd \<Longrightarrow> selection_ok rd'"
  by (auto simp: set_table_def selection_ok_def table_schema_def find_Some_iff split: option.splits)

lemma set_db_selection_ok: "set_db fs data_dir db rd = Some (result, rd') \<Longrightarrow> selection_ok rd'"
  by (auto simp: set_db_def selection_ok_def Let_def split: option.splits outcome.splits)

lemma reader_step_selection_ok: "reader_step fs data_dir rd rd' \<Longrightarrow> selection_ok rd \<Longrightarrow> selection_ok rd'"
  by (induction rule: reader_step.induct) (auto intro: set_table_selection_ok set_db_selection_ok)

lemma reader_reach_selection_ok: "reader_reach fs data_dir rd \<Longrightarrow> selection_ok rd"
  by (induction rule: reader_reach.induct) (auto intro: new_selection_ok reader_step_selection_ok)

text \<open>A relation whose first file does not open makes the first call of \<open>next\<close> panic.\<close>

lemma missing_relation_panics:
  fixes fs :: "'h file_system"
  assumes "open_file fs (segment_path dir (table_file_reader_new db rel :: 'h table_file_reader) 0) = None"
  shows "for_each (row_iter_next fs (Ok dir)) body (into_iter (fresh_pages db rel)) s = Some Panic"
proof -
  have "get_reader fs (Ok dir) (table_file_reader_new db rel) (0 * PAGE_BUFFER_SIZE) = Err Generic"
    unfolding get_reader_eq using assms by simp
  then have "get_page_by_index fs (Ok dir) (fresh_pages db rel) 0 = (Panic, fresh_pages db rel)"
    by (simp add: get_page_by_index_def)
  then have "\<exists>it. row_iter_turn fs (Ok dir) (into_iter (fresh_pages db rel)) = (Fault, it)"
    by (simp add: row_iter_turn_def iter_page_def into_iter_def)
  then have "\<exists>it. row_iter_next fs (Ok dir) (into_iter (fresh_pages db rel)) = Some (Panic, it)"
    by (subst row_iter_next.simps) auto
  then show ?thesis by (subst for_each.simps) auto
qed

lemma missing_class_file_panics:
  fixes fs :: "'h file_system"
  assumes "open_file fs (segment_path dir (table_file_reader_new db 1259 :: 'h table_file_reader) 0) = None"
  shows "bootstrap_catalogs fs (Ok dir) db = Some Panic"
  by (simp add: bootstrap_catalogs_def open_pages_Ok PG_CLASS_RELATION_OID_def missing_relation_panics [OF assms])

section \<open>Pages of one row\<close>

definition row_page :: "bytes \<Rightarrow> heap_page_data" where
  "row_page raw =
     (let h = \<lparr>pd_lsn = \<lparr>xlogid = 0, xrecoff = 0\<rparr>, pd_checksum = 0, pd_flags = 0, pd_lower = 28,
                pd_upper = 32, pd_special = 8192, pd_pagesize_version = 8196, pd_prune_xid = 0\<rparr>;
          lps = [item_id_pack 32 1 (word_of_nat (length raw))]
      in \<lparr>page_header = h, lp_num = 1, lp_items = lps,
          page_data = page_header_bytes h @ concat (map item_id_bytes lps) @
            replicate 4 0 @ raw @ replicate (8160 - length raw) 0\<rparr>)"

lemma row_page_length: "length raw \<le> 8160 \<Longrightarrow> length (page_data (row_page raw)) = 8192"
  by (simp add: row_page_def Let_def)

lemma row_page_parse:
  assumes "length raw \<le> 8160"
  shows "page_parse_bytes (page_data (row_page raw)) = Ok (row_page raw)"
proof -
  let ?h = "page_header (row_page raw)" and ?lps = "lp_items (row_page raw)"
  have d: "page_data (row_page raw) = page_header_bytes ?h @ concat (map item_id_bytes ?lps) @
      replicate 4 0 @ raw @ replicate (8160 - length raw) 0"
    by (simp add: row_page_def Let_def)
  have h: "page_header_parse (page_data (row_page raw)) = Ok ?h"
    unfolding d by (rule page_header_parse_roundtrip)
  have n: "num_line_pointers ?h = 1" "length ?lps = 1"
    by (simp_all add: row_page_def num_line_pointers_def Let_def)
  have "line_pointer_at (page_data (row_page raw)) 0 = ?lps ! 0"
    using n line_pointer_at_concat [of 0 ?lps ?h] by (simp only: d)
  then have "[line_pointer_at (page_data (row_page raw)) 0] = ?lps"
    using n by (cases ?lps) simp_all
  then show ?thesis
    using row_page_length [OF assms] n unfolding page_parse_bytes_eq [OF h]
    by (simp add: row_page_def Let_def)
qed

lemma row_page_rows:
  assumes "length raw \<le> 8160" and "parse_and_build raw = Ok t"
  shows "page_rows (row_page raw) = [t]"
proof -
  let ?n = "word_of_nat (length raw)"
  have n: "unat (?n :: u16) = length raw" using assms(1) by (simp add: unsigned_of_nat take_bit_nat_eq_self)
  have f: "lp_off (item_id_pack 32 1 ?n) = 32" "lp_flags (item_id_pack 32 1 ?n) = 1" "lp_len (item_id_pack 32 1 ?n) = ?n"
    by (rule item_id_pack_fields; use assms(1) n in simp)+
  have "get_row_data (row_page raw) 0 = Ok t"
    using assms by (simp add: get_row_data_eq row_page_def Let_def f n lp_consts)
  moreover have "lp_num (row_page raw) = Suc 0" by (simp add: row_page_def Let_def)
  ultimately show ?thesis by (simp add: page_rows_def slot_row_def)
qed

text \<open>A relation of one page on a disk.\<close>

lemma disk_relation_rows:
  assumes "files (segment_path dir (table_file_reader_new db rel :: bytes table_file_reader) 0) = Some (page_data page)"
    and "length (page_data page) = 8192" and "page_parse_bytes (page_data page) = Ok page"
  shows "relation_rows (disk files) dir db rel (page_rows page)"
proof -
  let ?path = "segment_path dir (table_file_reader_new db rel :: bytes table_file_reader)"
  have "page_list (page_data page) = [page_data page]"
    using page_list_Cons [of "page_data page"] assms(2) by (simp add: page_list_short)
  then have "segment_walk (disk files) ?path 0 [page_data page]"
    using disk_walk [of files ?path 0 "page_data page"] assms(1,2) by simp
  then show ?thesis
    using assms(1,3) unfolding relation_rows_def Let_def
    by (intro exI [of _ "[page_data page]"] exI [of _ "[page]"]) (simp add: disk_def page_parse_def)
qed

section \<open>A cluster of one database\<close>

definition sample_class :: pg_class where
  "sample_class = (pg_class_of (replicate 31 None))
     \<lparr>class_oid := 9, relname := ''t1'', relfilenode := 7, relkind := 114\<rparr>"

definition sample_attribute :: pg_attribute where
  "sample_attribute = (pg_attribute_of (replicate 20 None))
     \<lparr>attrelid := 9, attname := ''a'', atttypid := 21, attnum := 1\<rparr>"

definition sample_database :: pg_database where
  "sample_database = \<lparr>db_oid = 5, datname = ''d''\<rparr>"

definition class_bytes :: bytes where
  "class_bytes = the (row_data pg_class_catalog_schema (map Some (pg_class_datums sample_class)))"

definition attribute_bytes :: bytes where
  "attribute_bytes = the (row_data pg_attribute_catalog_schema (map Some (pg_attribute_datums sample_attribute)))"

definition database_bytes :: bytes where
  "database_bytes = the (row_data pg_database_catalog_schema (map Some (pg_database_datums sample_database)))"

lemmas cell_simps = datum_cell_def if_type_def padded_cell_def pad_len_def stored_bytes_def u16_bytes_def u32_bytes_def
  le_bytes_numeral bytes_of_str_def div_ceil_def utf8_valid_Cons utf8_head_def utf8_char_def char_width_def

lemma class_bytes_length: "length class_bytes \<le> 400"
  unfolding class_bytes_def row_data_def class_types PG_CLASS_ATTR_TYPES_def pg_class_datums_def
  by (simp add: sample_class_def cell_simps)

lemma attribute_bytes_length: "length attribute_bytes \<le> 400"
  unfolding attribute_bytes_def row_data_def attribute_types PG_ATTRIBUTE_ATTR_TYPES_def pg_attribute_datums_def
  by (simp add: sample_attribute_def cell_simps)

lemma database_bytes_length: "length database_bytes \<le> 400"
  unfolding database_bytes_def row_data_def database_types PG_DATABASE_ATTR_TYPES_def pg_database_datums_def
  by (simp add: sample_database_def cell_simps)

definition sample_files :: "string \<rightharpoonup> bytes" where
  "sample_files =
     [''/d/base/5/1259'' \<mapsto> page_data (row_page (tuple_bytes (sample_tuple [] class_bytes) [0])),
      ''/d/base/5/1249'' \<mapsto> page_data (row_page (tuple_bytes (sample_tuple [] attribute_bytes) [0])),
      ''/d/base/5/7'' \<mapsto> page_data sample_page,
      ''/d/global/1262'' \<mapsto> page_data (row_page (tuple_bytes (sample_tuple [] database_bytes) [0]))]"

lemma row_page_relation:
  assumes "files (segment_path dir (table_file_reader_new db rel :: bytes table_file_reader) 0) =
      Some (page_data (row_page (tuple_bytes (sample_tuple [] bs) [0])))" and "length bs \<le> 400"
  shows "relation_rows (disk files) dir db rel [sample_tuple [] bs]"
proof -
  let ?raw = "tuple_bytes (sample_tuple [] bs) [0]"
  have "parse_and_build ?raw = Ok (sample_tuple [] bs)"
    by (rule parse_and_build_tuple_bytes) (simp_all add: sample_tuple_def bitmap_len_def has_flag_def)
  moreover have len: "length ?raw \<le> 8160"
    using assms(2) by (simp add: tuple_bytes_def sample_tuple_def)
  ultimately show ?thesis
    using disk_relation_rows [where files = files, OF assms(1) row_page_length [OF len] row_page_parse [OF len]] row_page_rows [OF len]
    by simp
qed

lemma sample_numbers: "show_nat 5 = ''5''" "show_nat 7 = ''7''" "show_nat 1259 = ''1259''" "show_nat 1249 = ''1249''"
  "show_nat 1262 = ''1262''"
  by code_simp+

lemma sample_relations:
  "relation_rows (disk sample_files) ''/d'' 5 1259 [sample_tuple [] class_bytes]"
  "relation_rows (disk sample_files) ''/d'' 5 1249 [sample_tuple [] attribute_bytes]"
  "relation_rows (disk sample_files) ''/d'' 0 1262 [sample_tuple [] database_bytes]"
  by (rule row_page_relation; simp add: segment_path_def table_file_reader_new_def sample_numbers sample_files_def Let_def
      class_bytes_length attribute_bytes_length database_bytes_length)+

lemma sample_table_rows:
  "relation_rows (disk sample_files) ''/d'' 5 7 [sample_tuple [5] [5, 0, 0, 0, 7, 0, 0, 0], sample_deleted]"
  unfolding sample_page_rows [symmetric]
  by (rule disk_relation_rows [OF _ sample_page_length sample_page_parse])
    (simp add: segment_path_def table_file_reader_new_def sample_numbers sample_files_def Let_def)

lemma sample_names: "name_ok ''t1''" "name_ok ''a''" "name_ok ''d''"
  by (simp_all add: name_ok_def bytes_of_str_def utf8_valid_Cons utf8_head_def utf8_char_def char_width_def)

lemma sample_rows_decode:
  "pg_class_from_row (sample_tuple [] class_bytes) pg_class_catalog_schema = Ok sample_class"
  "pg_attribute_from_row (sample_tuple [] attribute_bytes) pg_attribute_catalog_schema = Ok sample_attribute"
  "pg_database_from_row (sample_tuple [] database_bytes) pg_database_catalog_schema = Ok sample_database"
proof -
  have "name_ok (relname sample_class)" "name_ok (attname sample_attribute)" "name_ok (datname sample_database)"
    by (simp_all add: sample_class_def sample_attribute_def sample_database_def sample_names)
  from pg_class_stored [OF this(1)] pg_attribute_roundtrip [OF this(2)] pg_database_roundtrip [OF this(3)]
  show "pg_class_from_row (sample_tuple [] class_bytes) pg_class_catalog_schema = Ok sample_class"
    "pg_attribute_from_row (sample_tuple [] attribute_bytes) pg_attribute_catalog_schema = Ok sample_attribute"
    "pg_database_from_row (sample_tuple [] database_bytes) pg_database_catalog_schema = Ok sample_database"
    using full_tuple_sample by (auto simp: class_bytes_def attribute_bytes_def database_bytes_def)
qed

lemma sample_live_tuple: "t_xmax (header (sample_tuple bm bs)) = 0"
  by (simp add: sample_tuple_def)

text \<open>What the catalogs of the sample cluster give.\<close>

lemma sample_caches:
  "decoded_rows (\<lambda>t. pg_class_from_row t pg_class_catalog_schema) (live_rows [sample_tuple [] class_bytes]) = [sample_class]"
  "decoded_rows (\<lambda>t. pg_attribute_from_row t pg_attribute_catalog_schema) [sample_tuple [] attribute_bytes] = [sample_attribute]"
  "class_oid sample_class = 9" "unat (relfilenode sample_class) = 7"
  by (simp_all add: decoded_rows_def sample_live_tuple sample_rows_decode) (simp_all add: sample_class_def)

lemma sample_databases:
  "filter (\<lambda>d. datname d \<noteq> []) (decoded_rows (\<lambda>t. pg_database_from_row t pg_database_catalog_schema)
    (live_rows [sample_tuple [] database_bytes])) = [sample_database]"
  by (simp add: decoded_rows_def sample_live_tuple sample_rows_decode) (simp add: sample_database_def)

text \<open>The decoded rows of the sample table, whose schema is one \<open>int2\<close> column.\<close>

lemma sample_table_schema:
  "from_attributes ''t1'' (filter (\<lambda>a. attrelid a = 9) [sample_attribute]) =
    pg_schema_new ''t1'' [pg_column_new ''a'' T_Int2 True 0]"
  by (simp add: sample_attribute_def pg_attribute_of_def from_attributes_def user_attribute_def pg_column_from_def
      pg_schema_new_def pg_column_new_def type_id_try_from_def as_i32_def as_bool_def as_i16_def)

lemma sample_table_decode:
  "omap (\<lambda>t. decode_row t (pg_schema_new ''t1'' [pg_column_new ''a'' T_Int2 True 0]))
      [sample_tuple [5] [5, 0, 0, 0, 7, 0, 0, 0], sample_deleted] =
    Ok [\<lparr>row_columns = [D_Int2 5]\<rparr>, \<lparr>row_columns = [D_Int2 6]\<rparr>]"
proof -
  let ?s = "pg_schema_new ''t1'' [pg_column_new ''a'' T_Int2 True 0]"
  have d: "row_data ?s [Some (D_Int2 5)] = Some [5, 0]" "row_data ?s [Some (D_Int2 6)] = Some [6, 0]"
    by (simp_all add: row_data_def pg_schema_new_def pg_column_new_def cell_simps)
  show ?thesis
    using decode_row_formed [OF d(1), of "sample_tuple [5] [5, 0, 0, 0, 7, 0, 0, 0]" "[0, 0, 7, 0, 0, 0]"]
      decode_row_formed [OF d(2), of sample_deleted "[0, 0, 8, 0, 0, 0]"]
    by (simp add: sample_tuple_def pg_schema_new_def num_columns_def is_null_def datum_or_null_def get_def)
qed

lemma table_reader_loaded:
  assumes "relation_rows fs dir db 1259 crows" and "relation_rows fs dir db 1249 arows"
    and "\<forall>t \<in> set (live_rows crows). pg_class_from_row t pg_class_catalog_schema \<noteq> Panic"
    and "\<forall>t \<in> set arows. pg_attribute_from_row t pg_attribute_catalog_schema \<noteq> Panic"
  shows "pg_table_reader_new fs (Ok dir) db =
    Some (Ok \<lparr>reader_db = db,
      pg_class_cache = decoded_rows (\<lambda>t. pg_class_from_row t pg_class_catalog_schema) (live_rows crows),
      pg_attribute_cache = decoded_rows (\<lambda>t. pg_attribute_from_row t pg_attribute_catalog_schema) arows,
      current_table = None, current_schema = None\<rparr>)"
  by (simp add: pg_table_reader_new_def bootstrap_rows [OF assms(1,2)] ofold_push_class [OF assms(3)]
      ofold_push_attribute [OF assms(4)])

lemma fetch_all_rows:
  assumes "require_table rd = Ok (table, s)"
    and "relation_rows fs dir (reader_db rd) (unat (relfilenode table)) rows"
  shows "fetch_all fs (Ok dir) rd = Some (omap (\<lambda>t. decode_row t s) rows)"
  by (simp add: fetch_all_def assms(1) open_pages_Ok for_each_relation [OF assms(2)] ofold_on_row ofold_omap)

text \<open>The constructor, a selection and a fetch.\<close>

lemma reader_fetches:
  assumes "relation_rows fs dir db 1259 crows" and "relation_rows fs dir db 1249 arows"
    and "\<forall>t \<in> set (live_rows crows). pg_class_from_row t pg_class_catalog_schema \<noteq> Panic"
    and "\<forall>t \<in> set arows. pg_attribute_from_row t pg_attribute_catalog_schema \<noteq> Panic"
    and "List.find (\<lambda>c. relname c = name \<and> is_table c)
      (decoded_rows (\<lambda>t. pg_class_from_row t pg_class_catalog_schema) (live_rows crows)) = Some c"
    and "relation_rows fs dir db (unat (relfilenode c)) rows"
    and "s = from_attributes name (filter (\<lambda>a. attrelid a = class_oid c)
      (decoded_rows (\<lambda>t. pg_attribute_from_row t pg_attribute_catalog_schema) arows))"
  shows "\<exists>rd rd'. pg_table_reader_new fs (Ok dir) db = Some (Ok rd) \<and> set_table name rd = (Ok (), rd') \<and>
    reader_schema rd' = Some s \<and> fetch_all fs (Ok dir) rd' = Some (omap (\<lambda>t. decode_row t s) rows)"
proof -
  let ?classes = "decoded_rows (\<lambda>t. pg_class_from_row t pg_class_catalog_schema) (live_rows crows)"
  let ?attrs = "decoded_rows (\<lambda>t. pg_attribute_from_row t pg_attribute_catalog_schema) arows"
  let ?rd = "\<lparr>reader_db = db, pg_class_cache = ?classes, pg_attribute_cache = ?attrs,
      current_table = None, current_schema = None\<rparr>"
  let ?rd' = "?rd\<lparr>current_table := Some c, current_schema := Some s\<rparr>"
  have "pg_table_reader_new fs (Ok dir) db = Some (Ok ?rd)"
    by (rule table_reader_loaded [OF assms(1-4)])
  moreover have "relname c = name" using assms(5) by (auto simp: find_Some_iff)
  then have "set_table name ?rd = (Ok (), ?rd')"
    by (simp add: set_table_def assms(5,7) table_schema_def)
  moreover have "fetch_all fs (Ok dir) ?rd' = Some (omap (\<lambda>t. decode_row t s) rows)"
    by (rule fetch_all_rows [of _ c]) (simp_all add: require_table_def assms(6))
  ultimately show ?thesis by (intro exI [of _ ?rd] exI [of _ ?rd']) (simp add: reader_schema_def)
qed

text \<open>The databases that are listed, and the lookup of one.\<close>

lemma databases_found:
  assumes "relation_rows fs dir 0 1262 rows"
    and "\<forall>t \<in> set (live_rows rows). pg_database_from_row t pg_database_catalog_schema \<noteq> Panic"
    and "dbs = filter (\<lambda>d. datname d \<noteq> [])
      (decoded_rows (\<lambda>t. pg_database_from_row t pg_database_catalog_schema) (live_rows rows))"
  shows "list_databases fs (Ok dir) = Some (Ok dbs) \<and>
    get_database_oid fs (Ok dir) name = Some (Ok (map_option db_oid (List.find (\<lambda>d. datname d = name) dbs)))"
  using list_databases_rows [OF assms(1)] ofold_keep_database [OF assms(2)] assms(3)
  by (simp add: get_database_oid_def)

section \<open>Properties\<close>

text \<open>
  C3: From catalog files to rows.  On a database whose \<open>pg_class\<close>, \<open>pg_attribute\<close> and table files are
  readable, \<open>new\<close>, \<open>set_table\<close> and \<open>fetch_all\<close> end: the table is the first ordinary one of that name
  among the rows of \<open>pg_class\<close> without \<open>xmax\<close> that decode, its schema is that of the attribute rows with its
  OID, and the result is every tuple of its file decoded with that schema, in order, or the first error.
\<close>

theorem table_reader_end_to_end:
  assumes "relation_rows fs dir db 1259 crows" and "relation_rows fs dir db 1249 arows"
    and "\<forall>t \<in> set (live_rows crows). pg_class_from_row t pg_class_catalog_schema \<noteq> Panic"
    and "\<forall>t \<in> set arows. pg_attribute_from_row t pg_attribute_catalog_schema \<noteq> Panic"
    and "List.find (\<lambda>c. relname c = name \<and> is_table c)
      (decoded_rows (\<lambda>t. pg_class_from_row t pg_class_catalog_schema) (live_rows crows)) = Some c"
    and "relation_rows fs dir db (unat (relfilenode c)) rows"
    and "s = from_attributes name (filter (\<lambda>a. attrelid a = class_oid c)
      (decoded_rows (\<lambda>t. pg_attribute_from_row t pg_attribute_catalog_schema) arows))"
  shows "\<exists>rd rd'. pg_table_reader_new fs (Ok dir) db = Some (Ok rd) \<and> set_table name rd = (Ok (), rd') \<and>
    reader_schema rd' = Some s \<and> fetch_all fs (Ok dir) rd' = Some (omap (\<lambda>t. decode_row t s) rows)"
  by (rule reader_fetches [OF assms])

theorem table_reader_end_to_end_witness:
  "\<exists>rd rd'. pg_table_reader_new (disk sample_files) (Ok ''/d'') 5 = Some (Ok rd) \<and> set_table ''t1'' rd = (Ok (), rd') \<and>
    fetch_all (disk sample_files) (Ok ''/d'') rd' =
      Some (Ok [\<lparr>row_columns = [D_Int2 5]\<rparr>, \<lparr>row_columns = [D_Int2 6]\<rparr>])"
proof -
  have "List.find (\<lambda>c. relname c = ''t1'' \<and> is_table c) [sample_class] = Some sample_class"
    by (simp add: sample_class_def is_table_def)
  from table_reader_end_to_end [OF sample_relations(1,2) _ _ this [folded sample_caches] _ refl,
      unfolded sample_caches sample_table_schema, OF _ _ sample_table_rows]
  show ?thesis
    unfolding sample_table_decode by (auto simp: sample_live_tuple sample_rows_decode)
qed

text \<open>
  C23: The four ways to fetch, on a selected table whose file is readable, all end.  \<open>fetch_all\<close> and
  \<open>fetch_all_projected\<close> decode every tuple of the file in order, deleted ones (with an \<open>xmax\<close>) too, and
  return the first error; \<open>fetch_with_filter\<close> is \<open>fetch_all\<close> and then the predicate; and
  \<open>fetch_by_limit\<close> returns no rows, whatever its limit.
\<close>

theorem fetch_operations:
  assumes "require_table rd = Ok (table, s)"
    and "relation_rows fs dir (reader_db rd) (unat (relfilenode table)) rows" and "length rows < 2 ^ 31"
  shows "fetch_all fs (Ok dir) rd = Some (omap (\<lambda>t. decode_row t s) rows) \<and>
    fetch_all_projected fs (Ok dir) proj rd = Some (omap (\<lambda>t. decode_row_projected t s proj) rows) \<and>
    fetch_with_filter fs (Ok dir) p rd = Some (obind (omap (\<lambda>t. decode_row t s) rows) (\<lambda>rs. Ok (filter p rs))) \<and>
    fetch_by_limit fs (Ok dir) limit rd = Some (Ok [])"
proof -
  have count: "ofold (\<lambda>_ count. if count = 2147483647 then Panic else Ok (count + 1)) ts n =
      (Ok (n + length ts) :: nat pg_result)" if "n + length ts < 2 ^ 31" for ts :: "heap_tuple_data list" and n
    using that by (induction ts arbitrary: n) auto
  have "0 + length (take limit rows) < 2 ^ 31" using assms(3) by simp
  from count [OF this] show ?thesis
    by (simp add: fetch_all_def fetch_all_projected_def fetch_with_filter_def fetch_by_limit_def assms(1) open_pages_Ok
        for_each_relation [OF assms(2)] for_take_relation [OF assms(2)] ofold_on_row ofold_omap ofold_omap_filter)
qed

theorem fetch_operations_witness:
  "fetch_by_limit (disk sample_files) (Ok ''/d'') 1
     \<lparr>reader_db = 5, pg_class_cache = [], pg_attribute_cache = [], current_table = Some sample_class,
      current_schema = Some sample_schema\<rparr> = Some (Ok [])"
proof -
  let ?rd = "\<lparr>reader_db = 5, pg_class_cache = [], pg_attribute_cache = [], current_table = Some sample_class,
      current_schema = Some sample_schema\<rparr>"
  have "unat (relfilenode sample_class) = 7" by (simp add: sample_class_def)
  then have "relation_rows (disk sample_files) ''/d'' (reader_db ?rd) (unat (relfilenode sample_class))
      [sample_tuple [5] [5, 0, 0, 0, 7, 0, 0, 0], sample_deleted]"
    using sample_table_rows by simp
  from fetch_operations [OF _ this] show ?thesis by (simp add: require_table_def)
qed

text \<open>
  \<open>list_databases\<close> ends and returns the databases of \<open>global/1262\<close>: the rows without \<open>xmax\<close> that
  decode and have a name, in file order; \<open>get_database_oid\<close> returns the OID of the first of the given
  name.
\<close>

theorem databases_listed:
  assumes "relation_rows fs dir 0 1262 rows"
    and "\<forall>t \<in> set (live_rows rows). pg_database_from_row t pg_database_catalog_schema \<noteq> Panic"
    and "dbs = filter (\<lambda>d. datname d \<noteq> [])
      (decoded_rows (\<lambda>t. pg_database_from_row t pg_database_catalog_schema) (live_rows rows))"
  shows "list_databases fs (Ok dir) = Some (Ok dbs) \<and>
    get_database_oid fs (Ok dir) name = Some (Ok (map_option db_oid (List.find (\<lambda>d. datname d = name) dbs)))"
  by (rule databases_found [OF assms])

theorem databases_listed_witness:
  "get_database_oid (disk sample_files) (Ok ''/d'') ''d'' = Some (Ok (Some 5))"
  using databases_listed [OF sample_relations(3) _ sample_databases [symmetric]]
  by (simp add: sample_live_tuple sample_rows_decode) (simp add: sample_database_def)

text \<open>
  C26: The table reader as a state machine: in every state that \<open>new\<close>, \<open>set_table\<close> and \<open>set_db\<close> lead to,
  calls that fail or panic included, a table is selected just when a schema is; the table is an ordinary
  one of the cached catalog and the schema is that of its cached attributes.
\<close>

theorem selection_invariant:
  assumes "reader_reach fs data_dir rd"
  shows "require_table rd =
      (case current_table rd of Some c \<Rightarrow> Ok (c, table_schema rd c) | None \<Rightarrow> Err NoTableSelected) \<and>
    (\<forall>c. current_table rd = Some c \<longrightarrow> c \<in> set (pg_class_cache rd) \<and> relkind c = 114)"
  using reader_reach_selection_ok [OF assms]
  by (auto simp: selection_ok_def require_table_def is_table_def split: option.splits)

theorem selection_invariant_witness:
  "\<exists>rd. reader_reach (disk sample_files) (Ok ''/d'') rd \<and> require_table rd = Err NoTableSelected"
proof -
  obtain rd where rd: "pg_table_reader_new (disk sample_files) (Ok ''/d'') 5 = Some (Ok rd)"
    using table_reader_loaded [OF sample_relations(1,2)] by (simp add: sample_live_tuple sample_rows_decode)
  from selection_invariant [OF reader_new [OF this]] show ?thesis
    using rd reader_new [OF rd] by (intro exI [of _ rd]) (auto simp: pg_table_reader_new_def split: option.splits elim!: try_run.elims)
qed

text \<open>
  C33: The catalog bootstrap never reports an error.  Rows that do not decode are skipped and the end of
  a file is not an error, so \<open>CatalogBootstrapFailed\<close> cannot occur; a database without a \<open>pg_class\<close> file
  makes \<open>new\<close> and \<open>set_db\<close> panic, and \<open>set_db\<close> has by then moved the reader to that database with the
  catalogs of the old one.
\<close>

theorem bootstrap_reports_no_error:
  fixes fs :: "'h file_system"
  shows "pg_table_reader_new fs data_dir db \<noteq> Some (Err e) \<and> set_db fs data_dir db rd \<noteq> Some (Err e, rd') \<and>
    (open_file fs (segment_path dir (table_file_reader_new db 1259 :: 'h table_file_reader) 0) = None \<longrightarrow>
       pg_table_reader_new fs (Ok dir) db = Some Panic \<and>
       set_db fs (Ok dir) db rd =
         Some (Panic, rd\<lparr>reader_db := db, current_table := None, current_schema := None\<rparr>))"
proof -
  have "pg_table_reader_new fs data_dir db \<noteq> Some (Err e)"
    using bootstrap_no_error [of fs data_dir db e]
    by (auto simp: pg_table_reader_new_def split: option.splits elim!: try_run.elims)
  moreover have "set_db fs data_dir db rd \<noteq> Some (Err e, rd')"
    using bootstrap_no_error [of fs data_dir db e]
    by (auto simp: set_db_def Let_def split: option.splits outcome.splits)
  ultimately show ?thesis
    using missing_class_file_panics [of fs dir db] by (simp add: pg_table_reader_new_def set_db_def Let_def)
qed

theorem bootstrap_reports_no_error_witness:
  "pg_table_reader_new (disk sample_files) (Ok ''/d'') 7 = Some Panic"
proof -
  have "open_file (disk sample_files) (segment_path ''/d'' (table_file_reader_new 7 1259 :: bytes table_file_reader) 0) = None"
    by (simp add: disk_def segment_path_def table_file_reader_new_def sample_numbers sample_files_def Let_def)
  then show ?thesis using bootstrap_reports_no_error [of "disk sample_files" _ 7 _ _ _ "''/d''"] by blast
qed

text \<open>
  C34: The bootstrap keeps every version of an attribute: the schema of a table has one column per tuple
  of \<open>pg_attribute\<close> that decodes to a live user attribute of the table, the tuples that an
  \<open>ALTER TABLE\<close> has superseded (with an \<open>xmax\<close>) among them; columns are counted with their versions.
\<close>

theorem superseded_attributes_kept:
  assumes "relation_rows fs dir db 1259 crows" and "relation_rows fs dir db 1249 arows"
    and "\<forall>t \<in> set (live_rows crows). pg_class_from_row t pg_class_catalog_schema \<noteq> Panic"
    and "\<forall>t \<in> set arows. pg_attribute_from_row t pg_attribute_catalog_schema \<noteq> Panic"
  shows "\<exists>rd. pg_table_reader_new fs (Ok dir) db = Some (Ok rd) \<and>
    (\<forall>c. num_columns (table_schema rd c) =
      length (filter (\<lambda>t. \<exists>a. pg_attribute_from_row t pg_attribute_catalog_schema = Ok a \<and>
                attrelid a = class_oid c \<and> \<not> attisdropped a \<and> 0 < sint (attnum a)) arows))"
proof -
  let ?f = "\<lambda>t. pg_attribute_from_row t pg_attribute_catalog_schema"
  let ?rd = "\<lparr>reader_db = db, pg_class_cache = decoded_rows (\<lambda>t. pg_class_from_row t pg_class_catalog_schema) (live_rows crows),
      pg_attribute_cache = decoded_rows ?f arows, current_table = None, current_schema = None\<rparr>"
  have "pg_table_reader_new fs (Ok dir) db = Some (Ok ?rd)"
    by (rule table_reader_loaded [OF assms])
  moreover have "length (filter p (decoded_rows f ts)) = length (filter (\<lambda>t. \<exists>a. f t = Ok a \<and> p a) ts)"
    for p and f :: "heap_tuple_data \<Rightarrow> pg_attribute pg_result" and ts
    by (induction ts) (auto simp: decoded_rows_def split: outcome.split)
  ultimately show ?thesis
    by (intro exI [of _ ?rd]) (simp add: table_schema_def from_attributes_def num_columns_def user_attribute_def Let_def)
qed

theorem superseded_attributes_kept_witness:
  "\<exists>rd. pg_table_reader_new (disk sample_files) (Ok ''/d'') 5 = Some (Ok rd) \<and> num_columns (table_schema rd sample_class) = 1"
proof -
  obtain rd where rd: "pg_table_reader_new (disk sample_files) (Ok ''/d'') 5 = Some (Ok rd)"
    "num_columns (table_schema rd sample_class) =
      length (filter (\<lambda>t. \<exists>a. pg_attribute_from_row t pg_attribute_catalog_schema = Ok a \<and>
                attrelid a = class_oid sample_class \<and> \<not> attisdropped a \<and> 0 < sint (attnum a)) [sample_tuple [] attribute_bytes])"
    using superseded_attributes_kept [OF sample_relations(1,2)] by (auto simp: sample_live_tuple sample_rows_decode)
  then show ?thesis
    by (simp add: sample_rows_decode) (simp add: sample_attribute_def sample_class_def pg_attribute_of_def as_bool_def)
qed

end
