(* ===== verification/ArrowRows.thy ===== *)
theory ArrowRows
  imports BatchRows
begin

text \<open>
  \<open>PgRow::to_record_batch\<close>, \<open>build_arrow_array\<close> and \<open>build_fixed_binary\<close> of \<open>src/table/mod.rs\<close>: the
  conversion of decoded rows to Arrow arrays, and how it differs from the conversion of raw pages.

  Builders are logs, as in \<open>Batch\<close>.  The derived \<open>Debug\<close> of a datum and of a type, which only appear in
  error texts, are the parameter \<open>debug_fmt\<close>.
\<close>

section \<open>One column\<close>

record debug_fmt =
  debug_datum :: "pg_datum \<Rightarrow> string"
  debug_type :: "pg_type_id \<Rightarrow> string"

text \<open>\<open>format!("column {col_idx}: expected .., got {other:?}")\<close>\<close>

definition mismatch :: "debug_fmt \<Rightarrow> usize \<Rightarrow> string \<Rightarrow> pg_datum \<Rightarrow> 'a pg_result" where
  "mismatch dbg col_idx expected other =
     Err (ArrowConversionFailed
       (''column '' @ show_nat col_idx @ '': expected '' @ expected @ '', got '' @ debug_datum dbg other))"

text \<open>
  The scalar arms (the macro \<open>build_scalar!\<close> and its like): the variant each one expects, and the value
  that a datum of a variant appends.
\<close>

definition scalar_variant :: "pg_type_id \<Rightarrow> string" where
  "scalar_variant t =
     (case t of
        T_Bool \<Rightarrow> ''Bool'' | T_Int2 \<Rightarrow> ''Int2'' | T_Int4 \<Rightarrow> ''Int4'' | T_Int8 \<Rightarrow> ''Int8'' | T_Float4 \<Rightarrow> ''Float4''
      | T_Float8 \<Rightarrow> ''Float8'' | T_Char \<Rightarrow> ''Char'' | T_Oid \<Rightarrow> ''Oid'' | T_Xid \<Rightarrow> ''Xid'' | T_Cid \<Rightarrow> ''Cid''
      | T_Xid8 \<Rightarrow> ''Xid8'' | T_Date \<Rightarrow> ''Date'' | T_Money \<Rightarrow> ''Money'' | T_Time \<Rightarrow> ''Time'' | T_Timetz \<Rightarrow> ''TimeTz''
      | T_Timestamp \<Rightarrow> ''Timestamp'' | _ \<Rightarrow> ''TimestampTz'')"

definition scalar_value :: "pg_datum \<Rightarrow> (string \<times> arrow_value) option" where
  "scalar_value d =
     (case d of
        D_Bool v \<Rightarrow> Some (''Bool'', AV_Bool v)
      | D_Int2 v \<Rightarrow> Some (''Int2'', AV_Int16 v)
      | D_Int4 v \<Rightarrow> Some (''Int4'', AV_Int32 v)
      | D_Int8 v \<Rightarrow> Some (''Int8'', AV_Int64 v)
      | D_Float4 v \<Rightarrow> Some (''Float4'', AV_Float32 v)
      | D_Float8 v \<Rightarrow> Some (''Float8'', AV_Float64 v)
      | D_Char v \<Rightarrow> Some (''Char'', AV_UInt8 v)
      | D_Oid v \<Rightarrow> Some (''Oid'', AV_UInt32 v)
      | D_Xid v \<Rightarrow> Some (''Xid'', AV_UInt32 v)
      | D_Cid v \<Rightarrow> Some (''Cid'', AV_UInt32 v)
      | D_Xid8 v \<Rightarrow> Some (''Xid8'', AV_UInt64 v)
      | D_Date v \<Rightarrow> Some (''Date'', AV_Int32 v)
      | D_Money v \<Rightarrow> Some (''Money'', AV_Int64 v)
      | D_Time v \<Rightarrow> Some (''Time'', AV_Int64 v)
      | D_TimeTz us tz \<Rightarrow> Some (''TimeTz'', AV_Int64 us)
      | D_Timestamp v \<Rightarrow> Some (''Timestamp'', AV_Int64 v)
      | D_TimestampTz v \<Rightarrow> Some (''TimestampTz'', AV_Int64 v)
      | _ \<Rightarrow> None)"

definition scalar_cell :: "debug_fmt \<Rightarrow> usize \<Rightarrow> pg_type_id \<Rightarrow> pg_datum \<Rightarrow> arrow_cell pg_result" where
  "scalar_cell dbg col_idx t d =
     (case scalar_value d of
        Some (variant, v) \<Rightarrow>
          if variant = scalar_variant t then Ok (Some v) else mismatch dbg col_idx (scalar_variant t) d
      | None \<Rightarrow> mismatch dbg col_idx (scalar_variant t) d)"

text \<open>The arms for strings, for variable-length binary values, and for arrays (the last arm of the match).\<close>

definition string_value :: "pg_datum \<Rightarrow> string option" where
  "string_value d =
     (case d of
        D_Text s \<Rightarrow> Some s | D_Varchar s \<Rightarrow> Some s | D_BpChar s \<Rightarrow> Some s | D_Json s \<Rightarrow> Some s | D_Xml s \<Rightarrow> Some s
      | _ \<Rightarrow> None)"

definition binary_value :: "pg_datum \<Rightarrow> bytes option" where
  "binary_value d =
     (case d of
        D_Bytea b \<Rightarrow> Some b | D_Jsonb b \<Rightarrow> Some b | D_JsonPath b \<Rightarrow> Some b | D_Inet b \<Rightarrow> Some b
      | D_Cidr b \<Rightarrow> Some b | D_Bit b \<Rightarrow> Some b | D_VarBit b \<Rightarrow> Some b | D_Path b \<Rightarrow> Some b
      | D_Polygon b \<Rightarrow> Some b | D_RawBytes _ b \<Rightarrow> Some b
      | _ \<Rightarrow> None)"

definition string_cell :: "debug_fmt \<Rightarrow> usize \<Rightarrow> pg_datum \<Rightarrow> arrow_cell pg_result" where
  "string_cell dbg col_idx d =
     (case string_value d of Some s \<Rightarrow> Ok (Some (AV_Str s)) | None \<Rightarrow> mismatch dbg col_idx ''string type'' d)"

definition binary_cell :: "debug_fmt \<Rightarrow> usize \<Rightarrow> pg_datum \<Rightarrow> arrow_cell pg_result" where
  "binary_cell dbg col_idx d =
     (case binary_value d of Some b \<Rightarrow> Ok (Some (AV_Bin b)) | None \<Rightarrow> mismatch dbg col_idx ''binary type'' d)"

definition array_cell :: "debug_fmt \<Rightarrow> usize \<Rightarrow> pg_type_id \<Rightarrow> pg_datum \<Rightarrow> arrow_cell pg_result" where
  "array_cell dbg col_idx t d =
     (case d of
        D_RawBytes _ b \<Rightarrow> Ok (Some (AV_Bin b))
      | _ \<Rightarrow> Err (ArrowConversionFailed (''column '' @ show_nat col_idx @ '': unsupported type '' @
              debug_type dbg t @ '' with datum '' @ debug_datum dbg d)))"

text \<open>The arms of interval, numeric, name and tid.\<close>

definition interval_cell :: "debug_fmt \<Rightarrow> usize \<Rightarrow> pg_datum \<Rightarrow> arrow_cell pg_result" where
  "interval_cell dbg col_idx d =
     (case d of
        D_Interval us days months \<Rightarrow> Ok (Some (AV_Bin (u32_bytes months @ u32_bytes days @ u64_bytes us)))
      | _ \<Rightarrow> mismatch dbg col_idx ''Interval'' d)"

definition numeric_cell :: "debug_fmt \<Rightarrow> usize \<Rightarrow> i32 \<Rightarrow> pg_datum \<Rightarrow> arrow_cell pg_result" where
  "numeric_cell dbg col_idx tm d =
     (case d of
        D_Numeric b \<Rightarrow>
          (case numeric_typmod_to_arrow_type tm of
             DT_Decimal128 p s \<Rightarrow> decimal128_cell s b
           | DT_Decimal256 p s \<Rightarrow> decimal256_cell s b
           | _ \<Rightarrow> decimal256_cell 0 b)
      | _ \<Rightarrow> mismatch dbg col_idx ''Numeric'' d)"

definition name_cell :: "debug_fmt \<Rightarrow> usize \<Rightarrow> pg_datum \<Rightarrow> arrow_cell pg_result" where
  "name_cell dbg col_idx d =
     (case d of D_Name b \<Rightarrow> Ok (Some (AV_Str (name_or_empty b))) | _ \<Rightarrow> mismatch dbg col_idx ''Name'' d)"

definition tid_cell :: "debug_fmt \<Rightarrow> usize \<Rightarrow> pg_datum \<Rightarrow> arrow_cell pg_result" where
  "tid_cell dbg col_idx d =
     (case d of
        D_Tid block offset \<Rightarrow> Ok (Some (AV_Bin (u32_bytes block @ u16_bytes offset)))
      | _ \<Rightarrow> mismatch dbg col_idx ''Tid'' d)"

text \<open>
  The fixed-size arms: the variant each one expects, the bytes that a datum of a variant gives, and
  \<open>append_value\<close>, whose error is mapped; \<open>build_fixed_binary\<close> does the same with its \<open>extract\<close>.
\<close>

definition fixed_variant :: "pg_type_id \<Rightarrow> string" where
  "fixed_variant t =
     (case t of
        T_Uuid \<Rightarrow> ''Uuid'' | T_Macaddr \<Rightarrow> ''MacAddr'' | T_Macaddr8 \<Rightarrow> ''MacAddr8'' | T_Point \<Rightarrow> ''Point''
      | T_Line \<Rightarrow> ''Line'' | T_Circle \<Rightarrow> ''Circle'' | _ \<Rightarrow> ''Lseg/Box'')"

definition fixed_value :: "pg_datum \<Rightarrow> (string \<times> bytes) option" where
  "fixed_value d =
     (case d of
        D_Uuid b \<Rightarrow> Some (''Uuid'', b)
      | D_MacAddr b \<Rightarrow> Some (''MacAddr'', b)
      | D_MacAddr8 b \<Rightarrow> Some (''MacAddr8'', b)
      | D_Point x y \<Rightarrow> Some (''Point'', u64_bytes x @ u64_bytes y)
      | D_Line a b c \<Rightarrow> Some (''Line'', u64_bytes a @ u64_bytes b @ u64_bytes c)
      | D_Lseg x1 y1 x2 y2 \<Rightarrow> Some (''Lseg/Box'', u64_bytes x1 @ u64_bytes y1 @ u64_bytes x2 @ u64_bytes y2)
      | D_Box x1 y1 x2 y2 \<Rightarrow> Some (''Lseg/Box'', u64_bytes x1 @ u64_bytes y1 @ u64_bytes x2 @ u64_bytes y2)
      | D_Circle x y r \<Rightarrow> Some (''Circle'', u64_bytes x @ u64_bytes y @ u64_bytes r)
      | _ \<Rightarrow> None)"

definition fixed_payload :: "debug_fmt \<Rightarrow> usize \<Rightarrow> pg_type_id \<Rightarrow> pg_datum \<Rightarrow> bytes pg_result" where
  "fixed_payload dbg col_idx t d =
     (case fixed_value d of
        Some (variant, b) \<Rightarrow>
          if variant = fixed_variant t then Ok b else mismatch dbg col_idx (fixed_variant t) d
      | None \<Rightarrow> mismatch dbg col_idx (fixed_variant t) d)"

definition fixed_width :: "pg_type_id \<Rightarrow> i32" where
  "fixed_width t =
     (case t of T_Uuid \<Rightarrow> 16 | T_Macaddr \<Rightarrow> 6 | T_Macaddr8 \<Rightarrow> 8 | T_Point \<Rightarrow> 16 | T_Line \<Rightarrow> 24 | T_Circle \<Rightarrow> 24 | _ \<Rightarrow> 32)"

definition fixed_cell ::
    "debug_fmt \<Rightarrow> (i32 \<Rightarrow> bytes \<Rightarrow> string option) \<Rightarrow> usize \<Rightarrow> pg_type_id \<Rightarrow> pg_datum \<Rightarrow> arrow_cell pg_result" where
  "fixed_cell dbg ae col_idx t d =
     obind (fixed_payload dbg col_idx t d) (\<lambda>bytes.
     case ae (fixed_width t) bytes of
       Some e \<Rightarrow> Err (ArrowConversionFailed (''column '' @ show_nat col_idx @ '': '' @ e))
     | None \<Rightarrow> Ok (Some (AV_Bin bytes)))"

abbreviation "scalar_types \<equiv> {T_Bool, T_Int2, T_Int4, T_Int8, T_Float4, T_Float8, T_Char, T_Oid, T_Xid, T_Cid, T_Xid8,
  T_Date, T_Money, T_Time, T_Timetz, T_Timestamp, T_Timestamptz}"

abbreviation "string_types \<equiv> {T_Text, T_Varchar, T_Bpchar, T_Json, T_Xml}"

abbreviation "binary_types \<equiv> {T_Bytea, T_Jsonb, T_Jsonpath, T_Inet, T_Cidr, T_Bit, T_Varbit, T_Path, T_Polygon, T_Aclitem}"

abbreviation "fixed_types \<equiv> {T_Uuid, T_Macaddr, T_Macaddr8, T_Point, T_Line, T_Lseg, T_Box, T_Circle}"

text \<open>The match on the type, and what the loop over the rows appends for one row; \<open>builder_of\<close> is the builder of an arm.\<close>

definition datum_cell_of ::
    "debug_fmt \<Rightarrow> (i32 \<Rightarrow> bytes \<Rightarrow> string option) \<Rightarrow> pg_type_id \<Rightarrow> i32 \<Rightarrow> usize \<Rightarrow> pg_datum \<Rightarrow> arrow_cell pg_result" where
  "datum_cell_of dbg ae t tm col_idx d =
     (if t \<in> scalar_types then scalar_cell dbg col_idx t d
      else if t = T_Interval then interval_cell dbg col_idx d
      else if t \<in> string_types then string_cell dbg col_idx d
      else if t = T_Numeric then numeric_cell dbg col_idx tm d
      else if t = T_Name then name_cell dbg col_idx d
      else if t \<in> binary_types then binary_cell dbg col_idx d
      else if t = T_Tid then tid_cell dbg col_idx d
      else if t \<in> fixed_types then fixed_cell dbg ae col_idx t d
      else array_cell dbg col_idx t d)"

definition row_cell ::
    "debug_fmt \<Rightarrow> (i32 \<Rightarrow> bytes \<Rightarrow> string option) \<Rightarrow> pg_type_id \<Rightarrow> i32 \<Rightarrow> usize \<Rightarrow> pg_row \<Rightarrow> arrow_cell pg_result" where
  "row_cell dbg ae t tm col_idx row =
     (case row_get row col_idx of
        None \<Rightarrow> Ok None
      | Some D_Null \<Rightarrow> Ok None
      | Some d \<Rightarrow> datum_cell_of dbg ae t tm col_idx d)"

definition builder_of :: "pg_type_id \<Rightarrow> i32 \<Rightarrow> builder_kind" where
  "builder_of t tm =
     (case t of
        T_Bool \<Rightarrow> B_Bool | T_Int2 \<Rightarrow> B_Int2 | T_Int4 \<Rightarrow> B_Int4 | T_Int8 \<Rightarrow> B_Int8 | T_Float4 \<Rightarrow> B_Float4
      | T_Float8 \<Rightarrow> B_Float8 | T_Char \<Rightarrow> B_Char | T_Oid \<Rightarrow> B_Oid | T_Xid \<Rightarrow> B_Xid | T_Cid \<Rightarrow> B_Cid
      | T_Xid8 \<Rightarrow> B_Xid8 | T_Date \<Rightarrow> B_Date | T_Money \<Rightarrow> B_Money | T_Time \<Rightarrow> B_Time | T_Timetz \<Rightarrow> B_Timetz
      | T_Timestamp \<Rightarrow> B_Timestamp | T_Timestamptz \<Rightarrow> B_TimestampTz | T_Interval \<Rightarrow> B_Interval
      | T_Name \<Rightarrow> B_Name | T_Tid \<Rightarrow> B_Tid
      | T_Numeric \<Rightarrow>
          (case numeric_typmod_to_arrow_type tm of
             DT_Decimal128 p s \<Rightarrow> B_Decimal128 p s
           | DT_Decimal256 p s \<Rightarrow> B_Decimal256 p s
           | _ \<Rightarrow> B_Decimal256 38 0)
      | _ \<Rightarrow>
          if t \<in> string_types then B_Utf8
          else if t \<in> fixed_types then B_FixedBinary (fixed_width t)
          else B_Binary)"

definition build_arrow_array ::
    "debug_fmt \<Rightarrow> ('arr, 'batch) arrow_lib \<Rightarrow> pg_type_id \<Rightarrow> i32 \<Rightarrow> pg_row list \<Rightarrow> usize \<Rightarrow> 'arr pg_result" where
  "build_arrow_array dbg lib t tm rows col_idx =
     obind (omap (row_cell dbg (fixed_append_error lib) t tm col_idx) rows) (\<lambda>cs.
       Ok (finish_array lib (builder_of t tm) cs))"

section \<open>A record batch of rows\<close>

definition rows_to_record_batch ::
    "debug_fmt \<Rightarrow> ('arr, 'batch) arrow_lib \<Rightarrow> pg_row list \<Rightarrow> pg_schema \<Rightarrow> 'batch pg_result" where
  "rows_to_record_batch dbg lib rows s =
     obind (omap (\<lambda>col_idx.
              obind (ok_or (column s col_idx) (ColumnNotFound (''index '' @ show_nat col_idx))) (\<lambda>col.
                build_arrow_array dbg lib (type_id col) (typmod col) rows col_idx)) [0..<num_columns s]) (\<lambda>arrays.
       map_err ArrowConversionFailed (try_new lib (to_arrow_schema s) arrays))"

section \<open>Lemmas\<close>

lemmas arm_defs = scalar_cell_def scalar_value_def scalar_variant_def string_cell_def string_value_def
  binary_cell_def binary_value_def array_cell_def interval_cell_def name_cell_def tid_cell_def
  fixed_cell_def fixed_payload_def fixed_value_def fixed_variant_def fixed_width_def

lemma builder_of_eq: "builder_of t tm = builder_kind_for t tm"
proof (cases "t = T_Numeric")
  case True
  then show ?thesis using typmod_decimal [of tm] by (auto simp: builder_of_def builder_kind_for_def)
next
  case False
  then show ?thesis by (cases t) (simp_all add: builder_of_def builder_kind_for_def fixed_width_def)
qed

lemma datum_cell_decoded:
  assumes d: "decode_payload t p = Ok d" and fits: "payload_fits (type_len t) p" and ae: "accepts_exact ae"
    and t: "t \<notin> {T_Name, T_Date, T_Timestamp, T_Timestamptz}"
  shows "datum_cell_of dbg ae t tm i d = cell_of_datum (builder_kind_for t tm) d"
proof (cases "t = T_Numeric")
  case True
  then show ?thesis
    using d typmod_decimal [of tm]
    by (auto simp: payload_simps builder_kind_for_def datum_cell_of_def numeric_cell_def)
next
  case False
  have acc: "sint w = int (length bs) \<Longrightarrow> ae w bs = None" for w bs
    using ae by (simp add: accepts_exact_def)
  show ?thesis
    using d fits False t
    by (cases t) (auto simp: payload_simps datum_cell_of_def arm_defs acc outcome_simps split: if_splits)
qed

lemma datum_cell_unshifted:
  assumes "decode_payload t p = Ok d"
  shows "t = T_Name \<Longrightarrow> datum_cell_of dbg ae t tm i d = mismatch dbg i ''Name'' d"
    and "t = T_Date \<Longrightarrow> \<exists>v. d = D_Date v \<and> datum_cell_of dbg ae t tm i d = Ok (Some (AV_Int32 v))"
    and "t = T_Timestamp \<Longrightarrow> \<exists>v. d = D_Timestamp v \<and> datum_cell_of dbg ae t tm i d = Ok (Some (AV_Int64 v))"
    and "t = T_Timestamptz \<Longrightarrow> \<exists>v. d = D_TimestampTz v \<and> datum_cell_of dbg ae t tm i d = Ok (Some (AV_Int64 v))"
  using assms by (auto simp: payload_simps datum_cell_of_def arm_defs name_cell_def outcome_simps Let_def split: if_splits)


lemma row_cell_decoded:
  assumes "decode_row t s = Ok r" and i: "i < num_columns s" and ae: "accepts_exact ae"
    and "type_id (columns s ! i) \<notin> {T_Name, T_Date, T_Timestamp, T_Timestamptz}"
  shows "row_cell dbg ae (type_id (columns s ! i)) (typmod (columns s ! i)) i r =
    cell_of_datum (column_kind s i) (row_columns r ! i)"
proof -
  have "length (row_columns r) = num_columns s"
    using assms(1) walk_length by (fastforce simp: decode_row_walk outcome_simps walk_cols_def)
  then have g: "row_get r i = Some (row_columns r ! i)" using i by (simp add: row_get_def get_def)
  show ?thesis
  proof (cases "row_columns r ! i = D_Null")
    case True
    then show ?thesis using g by (simp add: row_cell_def)
  next
    case False
    then obtain p where p: "decode_payload (type_id (columns s ! i)) p = Ok (row_columns r ! i)"
      "payload_fits (type_len (type_id (columns s ! i))) p"
      using decode_row_columns [OF assms(1) i] by blast
    have "row_cell dbg ae (type_id (columns s ! i)) (typmod (columns s ! i)) i r =
        datum_cell_of dbg ae (type_id (columns s ! i)) (typmod (columns s ! i)) i (row_columns r ! i)"
      using g False by (simp add: row_cell_def split: pg_datum.split)
    then show ?thesis using datum_cell_decoded [OF p ae assms(4)] by (simp add: column_kind_def)
  qed
qed


lemma rows_to_record_batch_cells:
  assumes "\<And>i r. i < num_columns s \<Longrightarrow> r \<in> set rows \<Longrightarrow>
    row_cell dbg (fixed_append_error lib) (type_id (columns s ! i)) (typmod (columns s ! i)) i r = Ok (cell i r)"
  shows "rows_to_record_batch dbg lib rows s =
    map_err ArrowConversionFailed (try_new lib (to_arrow_schema s)
      (map (\<lambda>i. finish_array lib (column_kind s i) (map (cell i) rows)) [0..<num_columns s]))"
proof -
  let ?build = "\<lambda>i. obind (ok_or (column s i) (ColumnNotFound (''index '' @ show_nat i))) (\<lambda>col.
      build_arrow_array dbg lib (type_id col) (typmod col) rows i)"
  have "?build i = Ok (finish_array lib (column_kind s i) (map (cell i) rows))" if "i < num_columns s" for i
  proof -
    have "column s i = Some (columns s ! i)" using that by (simp add: column_def num_columns_def get_def)
    moreover have "omap (row_cell dbg (fixed_append_error lib) (type_id (columns s ! i)) (typmod (columns s ! i)) i) rows =
        Ok (map (cell i) rows)"
      using assms [OF that] by (intro omap_all_Ok) simp
    ultimately show ?thesis by (simp add: build_arrow_array_def builder_of_eq column_kind_def)
  qed
  then have "omap ?build [0..<num_columns s] =
      Ok (map (\<lambda>i. finish_array lib (column_kind s i) (map (cell i) rows)) [0..<num_columns s])"
    by (intro omap_all_Ok) simp
  then show ?thesis by (simp add: rows_to_record_batch_def)
qed

definition sample_debug :: debug_fmt where
  "sample_debug = \<lparr>debug_datum = (\<lambda>d. ''datum''), debug_type = (\<lambda>t. ''type'')\<rparr>"

text \<open>The shift of the epoch overflows just near the maximum.\<close>

lemma shifted_date_eq:
  "shifted_date v = (if sint v \<le> 2147483647 - 10957 then Ok (Some (AV_Int32 (v + 10957))) else Panic)"
  using sint_greater_eq [of v] by (simp add: shifted_date_def checked_word_def DAYS_EPOCH_SHIFT_def)

lemma shifted_timestamp_eq:
  "shifted_timestamp u =
    (if sint u \<le> 9223372036854775807 - 946684800000000 then Ok (Some (AV_Int64 (u + 946684800000000))) else Panic)"
  using sint_greater_eq [of u] by (simp add: shifted_timestamp_def checked_word_def USECS_EPOCH_SHIFT_def)

section \<open>Properties\<close>

text \<open>
  C22: Decoding the visible tuples of a page to rows and converting the rows gives the record batch of the
  page, for a schema without columns of type \<open>name\<close>, \<open>date\<close> and \<open>timestamp\<close>, when the values convert.
\<close>

theorem rows_batch_is_page_batch:
  assumes "page_parse_bytes buf = Ok page" and "columns s \<noteq> []" and "accepts_exact (fixed_append_error lib)"
    and "\<forall>c \<in> set (columns s). type_id c \<notin> {T_Name, T_Date, T_Timestamp, T_Timestamptz}"
    and "omap (\<lambda>t. decode_row t s) (live_tuples snapshot page) = Ok rows"
    and "\<forall>r \<in> set rows. \<forall>i < num_columns s. \<exists>c. cell_of_datum (column_kind s i) (row_columns r ! i) = Ok c"
  shows "rows_to_record_batch dbg lib rows s = to_record_batch lib page s None snapshot"
proof -
  let ?live = "live_tuples snapshot page" and ?n = "num_columns s"
  define cell where "cell i r = (case cell_of_datum (column_kind s i) (row_columns r ! i) of Ok c \<Rightarrow> c | _ \<Rightarrow> None)"
    for i and r :: pg_row
  define row where "row t = (case decode_row t s of Ok r \<Rightarrow> r | _ \<Rightarrow> \<lparr>row_columns = []\<rparr>)" for t
  have dec: "decode_row t s = Ok (row t)" if "t \<in> set ?live" for t
    using that omap_nth [OF assms(5)] by (auto simp: in_set_conv_nth row_def)
  then have rows: "rows = map row ?live"
    using assms(5) omap_all_Ok [of ?live "\<lambda>t. decode_row t s" row] by simp
  have cells: "cell_of_datum (column_kind s i) (row_columns r ! i) = Ok (cell i r)" if "r \<in> set rows" "i < ?n" for i r
    using assms(6) that by (force simp: cell_def)
  have "rows_to_record_batch dbg lib rows s =
      map_err ArrowConversionFailed (try_new lib (to_arrow_schema s)
        (map (\<lambda>i. finish_array lib (column_kind s i) (map (cell i) rows)) [0..<?n]))"
  proof (rule rows_to_record_batch_cells)
    fix i r assume i: "i < ?n" and r: "r \<in> set rows"
    then obtain t where "decode_row t s = Ok r" using dec by (auto simp: rows)
    moreover have "type_id (columns s ! i) \<notin> {T_Name, T_Date, T_Timestamp, T_Timestamptz}"
      using assms(4) i by (simp add: num_columns_def)
    ultimately show "row_cell dbg (fixed_append_error lib) (type_id (columns s ! i)) (typmod (columns s ! i)) i r = Ok (cell i r)"
      using row_cell_decoded [OF _ i assms(3)] cells [OF r i] by simp
  qed
  moreover have "\<forall>t \<in> set ?live. row_cells s [0..<?n] t (\<lambda>i. cell i (row t))"
    using dec cells by (auto simp: row_cells_def rows)
  from to_record_batch_live [where cell = "\<lambda>t i. cell i (row t)", OF _ _ assms(3) parsed_page_pointers(1) [OF assms(1)] _ this]
  have "to_record_batch lib page s (Some [0..<?n]) snapshot =
      map_err ArrowConversionFailed (try_new lib (map (\<lambda>i. to_arrow_field (columns s ! i)) [0..<?n])
        (map (\<lambda>k. finish_array lib (column_kind s ([0..<?n] ! k))
           (projected_cells [0..<?n] (\<lambda>t i. cell i (row t)) ?live k)) [0..<length [0..<?n]]))"
    using assms(2) parsed_page_pointers(2) [OF assms(1)] by (simp add: num_columns_def)
  moreover have "map (\<lambda>i. to_arrow_field (columns s ! i)) [0..<?n] = to_arrow_schema s"
    by (rule nth_equalityI) (simp_all add: to_arrow_schema_def num_columns_def)
  moreover have "projected_cells [0..<?n] (\<lambda>t i. cell i (row t)) ?live k = map (cell k) rows" if "k < ?n" for k
    using that by (simp add: projected_cells_def rows drop_upt)
  then have "map (\<lambda>k. finish_array lib (column_kind s ([0..<?n] ! k))
      (projected_cells [0..<?n] (\<lambda>t i. cell i (row t)) ?live k)) [0..<length [0..<?n]] =
      map (\<lambda>i. finish_array lib (column_kind s i) (map (cell i) rows)) [0..<?n]"
    by simp
  ultimately show ?thesis
    using to_record_batch_all_columns [OF assms(2), of lib page snapshot] by (simp only:)
qed

theorem rows_batch_is_page_batch_witness:
  "rows_to_record_batch sample_debug log_lib [\<lparr>row_columns = [D_Int2 5, D_Null, D_Int4 7]\<rparr>] sample_schema =
    to_record_batch log_lib sample_page sample_schema None None"
proof -
  have "omap (\<lambda>t. decode_row t sample_schema) (live_tuples None sample_page) =
      Ok [\<lparr>row_columns = [D_Int2 5, D_Null, D_Int4 7]\<rparr>]"
    by (simp add: sample_live sample_decode)
  moreover have "\<forall>i < num_columns sample_schema. \<exists>c. cell_of_datum (column_kind sample_schema i) ([D_Int2 5, D_Null, D_Int4 7] ! i) = Ok c"
    by (auto simp: sample_schema_def pg_schema_new_def num_columns_def less_Suc_eq numeral_3_eq_3)
  ultimately show ?thesis
    by (intro rows_batch_is_page_batch [OF sample_page_parse _ log_lib_exact])
      (auto simp: sample_schema_def pg_schema_new_def pg_column_new_def)
qed

text \<open>
  C32: The two conversions of one stored column, for every type: the value that \<open>PgRow::to_record_batch\<close>
  appends for the datum that \<open>decode_datum\<close> finds, against the one that \<open>append_bytes\<close> appends for the bytes
  that \<open>extract_column_bytes\<close> finds at the same place.  They are the same, errors and panics included, but
  for four types.  A \<open>name\<close> decodes to a text datum, for which the row conversion has no arm: it reports an
  error where the page conversion appends the string.  A \<open>date\<close>, \<open>timestamp\<close> or \<open>timestamptz\<close> is appended
  as PostgreSQL counts it, from 2000, where the page conversion counts from 1970, and panics on the values
  near the maximum, infinity among them.
\<close>

theorem row_batch_departures:
  assumes "decode_datum t buf off = Ok (d, n)" and "accepts_exact ae"
  shows "\<exists>p. extract_column_bytes (type_len t) buf off = Ok (p, n) \<and>
    (t \<notin> {T_Name, T_Date, T_Timestamp, T_Timestamptz} \<longrightarrow>
       datum_cell_of dbg ae t tm i d = cell_of_bytes ae (builder_kind_for t tm) p) \<and>
    (t = T_Name \<longrightarrow> (\<exists>s. d = D_Text s \<and> datum_cell_of dbg ae t tm i d = mismatch dbg i ''Name'' d \<and>
       cell_of_bytes ae (builder_kind_for t tm) p = Ok (Some (AV_Str s)))) \<and>
    (t = T_Date \<longrightarrow> (\<exists>v. d = D_Date v \<and> datum_cell_of dbg ae t tm i d = Ok (Some (AV_Int32 v)) \<and>
       cell_of_bytes ae (builder_kind_for t tm) p =
         (if sint v \<le> 2147483647 - 10957 then Ok (Some (AV_Int32 (v + 10957))) else Panic))) \<and>
    (t = T_Timestamp \<or> t = T_Timestamptz \<longrightarrow>
      (\<exists>u. d = (if t = T_Timestamp then D_Timestamp u else D_TimestampTz u) \<and>
       datum_cell_of dbg ae t tm i d = Ok (Some (AV_Int64 u)) \<and>
       cell_of_bytes ae (builder_kind_for t tm) p =
         (if sint u \<le> 9223372036854775807 - 946684800000000
          then Ok (Some (AV_Int64 (u + 946684800000000))) else Panic)))"
proof -
  obtain p where p: "extract_column_bytes (type_len t) buf off = Ok (p, n)" "decode_payload t p = Ok d"
    using assms(1) by (auto simp: decode_datum_via_extract)
  note fits = extract_payload_fits [OF p(1)]
  have page: "cell_of_bytes ae (builder_kind_for t tm) p = cell_of_datum (builder_kind_for t tm) d"
    by (rule cell_agrees [OF p(2) fits assms(2)])
  have name: "\<exists>s. d = D_Text s" if "t = T_Name"
    using p(2) that by (auto simp: payload_simps outcome_simps Let_def split: if_splits)
  note row = datum_cell_unshifted [OF p(2), of dbg ae tm i]
  show ?thesis
  proof (intro exI [of _ p] conjI impI, unfold page)
    show "datum_cell_of dbg ae t tm i d = cell_of_datum (builder_kind_for t tm) d"
      if "t \<notin> {T_Name, T_Date, T_Timestamp, T_Timestamptz}"
      by (rule datum_cell_decoded [OF p(2) fits assms(2) that])
    assume "t = T_Timestamp \<or> t = T_Timestamptz"
    then obtain u where "d = (if t = T_Timestamp then D_Timestamp u else D_TimestampTz u)"
        "datum_cell_of dbg ae t tm i d = Ok (Some (AV_Int64 u))"
      using row(3,4) by auto
    then show "\<exists>u. d = (if t = T_Timestamp then D_Timestamp u else D_TimestampTz u) \<and>
       datum_cell_of dbg ae t tm i d = Ok (Some (AV_Int64 u)) \<and>
       cell_of_datum (builder_kind_for t tm) d =
         (if sint u \<le> 9223372036854775807 - 946684800000000
          then Ok (Some (AV_Int64 (u + 946684800000000))) else Panic)"
      by (intro exI [of _ u]) (simp add: shifted_timestamp_eq)
  qed (use p(1) name row in \<open>auto simp: shifted_date_eq\<close>)
qed

theorem row_batch_departures_witness:
  "extract_column_bytes (type_len T_Date) [1, 0, 0, 0] 0 = Ok ([1, 0, 0, 0], 4) \<and>
    datum_cell_of sample_debug (fixed_append_error log_lib) T_Date (-1) 0 (D_Date 1) = Ok (Some (AV_Int32 1)) \<and>
    cell_of_bytes (fixed_append_error log_lib) (builder_kind_for T_Date (-1)) [1, 0, 0, 0] = Ok (Some (AV_Int32 10958))"
proof -
  have "decode_datum T_Date [1, 0, 0, 0] 0 = Ok (D_Date 1, 4)"
    by (simp add: decode_datum_def decode_fixed_arms scalar_def get_range_def read_uint_defs read_simps check_len_def)
  moreover have "extract_column_bytes (type_len T_Date) [1, 0, 0, 0] 0 = Ok ([1, 0, 0, 0], 4)"
    by (simp add: extract_column_bytes_def get_range_def)
  ultimately show ?thesis
    using row_batch_departures [OF _ log_lib_exact, of T_Date "[1, 0, 0, 0]" 0 "D_Date 1" 4 sample_debug "-1" 0] by simp
qed

end
