(* ===== verification/Display.thy ===== *)
theory Display
  imports Rows
begin

text \<open>
  The text forms of tuples, rows and values: \<open>Display\<close> for \<open>InfoMask\<close>, \<open>HeapTupleHeaderData\<close> and
  \<open>HeapTupleData\<close> (\<open>src/heap/tuple.rs\<close>), for \<open>PgDatum\<close> (\<open>src/types/codec.rs\<close>) and for \<open>PgRow\<close>
  (\<open>src/table/mod.rs\<close>).  Strings are UTF-8, a character per byte.

  How the standard library prints a floating point number is the parameter \<open>float_fmt\<close>, on its bits.
\<close>

section \<open>Formatting\<close>

definition newline :: string where
  "newline = [CHR 0x0A]"

definition show_int :: "int \<Rightarrow> string" where
  "show_int i = (if i < 0 then ''-'' @ show_nat (nat (- i)) else show_nat (nat i))"

text \<open>\<open>{:3}\<close>\<close>

definition show_width :: "nat \<Rightarrow> nat \<Rightarrow> string" where
  "show_width w n = replicate (w - length (show_nat n)) (CHR '' '') @ show_nat n"

text \<open>\<open>{:08x}\<close> and \<open>{:04X}\<close>, of a number that fits.\<close>

definition hex_lower :: "nat \<Rightarrow> nat \<Rightarrow> string" where
  "hex_lower k n = map (\<lambda>i. hex_digit (n div 16 ^ i mod 16)) (rev [0..<k])"

definition hex_upper :: "nat \<Rightarrow> nat \<Rightarrow> string" where
  "hex_upper k n = map (\<lambda>i. hex_digit_upper (n div 16 ^ i mod 16)) (rev [0..<k])"

fun join :: "string \<Rightarrow> string list \<Rightarrow> string" where
  "join sep [] = []"
| "join sep [s] = s"
| "join sep (s # ss) = s @ sep @ join sep ss"

text \<open>A byte as a \<open>char\<close>, in UTF-8.\<close>

definition char_utf8 :: "u8 \<Rightarrow> string" where
  "char_utf8 b =
     (let n = unat b in if n < 128 then [char_of n] else [char_of (192 + n div 64), char_of (128 + n mod 64)])"

text \<open>\<open>from_be_bytes\<close>\<close>

definition be_val :: "bytes \<Rightarrow> nat" where
  "be_val bs = foldl (\<lambda>n b. n * 256 + unat b) 0 bs"

section \<open>Tuples\<close>

fun short_name :: "info_mask \<Rightarrow> string" where
  "short_name HasNull = ''HASNULL''"
| "short_name HasVarWidth = ''HASVARWIDTH''"
| "short_name HasExternal = ''HASEXTERNAL''"
| "short_name HasOidOld = ''HASOID_OLD''"
| "short_name XmaxKeyshrLock = ''XMAX_KEYSHR_LOCK''"
| "short_name ComboCid = ''COMBOCID''"
| "short_name XmaxExclLock = ''XMAX_EXCL_LOCK''"
| "short_name XmaxLockOnly = ''XMAX_LOCK_ONLY''"
| "short_name XminCommitted = ''XMIN_COMMITTED''"
| "short_name XminInvalid = ''XMIN_INVALID''"
| "short_name XmaxCommitted = ''XMAX_COMMITTED''"
| "short_name XmaxInvalid = ''XMAX_INVALID''"
| "short_name XmaxIsMulti = ''XMAX_IS_MULTI''"
| "short_name Updated = ''UPDATED''"
| "short_name MovedOff = ''MOVED_OFF''"
| "short_name MovedIn = ''MOVED_IN''"

text \<open>\<open>Display\<close> for \<open>InfoMask\<close> has the same table.\<close>

definition info_mask_to_string :: "info_mask \<Rightarrow> string" where
  "info_mask_to_string m = ''InfoMask::'' @ short_name m"

definition HEAP_KEYS_UPDATED :: u16 where "HEAP_KEYS_UPDATED = 0x2000"
definition HEAP_HOT_UPDATED :: u16 where "HEAP_HOT_UPDATED = 0x4000"
definition HEAP_ONLY_TUPLE :: u16 where "HEAP_ONLY_TUPLE = 0x8000"

definition ALL_FLAGS :: "info_mask list" where
  "ALL_FLAGS = [HasNull, HasVarWidth, HasExternal, HasOidOld, XmaxKeyshrLock, ComboCid, XmaxExclLock, XmaxLockOnly,
     XminCommitted, XminInvalid, XmaxCommitted, XmaxInvalid, XmaxIsMulti, Updated, MovedOff, MovedIn]"

definition mask2_flags :: "u16 \<Rightarrow> string list" where
  "mask2_flags m =
     (if m AND HEAP_KEYS_UPDATED \<noteq> 0 then [''KEYS_UPDATED''] else []) @
     (if m AND HEAP_HOT_UPDATED \<noteq> 0 then [''HOT_UPDATED''] else []) @
     (if m AND HEAP_ONLY_TUPLE \<noteq> 0 then [''ONLY_TUPLE''] else [])"

definition set_flags :: "heap_tuple_header_data \<Rightarrow> info_mask list" where
  "set_flags h = filter (\<lambda>flag. has_flag h (info_mask_u16 flag)) ALL_FLAGS"

text \<open>The lines of the two masks, and the line that is added for a frozen \<open>xmin\<close>.\<close>

definition infomask2_line :: "heap_tuple_header_data \<Rightarrow> string" where
  "infomask2_line h =
     (let natts = ''(natts='' @ show_nat (unat (t_infomask2 h AND HEAP_NATTS_MASK)) @ '')'';
          hex = ''  infomask2: 0x'' @ hex_upper 4 (unat (t_infomask2 h)) @ ''  '';
          flags = mask2_flags (t_infomask2 h)
      in (if flags = [] then hex @ natts else hex @ ''[ '' @ join '' | '' flags @ '' ]  '' @ natts) @ newline)"

definition infomask_line :: "heap_tuple_header_data \<Rightarrow> string" where
  "infomask_line h =
     (let hex = ''  infomask:  0x'' @ hex_upper 4 (unat (t_infomask h)) @ ''  ''; flags = map short_name (set_flags h)
      in (if flags = [] then hex @ ''(none)'' else hex @ ''[ '' @ join '' | '' flags @ '' ]'') @ newline)"

definition frozen_line :: "heap_tuple_header_data \<Rightarrow> string" where
  "frozen_line h = (if has_flag h XMIN_FROZEN then ''  [xmin is frozen]'' @ newline else [])"

definition tuple_header_to_string :: "heap_tuple_header_data \<Rightarrow> string" where
  "tuple_header_to_string h =
     ''HeapTupleHeader {'' @ newline @
     ''  xmin:      '' @ show_nat (unat (t_xmin h)) @ newline @
     ''  xmax:      '' @ show_nat (unat (t_xmax h)) @ newline @
     ''  field3:    '' @ show_nat (unat (t_field3 h)) @ ''  (cid/xvac)'' @ newline @
     ''  ctid:      ('' @ show_nat (unat (block_number (ip_blkid (t_ctid h)))) @ '', '' @
       show_nat (unat (ip_posid (t_ctid h))) @ '')'' @ newline @
     ''  natts:     '' @ show_nat (unat (t_infomask2 h AND HEAP_NATTS_MASK)) @ newline @
     ''  t_hoff:    '' @ show_nat (unat (t_hoff h)) @ newline @
     infomask2_line h @ infomask_line h @ frozen_line h @ ''}''"

definition null_line :: "bytes \<Rightarrow> usize \<Rightarrow> string" where
  "null_line bitmap i =
     (let not_null = (case get bitmap (i div 8) of Some b \<Rightarrow> b AND push_bit (i mod 8) 1 \<noteq> 0 | None \<Rightarrow> True)
      in ''    attr['' @ show_width 3 i @ '']: '' @ (if not_null then ''NOT NULL'' else ''NULL    '') @ newline)"

definition tuple_to_string :: "heap_tuple_data \<Rightarrow> string" where
  "tuple_to_string t =
     (let natts = unat (t_infomask2 (header t) AND HEAP_NATTS_MASK) in
      tuple_header_to_string (header t) @
      (if has_flag (header t) (info_mask_u16 HasNull)
       then newline @ ''  t_bits ('' @ show_nat natts @ '' attrs):'' @ newline @
            concat (map (null_line (null_bitmap t)) [0..<natts])
       else newline @ ''  t_bits: (no null bitmap '' @ em_dash @ '' all '' @ show_nat natts @ '' attrs NOT NULL)''))"

section \<open>Values and rows\<close>

record float_fmt =
  show_f32 :: "u32 \<Rightarrow> string"
  show_f64 :: "u64 \<Rightarrow> string"

definition hex_bytes :: "bytes \<Rightarrow> string" where
  "hex_bytes bs = [CHR 0x5C] @ ''x'' @ concat (map hex_byte bs)"

text \<open>The name arm unwraps twice.\<close>

definition name_to_string :: "bytes \<Rightarrow> string pg_result" where
  "name_to_string bytes = obind (unwrap_opt (cstr_until_nul bytes)) (\<lambda>column. unwrap (from_utf8 column))"

definition uuid_to_string :: "bytes \<Rightarrow> string" where
  "uuid_to_string b =
     hex_lower 8 (be_val (take 4 b)) @ ''-'' @ hex_lower 4 (be_val (take 2 (drop 4 b))) @ ''-'' @
     hex_lower 4 (be_val (take 2 (drop 6 b))) @ ''-'' @ hex_lower 4 (be_val (take 2 (drop 8 b))) @ ''-'' @
     hex_lower 12 (be_val (take 6 (drop 10 b)))"

definition point_to_string :: "float_fmt \<Rightarrow> u64 \<Rightarrow> u64 \<Rightarrow> string" where
  "point_to_string ff x y = ''('' @ show_f64 ff x @ '','' @ show_f64 ff y @ '')''"

fun datum_to_string :: "float_fmt \<Rightarrow> pg_datum \<Rightarrow> string pg_result" where
  "datum_to_string ff (D_Bool v) = Ok (if v then ''true'' else ''false'')"
| "datum_to_string ff (D_Int2 v) = Ok (show_int (sint v))"
| "datum_to_string ff (D_Int4 v) = Ok (show_int (sint v))"
| "datum_to_string ff (D_Int8 v) = Ok (show_int (sint v))"
| "datum_to_string ff (D_Float4 v) = Ok (show_f32 ff v)"
| "datum_to_string ff (D_Float8 v) = Ok (show_f64 ff v)"
| "datum_to_string ff (D_Oid v) = Ok (show_nat (unat v))"
| "datum_to_string ff (D_Date v) = Ok (show_int (sint v))"
| "datum_to_string ff (D_Time v) = Ok (show_int (sint v))"
| "datum_to_string ff (D_Timestamp v) = Ok (show_int (sint v))"
| "datum_to_string ff (D_TimestampTz v) = Ok (show_int (sint v))"
| "datum_to_string ff (D_Money v) = Ok (show_int (sint v))"
| "datum_to_string ff (D_Xid v) = Ok (show_nat (unat v))"
| "datum_to_string ff (D_Cid v) = Ok (show_nat (unat v))"
| "datum_to_string ff (D_Xid8 v) = Ok (show_nat (unat v))"
| "datum_to_string ff (D_Char v) = Ok (char_utf8 v)"
| "datum_to_string ff (D_Name b) = name_to_string b"
| "datum_to_string ff (D_Tid block offset) =
     Ok (''('' @ show_nat (unat block) @ '','' @ show_nat (unat offset) @ '')'')"
| "datum_to_string ff (D_MacAddr b) = Ok (join '':'' (map hex_byte (take 6 b)))"
| "datum_to_string ff (D_MacAddr8 b) = Ok (join '':'' (map hex_byte (take 8 b)))"
| "datum_to_string ff (D_Uuid b) = Ok (uuid_to_string b)"
| "datum_to_string ff (D_Interval us days months) =
     Ok (show_int (sint months) @ '' mons '' @ show_int (sint days) @ '' days '' @ show_int (sint us) @ '' usecs'')"
| "datum_to_string ff (D_TimeTz us tz) = Ok (show_int (sint us) @ '' usecs tz='' @ show_int (sint tz))"
| "datum_to_string ff (D_Point x y) = Ok (point_to_string ff x y)"
| "datum_to_string ff (D_Line a b c) =
     Ok (''{'' @ show_f64 ff a @ '','' @ show_f64 ff b @ '','' @ show_f64 ff c @ ''}'')"
| "datum_to_string ff (D_Lseg x1 y1 x2 y2) =
     Ok (''['' @ point_to_string ff x1 y1 @ '','' @ point_to_string ff x2 y2 @ '']'')"
| "datum_to_string ff (D_Box x1 y1 x2 y2) = Ok (point_to_string ff x1 y1 @ '','' @ point_to_string ff x2 y2)"
| "datum_to_string ff (D_Circle x y r) = Ok (''<'' @ point_to_string ff x y @ '','' @ show_f64 ff r @ ''>'')"
| "datum_to_string ff (D_Text s) = Ok s"
| "datum_to_string ff (D_Varchar s) = Ok s"
| "datum_to_string ff (D_BpChar s) = Ok s"
| "datum_to_string ff (D_Json s) = Ok s"
| "datum_to_string ff (D_Xml s) = Ok s"
| "datum_to_string ff (D_Bytea b) = Ok (hex_bytes b)"
| "datum_to_string ff (D_Jsonb b) = Ok (hex_bytes b)"
| "datum_to_string ff (D_JsonPath b) = Ok (hex_bytes b)"
| "datum_to_string ff (D_Numeric b) = Ok (hex_bytes b)"
| "datum_to_string ff (D_Inet b) = Ok (hex_bytes b)"
| "datum_to_string ff (D_Cidr b) = Ok (hex_bytes b)"
| "datum_to_string ff (D_Bit b) = Ok (hex_bytes b)"
| "datum_to_string ff (D_VarBit b) = Ok (hex_bytes b)"
| "datum_to_string ff (D_Path b) = Ok (hex_bytes b)"
| "datum_to_string ff (D_Polygon b) = Ok (hex_bytes b)"
| "datum_to_string ff (D_RawBytes oid b) = Ok (''(oid='' @ show_nat (unat oid) @ '')'' @ hex_bytes b)"
| "datum_to_string ff D_Null = Ok ''NULL''"

definition row_to_string :: "float_fmt \<Rightarrow> pg_row \<Rightarrow> string pg_result" where
  "row_to_string ff r =
     obind (omap (datum_to_string ff) (row_columns r)) (\<lambda>cols. Ok (''('' @ join '', '' cols @ '')''))"

section \<open>Lemmas\<close>

definition flag_bit :: "info_mask \<Rightarrow> nat" where
  "flag_bit m = (case m of HasNull \<Rightarrow> 0 | HasVarWidth \<Rightarrow> 1 | HasExternal \<Rightarrow> 2 | HasOidOld \<Rightarrow> 3
    | XmaxKeyshrLock \<Rightarrow> 4 | ComboCid \<Rightarrow> 5 | XmaxExclLock \<Rightarrow> 6 | XmaxLockOnly \<Rightarrow> 7 | XminCommitted \<Rightarrow> 8
    | XminInvalid \<Rightarrow> 9 | XmaxCommitted \<Rightarrow> 10 | XmaxInvalid \<Rightarrow> 11 | XmaxIsMulti \<Rightarrow> 12 | Updated \<Rightarrow> 13
    | MovedOff \<Rightarrow> 14 | MovedIn \<Rightarrow> 15)"

lemma info_mask_push_bit: "info_mask_u16 m = push_bit (flag_bit m) 1"
  by (cases m) (simp_all add: flag_bit_def)

lemma has_flag_bit: "has_flag h (info_mask_u16 m) \<longleftrightarrow> bit (t_infomask h) (flag_bit m)"
  by (simp add: has_flag_def info_mask_push_bit and_exp_eq_0_iff_not_bit)

lemma flag_bits: "map flag_bit ALL_FLAGS = [0..<16]"
  by (simp add: ALL_FLAGS_def flag_bit_def upt_rec)

lemma bit_or_flags:
  "bit (foldr (\<lambda>m w. info_mask_u16 m OR w) ms 0) n \<longleftrightarrow> n < 16 \<and> (\<exists>m \<in> set ms. flag_bit m = n)"
  by (induction ms) (auto simp: bit_or_iff info_mask_push_bit bit_exp_iff possible_bit_def)

lemma or_set_flags: "foldr (\<lambda>m w. info_mask_u16 m OR w) (set_flags h) 0 = t_infomask h"
proof (rule bit_word_eqI)
  fix n assume "n < LENGTH(16)"
  then have n: "n < 16" by simp
  then have "n \<in> flag_bit ` set ALL_FLAGS" by (metis flag_bits atLeastLessThan_iff list.set_map set_upt zero_le)
  then have "(\<exists>m \<in> set (set_flags h). flag_bit m = n) \<longleftrightarrow> bit (t_infomask h) n"
    by (auto simp: set_flags_def has_flag_bit)
  then show "bit (foldr (\<lambda>m w. info_mask_u16 m OR w) (set_flags h) 0) n = bit (t_infomask h) n"
    by (simp only: bit_or_flags n simp_thms)
qed

lemma short_names_distinct: "distinct (map short_name ALL_FLAGS)"
  by (simp add: ALL_FLAGS_def)

lemma be_val_snoc: "be_val (bs @ [b]) = be_val bs * 256 + unat b"
  by (simp add: be_val_def)

lemma hex_lower_step:
  assumes "b < 256"
  shows "hex_lower (k + 2) (n * 256 + b) = hex_lower k n @ [hex_digit (b div 16), hex_digit (b mod 16)]"
proof -
  have u: "rev [0..<k + 2] = map (\<lambda>i. i + 2) (rev [0..<k]) @ [1, 0]"
  proof -
    have "[0..<k + 2] = [0, 1] @ map (\<lambda>i. i + 2) [0..<k]"
      using map_add_upt [of 2 k] by (simp add: upt_conv_Cons add.commute numeral_2_eq_2 del: upt_Suc)
    then show ?thesis by (simp only: rev_append rev_map) simp
  qed
  have "(n * 256 + b) div 16 ^ (i + 2) = n div 16 ^ i" for i
  proof -
    have "(n * 256 + b) div 16 ^ (i + 2) = ((n * 256 + b) div 256) div 16 ^ i"
      by (simp add: div_mult2_eq power_add)
    then show ?thesis using assms by simp
  qed
  moreover have "(n * 256 + b) div 16 mod 16 = b div 16"
  proof -
    have "(n * 256 + b) div 16 = n * 16 + b div 16"
      using div_mult_self1 [of 16 b "n * 16"] by (simp add: add.commute)
    then show ?thesis using assms by simp
  qed
  moreover have "(n * 256 + b) mod 16 = b mod 16"
    using mod_mult_self1 [of b "n * 16" 16] by (simp add: ac_simps)
  ultimately show ?thesis
    unfolding hex_lower_def u by (simp add: comp_def)
qed

lemma hex_lower_be: "hex_lower (2 * length bs) (be_val bs) = concat (map hex_byte bs)"
proof (induction bs rule: rev_induct)
  case (snoc b bs)
  have "unat b < 256" using unsigned_less [of b] by simp
  from hex_lower_step [OF this, of "2 * length bs" "be_val bs"] snoc show ?case
    by (simp add: be_val_snoc hex_byte_def)
qed (simp add: hex_lower_def)

lemma uuid_hex:
  assumes "length b = 16"
  shows "uuid_to_string b =
    concat (map hex_byte (take 4 b)) @ ''-'' @ concat (map hex_byte (take 2 (drop 4 b))) @ ''-'' @
    concat (map hex_byte (take 2 (drop 6 b))) @ ''-'' @ concat (map hex_byte (take 2 (drop 8 b))) @ ''-'' @
    concat (map hex_byte (drop 10 b))"
  using hex_lower_be [of "take 4 b"] hex_lower_be [of "take 2 (drop 4 b)"] hex_lower_be [of "take 2 (drop 6 b)"]
    hex_lower_be [of "take 2 (drop 8 b)"] hex_lower_be [of "take 6 (drop 10 b)"] assms
  by (simp add: uuid_to_string_def)


lemma decoded_datum_shape:
  assumes "decode_row t s = Ok r" and d: "d \<in> set (row_columns r)"
  shows "d \<noteq> D_Name bs" and "d = D_Uuid b \<Longrightarrow> length b = 16"
proof -
  have "length (row_columns r) = num_columns s"
    using assms(1) walk_length by (fastforce simp: decode_row_walk outcome_simps walk_cols_def)
  then obtain i where "i < num_columns s" "d = row_columns r ! i" using d by (auto simp: in_set_conv_nth)
  then consider "d = D_Null" | ty p where "decode_payload ty p = Ok d" "payload_fits (type_len ty) p"
    using decode_row_columns [OF assms(1)] by blast
  then have "d \<noteq> D_Name bs \<and> (d = D_Uuid b \<longrightarrow> length b = 16)"
  proof cases
    case 2
    then show ?thesis
      by (cases ty) (auto simp: payload_simps outcome_simps Let_def split: if_splits)
  qed simp
  then show "d \<noteq> D_Name bs" and "d = D_Uuid b \<Longrightarrow> length b = 16" by simp_all
qed

lemma decoded_row_prints:
  assumes "decode_row t s = Ok r"
  shows "\<exists>str. row_to_string ff r = Ok str"
proof -
  have "\<exists>str. datum_to_string ff d = Ok str" if "d \<in> set (row_columns r)" for d
    using decoded_datum_shape [OF assms that] by (cases d) auto
  then obtain g where "\<And>d. d \<in> set (row_columns r) \<Longrightarrow> datum_to_string ff d = Ok (g d)" by metis
  then have "omap (datum_to_string ff) (row_columns r) = Ok (map g (row_columns r))" by (rule omap_all_Ok)
  then show ?thesis by (simp add: row_to_string_def)
qed

section \<open>Properties\<close>

text \<open>
  The text of a tuple header shows its flags completely: the names printed for \<open>t_infomask\<close> are
  distinct and their bits make up the whole mask.  The line "xmin is frozen" appears as soon as one of
  the two bits \<open>XMIN_COMMITTED\<close> and \<open>XMIN_INVALID\<close> is set, although only both together mean frozen.
\<close>

theorem header_flags_shown:
  "foldr (\<lambda>m w. info_mask_u16 m OR w) (set_flags h) 0 = t_infomask h \<and>
   distinct (map short_name (set_flags h)) \<and>
   (frozen_line h \<noteq> [] \<longleftrightarrow>
      has_flag h (info_mask_u16 XminCommitted) \<or> has_flag h (info_mask_u16 XminInvalid))"
proof -
  have "distinct (map short_name (set_flags h))"
    unfolding set_flags_def by (rule distinct_map_filter [OF short_names_distinct])
  moreover have "w AND (a OR b) \<noteq> 0 \<longleftrightarrow> w AND a \<noteq> 0 \<or> w AND b \<noteq> 0" for w a b :: u16
    by (simp add: bit.conj_disj_distrib or_eq_0_iff)
  then have "has_flag h XMIN_FROZEN \<longleftrightarrow>
      has_flag h (info_mask_u16 XminCommitted) \<or> has_flag h (info_mask_u16 XminInvalid)"
    by (simp only: has_flag_def XMIN_FROZEN_def)
  ultimately show ?thesis using or_set_flags by (simp add: frozen_line_def)
qed

text \<open>
  C35: A row that \<open>decode_row\<close> returned can be printed: although the \<open>name\<close> arm of \<open>Display\<close> unwraps,
  decoding never makes such a value, so printing does not panic; and a UUID is printed as its bytes in
  order, two hex digits each, with the dashes of the canonical form.
\<close>

theorem decoded_rows_print:
  assumes "decode_row t s = Ok r"
  shows "(\<exists>str. row_to_string ff r = Ok str) \<and>
    (\<forall>b. D_Uuid b \<in> set (row_columns r) \<longrightarrow> datum_to_string ff (D_Uuid b) =
       Ok (concat (map hex_byte (take 4 b)) @ ''-'' @ concat (map hex_byte (take 2 (drop 4 b))) @ ''-'' @
           concat (map hex_byte (take 2 (drop 6 b))) @ ''-'' @ concat (map hex_byte (take 2 (drop 8 b))) @ ''-'' @
           concat (map hex_byte (drop 10 b))))"
proof (intro conjI allI impI)
  show "\<exists>str. row_to_string ff r = Ok str" by (rule decoded_row_prints [OF assms])
qed (simp add: uuid_hex decoded_datum_shape(2) [OF assms _ refl])

theorem decoded_rows_print_witness:
  "\<exists>str. row_to_string \<lparr>show_f32 = (\<lambda>w. ''1''), show_f64 = (\<lambda>w. ''1'')\<rparr>
     \<lparr>row_columns = [D_Int2 5, D_Null, D_Int4 7]\<rparr> = Ok str"
  using decoded_rows_print [OF sample_decode] by blast

end
