(* ===== verification/Visibility.thy ===== *)
theory Visibility
  imports Scans
begin

text \<open>
  The visibility test of \<open>HeapPageData::to_record_batch\<close> against the rules the repository sets
  itself: \<open>docs/design/DESIGN.md\<close>, "MVCC Visibility: The Real Complexity", which follows
  \<open>HeapTupleSatisfiesMVCC\<close> of PostgreSQL for a reader that has no transaction of its own.

  The commit log and the multixact files are not read by the program; they are the parameter
  \<open>xact_files\<close> of the reference.
\<close>

section \<open>The reference\<close>

datatype xact_status = InProgress | Committed | Aborted

text \<open>The commit log, and the member of a multixact that updates or deletes, if any.\<close>

record xact_files =
  clog :: "u32 \<Rightarrow> xact_status"
  updater :: "u32 \<Rightarrow> u32 option"

abbreviation flag :: "heap_tuple_header_data \<Rightarrow> info_mask \<Rightarrow> bool" where
  "flag h m \<equiv> has_flag h (info_mask_u16 m)"

text \<open>A transaction took effect for the snapshot: it committed, and was over when it was taken.\<close>

definition xact_seen :: "xact_files \<Rightarrow> pg_snapshot \<Rightarrow> bool \<Rightarrow> u32 \<Rightarrow> bool" where
  "xact_seen files snap hinted xid \<longleftrightarrow>
     (hinted \<or> clog files xid = Committed) \<and> xid \<notin> set (snap_xip snap) \<and> xid < snap_xmax snap"

text \<open>
  Phase 1, the inserting transaction.  The two hint bits together mean frozen; the document tests
  the bit \<open>XMIN_INVALID\<close> first, PostgreSQL tests it alone, as here.
\<close>

definition frozen :: "heap_tuple_header_data \<Rightarrow> bool" where
  "frozen h \<longleftrightarrow> flag h XminCommitted \<and> flag h XminInvalid"

definition insert_seen :: "xact_files \<Rightarrow> pg_snapshot \<Rightarrow> heap_tuple_header_data \<Rightarrow> bool" where
  "insert_seen files snap h \<longleftrightarrow>
     (if frozen h then True
      else if flag h XminInvalid then False
      else xact_seen files snap (flag h XminCommitted) (t_xmin h))"

text \<open>Phase 2, the transaction in \<open>t_xmax\<close>, which may be a deleter, a locker or a multixact.\<close>

definition delete_seen :: "xact_files \<Rightarrow> pg_snapshot \<Rightarrow> heap_tuple_header_data \<Rightarrow> bool" where
  "delete_seen files snap h \<longleftrightarrow>
     (if t_xmax h = 0 \<or> flag h XmaxInvalid then False
      else if flag h XmaxLockOnly then False
      else if flag h XmaxIsMulti then
        (case updater files (t_xmax h) of None \<Rightarrow> False | Some xid \<Rightarrow> xact_seen files snap False xid)
      else xact_seen files snap (flag h XmaxCommitted) (t_xmax h))"

definition mvcc_visible :: "xact_files \<Rightarrow> pg_snapshot \<Rightarrow> heap_tuple_header_data \<Rightarrow> bool" where
  "mvcc_visible files snap h \<longleftrightarrow> insert_seen files snap h \<and> \<not> delete_seen files snap h"

text \<open>What PostgreSQL guarantees of a snapshot.\<close>

definition snapshot_wf :: "pg_snapshot \<Rightarrow> bool" where
  "snapshot_wf snap \<longleftrightarrow> FROZEN_XID < snap_xmin snap \<and> snap_xmin snap \<le> snap_xmax snap \<and>
     (\<forall>xid \<in> set (snap_xip snap). snap_xmin snap \<le> xid)"

section \<open>Lemmas\<close>

text \<open>On a snapshot of PostgreSQL the test of the program is the test against \<open>xmax\<close> and \<open>xip\<close>.\<close>

lemma xmin_visible_wf:
  assumes "snapshot_wf snap"
  shows "xmin_visible snap xid \<longleftrightarrow> xid \<notin> set (snap_xip snap) \<and> xid < snap_xmax snap"
proof (cases "xid < snap_xmin snap")
  case True
  then have "xid \<notin> set (snap_xip snap)" "xid < snap_xmax snap"
    using assms by (auto simp: snapshot_wf_def)
  with True show ?thesis by (simp add: xmin_visible_def)
next
  case False
  then have "\<not> xid \<le> FROZEN_XID" using assms by (auto simp: snapshot_wf_def)
  with False show ?thesis by (auto simp: xmin_visible_def)
qed

lemma tuple_visible_flags:
  "tuple_visible (Some snap) h \<longleftrightarrow> (flag h XmaxInvalid \<or> t_xmax h = 0) \<and> xmin_visible snap (t_xmin h)"
  by (simp add: tuple_visible_def)

lemma insert_seen_wf:
  assumes "snapshot_wf snap"
  shows "insert_seen files snap h \<longleftrightarrow>
    frozen h \<or> (\<not> flag h XminInvalid \<and> (flag h XminCommitted \<or> clog files (t_xmin h) = Committed) \<and>
                xmin_visible snap (t_xmin h))"
  by (auto simp: insert_seen_def xact_seen_def xmin_visible_wf [OF assms])

lemma delete_seen_xmax: "delete_seen files snap h \<Longrightarrow> \<not> flag h XmaxInvalid \<and> t_xmax h \<noteq> 0"
  by (simp add: delete_seen_def split: if_splits)

text \<open>
  The tuples on which the test of the program and the rules agree: the insertion is known to have
  committed, and \<open>xmax\<close>, when it counts at all, is a deletion the snapshot has seen.
\<close>

definition settled :: "xact_files \<Rightarrow> pg_snapshot \<Rightarrow> heap_tuple_header_data \<Rightarrow> bool" where
  "settled files snap h \<longleftrightarrow>
     (if frozen h then xmin_visible snap (t_xmin h)
      else \<not> flag h XminInvalid \<and> (flag h XminCommitted \<or> clog files (t_xmin h) = Committed)) \<and>
     (flag h XmaxInvalid \<or> t_xmax h = 0 \<or> delete_seen files snap h)"

lemma settled_visible:
  assumes "snapshot_wf snap" and "settled files snap h"
  shows "tuple_visible (Some snap) h \<longleftrightarrow> mvcc_visible files snap h"
  using assms(2) insert_seen_wf [OF assms(1), of files h] delete_seen_xmax [of files snap h]
  by (auto simp: settled_def tuple_visible_flags mvcc_visible_def split: if_splits)

text \<open>
  Where the two part, in each direction.  A tuple is shown in error when its insertion is not known to have
  committed (aborted, or in progress without being listed): the test looks neither at the commit log nor
  at the hint bits of \<open>xmin\<close>.  It is hidden in error when its \<open>xmax\<close> deletes nothing for the snapshot (a row
  lock, an aborted or later deletion, a multixact of lockers), or when it is frozen and its \<open>xmin\<close>, of an
  earlier epoch, is numerically not below the snapshot.
\<close>

definition shown_in_error :: "xact_files \<Rightarrow> pg_snapshot \<Rightarrow> heap_tuple_header_data \<Rightarrow> bool" where
  "shown_in_error files snap h \<longleftrightarrow>
     (flag h XmaxInvalid \<or> t_xmax h = 0) \<and> xmin_visible snap (t_xmin h) \<and> \<not> frozen h \<and>
     (flag h XminInvalid \<or> (\<not> flag h XminCommitted \<and> clog files (t_xmin h) \<noteq> Committed))"

definition hidden_in_error :: "xact_files \<Rightarrow> pg_snapshot \<Rightarrow> heap_tuple_header_data \<Rightarrow> bool" where
  "hidden_in_error files snap h \<longleftrightarrow>
     insert_seen files snap h \<and> \<not> delete_seen files snap h \<and>
     ((\<not> flag h XmaxInvalid \<and> t_xmax h \<noteq> 0) \<or> (frozen h \<and> \<not> xmin_visible snap (t_xmin h)))"

text \<open>What the code shows, in terms of the rules.\<close>

abbreviation shown :: "xact_files \<Rightarrow> pg_snapshot \<Rightarrow> heap_tuple_header_data \<Rightarrow> bool" where
  "shown files snap h \<equiv> mvcc_visible files snap h \<and> \<not> hidden_in_error files snap h \<or> shown_in_error files snap h"

lemma visible_by_departures:
  assumes "snapshot_wf snap"
  shows "tuple_visible (Some snap) h \<longleftrightarrow> shown files snap h"
    and "shown_in_error files snap h \<Longrightarrow> \<not> mvcc_visible files snap h"
    and "hidden_in_error files snap h \<Longrightarrow> mvcc_visible files snap h"
  unfolding tuple_visible_flags mvcc_visible_def shown_in_error_def hidden_in_error_def
  using insert_seen_wf [OF assms, of files h] delete_seen_xmax [of files snap h] by (auto simp: frozen_def)

text \<open>The batch of a page, for any description of its visible tuples.\<close>

lemma batch_of_shown_rows:
  assumes "page_parse_bytes buf = Ok page"
    and seen: "\<forall>t \<in> set (page_rows page). tuple_visible snapshot (header t) \<longleftrightarrow> seen t"
    and "proj \<noteq> []" and "distinct proj" and "\<forall>i \<in> set proj. i < num_columns s"
    and "accepts_exact (fixed_append_error lib)"
    and "\<forall>t \<in> set (page_rows page). seen t \<longrightarrow> row_cells s proj t (cell t)"
  shows "to_record_batch lib page s (Some proj) snapshot =
    map_err ArrowConversionFailed
      (try_new lib (map (\<lambda>i. to_arrow_field (columns s ! i)) proj)
        (map (\<lambda>i. finish_array lib (column_kind s i) (map (\<lambda>t. cell t i) (filter seen (page_rows page)))) proj))"
proof -
  note lps = parsed_page_pointers [OF assms(1)]
  have live: "live_tuples snapshot page = filter seen (page_rows page)"
    using seen by (auto simp: live_tuples_filter intro!: filter_cong)
  have cells: "projected_cells proj cell ts k = map (\<lambda>t. cell t (proj ! k)) ts" if "k < length proj" for ts k
  proof -
    have "distinct (proj ! k # drop (Suc k) proj)"
      using that assms(4) by (metis Cons_nth_drop_Suc distinct_drop)
    then show ?thesis by (simp add: projected_cells_def)
  qed
  have "to_record_batch lib page s (Some proj) snapshot =
    map_err ArrowConversionFailed
      (try_new lib (map (\<lambda>i. to_arrow_field (columns s ! i)) proj)
        (map (\<lambda>k. finish_array lib (column_kind s (proj ! k))
                     (projected_cells proj cell (live_tuples snapshot page) k)) [0..<length proj]))"
    using lps assms(3,5,6,7) by (intro to_record_batch_live) (auto simp: live)
  also have "map (\<lambda>k. finish_array lib (column_kind s (proj ! k))
      (projected_cells proj cell (live_tuples snapshot page) k)) [0..<length proj] =
    map ((\<lambda>i. finish_array lib (column_kind s i) (map (\<lambda>t. cell t i) (live_tuples snapshot page))) \<circ> (!) proj)
      [0..<length proj]"
    by (simp add: cells)
  finally show ?thesis unfolding live map_map [symmetric] map_nth .
qed

definition after_commits :: xact_files where
  "after_commits = \<lparr>clog = (\<lambda>_. Committed), updater = (\<lambda>_. None)\<rparr>"

text \<open>The deletion of the second sample tuple has aborted.\<close>

definition after_rollback :: xact_files where
  "after_rollback = \<lparr>clog = (\<lambda>xid. if xid = t_xmax (header sample_deleted) then Aborted else Committed), updater = (\<lambda>_. None)\<rparr>"

section \<open>Properties\<close>

text \<open>
  C13: Where \<open>to_record_batch\<close> departs from the visibility rules, exactly.  Its test on the bytes of a tuple
  passes the tuples that the rules show, less those hidden in error, and those shown in error, and
  nothing else; and so the batch of any page under a snapshot is the table of just these rows, in the order
  of their line pointers.  Tuples shown in error are invisible by the rules (the commit log and the hint
  bits of \<open>xmin\<close> are never consulted), tuples hidden in error are visible (an \<open>xmax\<close> that only locks, or
  whose transaction aborted or is not over, counts as a deletion).
\<close>

theorem visibility_departures:
  assumes "page_parse_bytes buf = Ok page" and "snapshot_wf snap"
    and "proj \<noteq> []" and "distinct proj" and "\<forall>i \<in> set proj. i < num_columns s"
    and "accepts_exact (fixed_append_error lib)"
    and "\<forall>t \<in> set (page_rows page). shown files snap (header t) \<longrightarrow> row_cells s proj t (cell t)"
  shows "batch_slices (Some snap) raw =
      (case parse_and_build raw of
         Ok t \<Rightarrow>
           if shown files snap (header t)
           then Some (has_flag (header t) (info_mask_u16 HasNull), null_bitmap t, data t) else None
       | _ \<Rightarrow> None) \<and>
    to_record_batch lib page s (Some proj) (Some snap) =
      map_err ArrowConversionFailed
        (try_new lib (map (\<lambda>i. to_arrow_field (columns s ! i)) proj)
          (map (\<lambda>i. finish_array lib (column_kind s i)
             (map (\<lambda>t. cell t i) (filter (\<lambda>t. shown files snap (header t)) (page_rows page)))) proj)) \<and>
    (shown_in_error files snap h \<longrightarrow> \<not> mvcc_visible files snap h) \<and>
    (hidden_in_error files snap h \<longrightarrow> mvcc_visible files snap h)"
proof (intro conjI impI)
  have split: "tuple_visible (Some snap) h \<longleftrightarrow> shown files snap h" for h
    by (rule visible_by_departures(1) [OF assms(2)])
  show "batch_slices (Some snap) raw =
      (case parse_and_build raw of
         Ok t \<Rightarrow>
           if shown files snap (header t)
           then Some (has_flag (header t) (info_mask_u16 HasNull), null_bitmap t, data t) else None
       | _ \<Rightarrow> None)"
    unfolding batch_slices_parse split ..
  show "to_record_batch lib page s (Some proj) (Some snap) =
      map_err ArrowConversionFailed
        (try_new lib (map (\<lambda>i. to_arrow_field (columns s ! i)) proj)
          (map (\<lambda>i. finish_array lib (column_kind s i)
             (map (\<lambda>t. cell t i) (filter (\<lambda>t. shown files snap (header t)) (page_rows page)))) proj))"
    by (rule batch_of_shown_rows [OF assms(1) _ assms(3-7)]) (simp add: split)
qed (rule visible_by_departures(2,3) [OF assms(2)], assumption)+

theorem visibility_departures_witness:
  "to_record_batch log_lib sample_page sample_schema (Some [2, 1]) (Some \<lparr>snap_xmin = 20, snap_xmax = 20, snap_xip = []\<rparr>) =
      Ok [(B_Int4, [Some (AV_Int32 7)]), (B_Utf8, [None])] \<and>
    mvcc_visible after_rollback \<lparr>snap_xmin = 20, snap_xmax = 20, snap_xip = []\<rparr> (header sample_deleted)"
proof -
  let ?snap = "\<lparr>snap_xmin = 20, snap_xmax = 20, snap_xip = []\<rparr>"
  let ?t = "sample_tuple [5] [5, 0, 0, 0, 7, 0, 0, 0]"
  let ?cell = "\<lambda>t i. if i = 2 then Some (AV_Int32 7) else None"
  have wf: "snapshot_wf ?snap" by (simp add: snapshot_wf_def FROZEN_XID_def)
  have vis: "shown after_rollback ?snap (header ?t)" "\<not> shown after_rollback ?snap (header sample_deleted)"
      "hidden_in_error after_rollback ?snap (header sample_deleted)"
    by (simp_all add: hidden_in_error_def shown_in_error_def mvcc_visible_def insert_seen_def delete_seen_def xact_seen_def
        frozen_def has_flag_def sample_tuple_def after_rollback_def xmin_visible_def FROZEN_XID_def)
  have "row_cells sample_schema [2, 1] ?t (?cell ?t)"
    by (simp add: row_cells_def sample_decode column_kind_def builder_kind_for_def)
  then have cells: "\<forall>t \<in> set (page_rows sample_page). shown after_rollback ?snap (header t) \<longrightarrow>
      row_cells sample_schema [2, 1] t (?cell t)"
    unfolding sample_page_rows using vis(2) by auto
  have "\<forall>i \<in> set [2, 1]. i < num_columns sample_schema"
    by (simp add: sample_schema_def pg_schema_new_def num_columns_def)
  from visibility_departures [OF sample_page_parse wf _ _ this log_lib_exact cells, of "[]" "header sample_deleted"]
  have batch: "to_record_batch log_lib sample_page sample_schema (Some [2, 1]) (Some ?snap) =
      map_err ArrowConversionFailed
        (try_new log_lib (map (\<lambda>i. to_arrow_field (columns sample_schema ! i)) [2, 1])
          (map (\<lambda>i. finish_array log_lib (column_kind sample_schema i)
             (map (\<lambda>t. ?cell t i) (filter (\<lambda>t. shown after_rollback ?snap (header t)) (page_rows sample_page)))) [2, 1]))"
    and "mvcc_visible after_rollback ?snap (header sample_deleted)"
    using vis(3) by simp_all
  moreover have "filter (\<lambda>t. shown after_rollback ?snap (header t)) (page_rows sample_page) = [?t]"
    unfolding sample_page_rows using vis(1,2) by (simp only: filter.simps if_True if_False)
  ultimately show ?thesis
    by (simp add: log_lib_def column_kind_def builder_kind_for_def sample_schema_def pg_schema_new_def pg_column_new_def)
qed

text \<open>
  C14: On a page whose tuples are all settled, the record batch under a snapshot is the table of the
  rows that the visibility rules make visible, in the order of their line pointers.
\<close>

theorem batch_of_visible_rows:
  assumes "page_parse_bytes buf = Ok page" and "snapshot_wf snap"
    and "\<forall>t \<in> set (page_rows page). settled files snap (header t)"
    and "proj \<noteq> []" and "distinct proj" and "\<forall>i \<in> set proj. i < num_columns s"
    and "accepts_exact (fixed_append_error lib)"
    and "\<forall>t \<in> set (page_rows page). mvcc_visible files snap (header t) \<longrightarrow> row_cells s proj t (cell t)"
  shows "to_record_batch lib page s (Some proj) (Some snap) =
    map_err ArrowConversionFailed
      (try_new lib (map (\<lambda>i. to_arrow_field (columns s ! i)) proj)
        (map (\<lambda>i. finish_array lib (column_kind s i)
                     (map (\<lambda>t. cell t i) (filter (\<lambda>t. mvcc_visible files snap (header t)) (page_rows page)))) proj))"
  by (rule batch_of_shown_rows [OF assms(1) _ assms(4-8)]) (use assms(3) settled_visible [OF assms(2)] in blast)

theorem batch_of_visible_rows_witness:
  "to_record_batch log_lib sample_page sample_schema (Some [2, 1]) (Some \<lparr>snap_xmin = 20, snap_xmax = 20, snap_xip = []\<rparr>) =
    Ok [(B_Int4, [Some (AV_Int32 7)]), (B_Utf8, [None])]"
proof -
  let ?snap = "\<lparr>snap_xmin = 20, snap_xmax = 20, snap_xip = []\<rparr>"
  let ?t = "sample_tuple [5] [5, 0, 0, 0, 7, 0, 0, 0]"
  let ?cell = "\<lambda>t i. if i = 2 then Some (AV_Int32 7) else None"
  have wf: "snapshot_wf ?snap" by (simp add: snapshot_wf_def FROZEN_XID_def)
  have vis: "settled after_commits ?snap (header ?t)" "settled after_commits ?snap (header sample_deleted)"
    "mvcc_visible after_commits ?snap (header ?t)" "\<not> mvcc_visible after_commits ?snap (header sample_deleted)"
    by (simp_all add: settled_def mvcc_visible_def insert_seen_def delete_seen_def xact_seen_def frozen_def
        has_flag_def sample_tuple_def after_commits_def)
  have "row_cells sample_schema [2, 1] ?t (?cell ?t)"
    by (simp add: row_cells_def sample_decode column_kind_def builder_kind_for_def)
  then have cells: "\<forall>t \<in> set (page_rows sample_page). mvcc_visible after_commits ?snap (header t) \<longrightarrow>
      row_cells sample_schema [2, 1] t (?cell t)"
    using vis(4) by (simp add: sample_page_rows)
  have "\<forall>t \<in> set (page_rows sample_page). settled after_commits ?snap (header t)"
    using vis(1,2) by (simp add: sample_page_rows)
  moreover have "\<forall>i \<in> set [2, 1]. i < num_columns sample_schema"
    by (simp add: sample_schema_def pg_schema_new_def num_columns_def)
  ultimately show ?thesis
    using batch_of_visible_rows [OF sample_page_parse wf _ _ _ _ log_lib_exact cells] vis(3,4)
    by (simp add: sample_page_rows log_lib_def column_kind_def builder_kind_for_def sample_schema_def
        pg_schema_new_def pg_column_new_def)
qed

end
