(* ===== verification/ArrowTypes.thy ===== *)
theory ArrowTypes
  imports StreamRuns ArrowRows
begin

text \<open>
  The Arrow types of the arrays against the Arrow types of the schema.  \<open>ColumnBuilder\<close>
  (\<open>src/types/arrow.rs\<close>) and \<open>PgTypeId::arrow_type\<close> (\<open>src/types/codec.rs\<close>) choose them separately, and
  \<open>RecordBatch::try_new\<close> refuses a batch in which they differ.
\<close>

section \<open>The types of arrays\<close>

text \<open>The Arrow type of the array a builder finishes: the one in the documentation of each builder.\<close>

primrec builder_data_type :: "builder_kind \<Rightarrow> data_type" where
  "builder_data_type B_Bool = DT_Boolean"
| "builder_data_type B_Int2 = DT_Int16"
| "builder_data_type B_Int4 = DT_Int32"
| "builder_data_type B_Int8 = DT_Int64"
| "builder_data_type B_Float4 = DT_Float32"
| "builder_data_type B_Float8 = DT_Float64"
| "builder_data_type B_Char = DT_UInt8"
| "builder_data_type B_Oid = DT_UInt32"
| "builder_data_type B_Xid = DT_UInt32"
| "builder_data_type B_Cid = DT_UInt32"
| "builder_data_type B_Xid8 = DT_UInt64"
| "builder_data_type B_Date = DT_Date32"
| "builder_data_type B_Money = DT_Int64"
| "builder_data_type B_Time = DT_Time64 Microsecond"
| "builder_data_type B_Timestamp = DT_Timestamp Microsecond None"
| "builder_data_type B_TimestampTz = DT_Timestamp Microsecond (Some ''UTC'')"
| "builder_data_type B_Timetz = DT_Time64 Microsecond"
| "builder_data_type B_Interval = DT_Binary"
| "builder_data_type B_Utf8 = DT_Utf8"
| "builder_data_type B_Name = DT_Utf8"
| "builder_data_type B_Binary = DT_Binary"
| "builder_data_type (B_FixedBinary w) = DT_FixedSizeBinary w"
| "builder_data_type B_Tid = DT_Binary"
| "builder_data_type (B_Decimal128 p s) = DT_Decimal128 p s"
| "builder_data_type (B_Decimal256 p s) = DT_Decimal256 p s"

fun field_type :: "arrow_field \<Rightarrow> data_type" where
  "field_type (Field name dt nul) = dt"

text \<open>What \<open>RecordBatch::try_new\<close> checks of the columns: as many as fields, each of the field's type.\<close>

definition checks_types :: "('arr, 'batch) arrow_lib \<Rightarrow> bool" where
  "checks_types lib \<longleftrightarrow>
     (\<forall>fields columns batch.
        try_new lib fields (map (\<lambda>(k, cs). finish_array lib k cs) columns) = Ok batch \<longrightarrow>
        map field_type fields = map (\<lambda>(k, cs). builder_data_type k) columns)"

section \<open>Lemmas\<close>

lemma numeric_field_type:
  "builder_data_type (builder_kind_for T_Numeric tm) = numeric_typmod_to_arrow_type tm"
  using typmod_decimal [of tm] by (auto simp: builder_kind_for_def)

lemma builder_type_agrees:
  assumes "t \<noteq> T_Numeric"
  shows "builder_data_type (builder_kind_for t tm) = arrow_type t \<longleftrightarrow>
    t \<noteq> T_Interval \<and> ti_category (info t) \<noteq> C_Array"
  using assms by (cases t) (simp_all add: builder_kind_for_def info_arms pg_type_info.defs list_of_def)

text \<open>The conversion appends to the builders it made: their kinds stay what they were.\<close>

lemma append_bytes_kind: "append_bytes ae b bytes = Ok b' \<Longrightarrow> kind b' = kind b"
  by (auto simp: append_bytes_def outcome_simps)

lemma batch_columns_kinds:
  "batch_columns ae types pos sl is offset bs = Ok bs' \<Longrightarrow> map kind bs' = map kind bs"
proof (induction ae types pos sl "is" offset bs arbitrary: bs' rule: batch_columns.induct)
  case (2 ae types pos has_null bitmap d i rest offset bs)
  show ?case
  proof (cases "batch_is_null has_null bitmap i")
    case True
    then show ?thesis
      using 2 by (auto simp: append_null_def kinds_update split: option.splits)
  next
    case False
    then show ?thesis
      using 2(2-) by (auto simp: Let_def outcome_simps kinds_update append_bytes_kind split: option.splits if_splits)
  qed
qed simp

lemma batch_tuples_kinds:
  "batch_tuples ae types pos w snapshot page is bs = Ok bs' \<Longrightarrow> map kind bs' = map kind bs"
proof (induction "is" arbitrary: bs)
  case (Cons i "is")
  then show ?case
    by (auto simp: outcome_simps batch_columns_kinds split: if_splits option.splits)
qed simp

text \<open>A batch comes from \<open>try_new\<close>, on the arrays of the kinds of the projected columns.\<close>

lemma to_record_batch_try_new:
  assumes "to_record_batch lib page s (Some proj) snapshot = Ok batch" and "proj \<noteq> []"
  shows "(\<forall>i \<in> set proj. i < num_columns s) \<and>
    (\<exists>cols. map fst cols = map (column_kind s) proj \<and>
       try_new lib (map (\<lambda>i. to_arrow_field (columns s ! i)) proj)
         (map (\<lambda>(k, cs). finish_array lib k cs) cols) = Ok batch)"
proof -
  have proj: "\<forall>i \<in> set proj. i < num_columns s"
    using assms by (auto simp: to_record_batch_def Let_def project_eq split: if_splits)
  obtain bs where bs: "map kind bs = map (column_kind s) proj"
    and new: "try_new lib (map (\<lambda>i. to_arrow_field (columns s ! i)) proj) (map (finish lib) bs) = Ok batch"
    using assms proj
    by (fastforce simp: to_record_batch_def Let_def project_eq builders_kinds to_arrow_schema_def pg_schema_new_def
        comp_def outcome_simps dest!: batch_tuples_kinds)
  have "map (\<lambda>(k, cs). finish_array lib k cs) (map (\<lambda>b. (kind b, cells b)) bs) = map (finish lib) bs"
    by (simp add: finish_def comp_def)
  moreover have "map fst (map (\<lambda>b. (kind b, cells b)) bs) = map (column_kind s) proj"
    using bs by (simp add: comp_def)
  ultimately show ?thesis using proj new by metis
qed

lemma rows_batch_try_new:
  assumes "rows_to_record_batch dbg lib rows s = Ok batch"
  shows "\<exists>cols. map fst cols = map (column_kind s) [0..<num_columns s] \<and>
    try_new lib (to_arrow_schema s) (map (\<lambda>(k, cs). finish_array lib k cs) cols) = Ok batch"
proof -
  let ?cells = "\<lambda>i. omap (row_cell dbg (fixed_append_error lib) (type_id (columns s ! i)) (typmod (columns s ! i)) i) rows"
  let ?build = "\<lambda>i. obind (ok_or (column s i) (ColumnNotFound (''index '' @ show_nat i))) (\<lambda>col.
      build_arrow_array dbg lib (type_id col) (typmod col) rows i)"
  have build: "?build i = obind (?cells i) (\<lambda>cs. Ok (finish_array lib (column_kind s i) cs))" if "i < num_columns s" for i
    using that by (simp add: column_def num_columns_def build_arrow_array_def builder_of_eq column_kind_def)
  obtain arrays where arrays: "omap ?build [0..<num_columns s] = Ok arrays"
    and new: "try_new lib (to_arrow_schema s) arrays = Ok batch"
    using assms by (auto simp: rows_to_record_batch_def outcome_simps)
  have n: "length arrays = num_columns s" using omap_length [OF arrays] by simp
  have "\<exists>cs. arrays ! i = finish_array lib (column_kind s i) cs" if "i < num_columns s" for i
  proof -
    have "?build i = Ok (arrays ! i)" using omap_nth [OF arrays, of i] that by simp
    then have "obind (?cells i) (\<lambda>cs. Ok (finish_array lib (column_kind s i) cs)) = Ok (arrays ! i)"
      unfolding build [OF that] .
    then obtain cs where "Ok (finish_array lib (column_kind s i) cs) = (Ok (arrays ! i) :: _ pg_result)"
      unfolding obind_eq_Ok by blast
    then show ?thesis by (intro exI [of _ cs]) simp
  qed
  then obtain cs where cs: "\<And>i. i < num_columns s \<Longrightarrow> arrays ! i = finish_array lib (column_kind s i) (cs i)"
    by metis
  have "arrays = map (\<lambda>(k, cs). finish_array lib k cs) (map (\<lambda>i. (column_kind s i, cs i)) [0..<num_columns s])"
    by (rule nth_equalityI) (simp_all add: n cs)
  then show ?thesis
    using new by (intro exI [of _ "map (\<lambda>i. (column_kind s i, cs i)) [0..<num_columns s]"]) (simp add: comp_def)
qed

definition unconvertible :: "pg_type_id \<Rightarrow> bool" where
  "unconvertible t \<longleftrightarrow> t = T_Interval \<or> ti_category (info t) = C_Array"

lemma column_type_agrees:
  "builder_data_type (column_kind s i) = field_type (to_arrow_field (columns s ! i)) \<longleftrightarrow>
    \<not> unconvertible (type_id (columns s ! i))"
proof (cases "type_id (columns s ! i) = T_Numeric")
  case True
  then show ?thesis
    by (simp add: column_kind_def to_arrow_field_def numeric_field_type unconvertible_def info_arms pg_type_info.defs)
next
  case False
  then show ?thesis
    by (simp add: column_kind_def to_arrow_field_def builder_type_agrees unconvertible_def)
qed

lemma checked_columns:
  assumes "checks_types lib"
    and "try_new lib (map (\<lambda>i. to_arrow_field (columns s ! i)) is) (map (\<lambda>(k, cs). finish_array lib k cs) cols) = Ok batch"
    and "map fst cols = map (column_kind s) is"
  shows "\<forall>i \<in> set is. \<not> unconvertible (type_id (columns s ! i))"
proof -
  have "map (\<lambda>i. field_type (to_arrow_field (columns s ! i))) is = map builder_data_type (map fst cols)"
    using assms(1,2) by (fastforce simp: checks_types_def comp_def case_prod_unfold)
  then have "map (\<lambda>i. field_type (to_arrow_field (columns s ! i))) is = map (\<lambda>i. builder_data_type (column_kind s i)) is"
    unfolding assms(3) by (simp add: comp_def)
  then show ?thesis by (auto simp: column_type_agrees [symmetric])
qed

text \<open>An Arrow library that makes the check and nothing else.\<close>

definition typed_lib :: "(builder_kind \<times> arrow_cell list, (builder_kind \<times> arrow_cell list) list) arrow_lib" where
  "typed_lib = log_lib
     \<lparr>try_new := (\<lambda>fields arrs. if map field_type fields = map (\<lambda>(k, cs). builder_data_type k) arrs then Ok arrs
                              else Err ''column types must match schema types'')\<rparr>"

lemma typed_lib_checks: "checks_types typed_lib"
  by (auto simp: checks_types_def typed_lib_def log_lib_def split: if_splits)

section \<open>Properties\<close>

text \<open>
  C18: The array that \<open>ColumnBuilder\<close> builds for a column has the Arrow type that \<open>to_arrow_field\<close> announces
  in the schema, for every type and modifier, but for \<open>interval\<close>, built as 16 bytes of \<open>Binary\<close> where the
  schema says \<open>Interval\<close>, and for the array types, built as \<open>Binary\<close> where it says \<open>List\<close>.
\<close>

theorem built_type_is_announced:
  "builder_data_type (kind (column_builder_for c)) = field_type (to_arrow_field c) \<longleftrightarrow>
    type_id c \<noteq> T_Interval \<and> ti_category (info (type_id c)) \<noteq> C_Array"
  using column_type_agrees [of "pg_schema_new [] [c]" 0]
  by (simp add: column_kind_def pg_schema_new_def column_builder_for_def unconvertible_def)

text \<open>
  C15: No table with an \<open>interval\<close> column or an array column converts to Arrow: on no page and under no
  snapshot does \<open>to_record_batch\<close> return a batch when the column is projected, \<open>PgRow::to_record_batch\<close>
  returns none either, and a batch stream over the table panics on its first page.
\<close>

theorem unconvertible_column_fails:
  assumes "checks_types lib" and "i \<in> set proj" and "i < num_columns s"
    and "type_id (columns s ! i) = T_Interval \<or> ti_category (info (type_id (columns s ! i))) = C_Array"
    and "relation_holds fs dir r (buf # pages)" and "page_parse_bytes buf = Ok first"
    and "length pages < 2 ^ 63"
  shows "to_record_batch lib page s (Some proj) snapshot \<noteq> Ok batch \<and>
    rows_to_record_batch dbg lib rows s \<noteq> Ok batch \<and>
    (\<exists>st. stream_next lib (read_pages_bulk fs (Ok dir)) (into_batch_stream threads r s (Some proj)) = Some (Panic, st))"
proof -
  have bad: "unconvertible (type_id (columns s ! i))" using assms(4) by (simp add: unconvertible_def)
  have page: "to_record_batch lib page s (Some proj) snapshot \<noteq> Ok batch" for page snapshot batch
  proof
    assume "to_record_batch lib page s (Some proj) snapshot = Ok batch"
    moreover have "proj \<noteq> []" using assms(2) by auto
    ultimately have "\<exists>cols. map fst cols = map (column_kind s) proj \<and>
      try_new lib (map (\<lambda>i. to_arrow_field (columns s ! i)) proj) (map (\<lambda>(k, cs). finish_array lib k cs) cols) = Ok batch"
      by (rule to_record_batch_try_new [THEN conjunct2])
    then obtain cols where cols: "map fst cols = map (column_kind s) proj"
      "try_new lib (map (\<lambda>i. to_arrow_field (columns s ! i)) proj) (map (\<lambda>(k, cs). finish_array lib k cs) cols) = Ok batch"
      by (elim exE conjE)
    show False
      using checked_columns [OF assms(1) cols(2,1)] bad assms(2) by blast
  qed
  have rows: "rows_to_record_batch dbg lib rows s \<noteq> Ok batch"
  proof
    assume "rows_to_record_batch dbg lib rows s = Ok batch"
    from rows_batch_try_new [OF this]
    obtain cols where cols: "map fst cols = map (column_kind s) [0..<num_columns s]"
      "try_new lib (to_arrow_schema s) (map (\<lambda>(k, cs). finish_array lib k cs) cols) = Ok batch"
      by (elim exE conjE)
    have "to_arrow_schema s = map (\<lambda>i. to_arrow_field (columns s ! i)) [0..<num_columns s]"
      by (rule nth_equalityI) (simp_all add: to_arrow_schema_def num_columns_def)
    then show False
      using checked_columns [OF assms(1) _ cols(1), of batch] cols(2) bad assms(3) by simp
  qed
  let ?st = "into_batch_stream threads r s (Some proj)"
  have "\<exists>st. fill_buffer lib (read_pages_bulk fs (Ok dir)) ?st = (Panic, st)"
    using assms(5-7) page
    by (intro conversion_panics [of fs dir ?st "buf # pages" first])
      (simp_all add: into_batch_stream_def record_batch_stream_new_def DEFAULT_PAGES_PER_BATCH_def)
  then have "\<exists>st. stream_next lib (read_pages_bulk fs (Ok dir)) ?st = Some (Panic, st)"
    by (auto simp: stream_next_def pop_front_def into_batch_stream_def record_batch_stream_new_def)
  with page rows show ?thesis by blast
qed

theorem unconvertible_column_fails_witness:
  "\<exists>st. stream_next typed_lib (read_pages_bulk two_pages_fs (Ok ''/d''))
      (into_batch_stream None sample_reader (pg_schema_new ''t'' [pg_column_new ''a'' T_Interval True (-1)]) (Some [0])) =
    Some (Panic, st)"
proof -
  let ?s = "pg_schema_new ''t'' [pg_column_new ''a'' T_Interval True (-1)]"
  have "0 \<in> set [0 :: nat]" "0 < num_columns ?s"
    "type_id (columns ?s ! 0) = T_Interval \<or> ti_category (info (type_id (columns ?s ! 0))) = C_Array"
    by (simp_all add: pg_schema_new_def num_columns_def pg_column_new_def)
  from unconvertible_column_fails [OF typed_lib_checks this two_pages_hold sample_page_parse]
  show ?thesis by simp
qed

end
