(* ===== verification/Evolution.thy ===== *)
theory Evolution
  imports Scans
begin

text \<open>
  Tables whose columns have changed.  \<open>docs/design/DESIGN.md\<close>, "Schema Evolution", asks that a tuple
  with fewer attributes than the schema reads the missing columns as their defaults or NULL, and that a
  dropped column keeps its place in the tuple; here is what \<open>decode_row\<close> and \<open>to_record_batch\<close> do on the
  tuples that \<open>ALTER TABLE\<close> leaves behind.
\<close>

section \<open>Behind the end of the data\<close>

lemma form_cells_length: "form_cells cell cs vs offset = Some bs \<Longrightarrow> length vs = length cs"
  by (induction cell cs vs offset arbitrary: bs rule: form_cells.induct) (auto split: option.splits)

lemma align_offset_ge: "offset \<le> align_offset t buf offset"
  using align_up_ge [of offset t] by (auto simp: align_offset_def align_up Let_def split: option.split)

lemma fixed_width_pos: "type_len t = Fixed w \<Longrightarrow> 0 < unat w"
  using fixed_size_pos [of t] by (simp add: fixed_size_def)

lemma type_len_cases: "type_len t = Varlena \<or> (\<exists>w. type_len t = Fixed w)"
  using fixed_size_pos [of t] by (cases "type_len t") (simp_all add: fixed_size_def)

lemma read_datum_at_end:
  assumes "length buf \<le> offset"
  shows "\<exists>e. read_datum t buf offset = Err (DecodeError e)"
proof -
  let ?o = "align_offset t buf offset"
  have o: "length buf \<le> ?o" using assms align_offset_ge [of offset t buf] by simp
  have "\<exists>e. decode_datum t buf ?o = Err e"
    using type_len_cases [of t]
  proof
    assume "type_len t = Varlena"
    then show ?thesis using o by (simp add: decode_datum_def read_varlena_header_def)
  next
    assume "\<exists>w. type_len t = Fixed w"
    then obtain w where w: "type_len t = Fixed w" by blast
    then have "get_range buf ?o (?o + unat w) = None"
      using o fixed_width_pos [OF w] by (simp add: get_range_def)
    with w show ?thesis by (simp add: decode_datum_def Let_def)
  qed
  then show ?thesis by (auto simp: read_datum_def Let_def)
qed

lemma batch_columns_at_end:
  assumes "length d \<le> offset" and "\<not> batch_is_null hn bm i" and "pos ! i = Some out"
  shows "batch_columns ae types pos (hn, bm, d) (i # is) offset bs \<noteq> Ok bs'"
proof -
  let ?t = "types ! i" and ?o = "batch_align (types ! i) d offset"
  have o: "length d \<le> ?o"
    using assms(1) align_offset_ge [of offset ?t d] by (simp add: batch_align_eq)
  have "extract_fixed_bytes d ?o (fixed_size ?t) \<noteq> Ok x" if "0 < fixed_size ?t" for x
    using o that by (cases x) (auto simp: extract_fixed_bytes_def outcome_simps)
  moreover have "extract_column_bytes (type_len ?t) d ?o \<noteq> Ok x" if "\<not> 0 < fixed_size ?t" for x
    using o that fixed_size_pos [of ?t] by (simp add: extract_column_bytes_def read_varlena_header_def)
  ultimately show ?thesis
    using assms(2,3) by (auto simp: Let_def outcome_simps)
qed

section \<open>Through the stored columns\<close>

lemma batch_columns_stored:
  assumes "form_cells datum_cell (map ((!) types) is) vs offset = Some part" and "drop offset (data t) = part @ rest"
    and "offset \<le> length (data t)" and "\<forall>k < length is. is_null t (is ! k) = (vs ! k = None)"
    and null: "\<And>i. batch_is_null hn bm i = is_null t i"
    and "batch_columns ae types pos (hn, bm, data t) (is @ js) offset bs = Ok bs'"
  shows "\<exists>bs0. batch_columns ae types pos (hn, bm, data t) js (offset + length part) bs0 = Ok bs'"
  using assms(1-4,6)
proof (induction "is" arbitrary: vs offset part bs)
  case Nil
  then show ?case by (cases vs) auto
next
  case (Cons i "is")
  obtain v vs' where vs: "vs = v # vs'"
    using form_cells_length [OF Cons.prems(1)] by (cases vs) simp_all
  have nulls: "\<forall>k < length is. is_null t (is ! k) = (vs' ! k = None)" "is_null t i = (v = None)"
    using Cons.prems(4) [rule_format, of "Suc _"] Cons.prems(4) [rule_format, of 0] vs by simp_all
  show ?case
  proof (cases v)
    case None
    then show ?thesis
      using Cons.prems Cons.IH [of vs' offset part] nulls vs by (auto simp: null)
  next
    case (Some x)
    let ?t = "types ! i" and ?o = "align_offset (types ! i) (data t) offset"
    obtain b part' where b: "datum_cell ?t x offset = Some b"
      and rest: "form_cells datum_cell (map ((!) types) is) vs' (offset + length b) = Some part'" "part = b @ part'"
      using Cons.prems(1) vs Some by (auto split: option.splits)
    have d: "drop offset (data t) = b @ part' @ rest" using Cons.prems(2) rest(2) by simp
    then have d': "drop (offset + length b) (data t) = part' @ rest"
      by (metis add.commute append_eq_conv_conj drop_drop)
    have le: "offset + length b \<le> length (data t)"
      using arg_cong [OF d, of length] Cons.prems(3) by simp
    have "read_datum ?t (data t) offset = Ok (x, offset + length b)"
      by (rule datum_walk.read_cell [OF b d Cons.prems(3)])
    then obtain n where n: "decode_datum ?t (data t) ?o = Ok (x, n)" "offset + length b = ?o + n"
      by (auto simp: read_datum_eq_Ok)
    then obtain p where p: "extract_column_bytes (type_len ?t) (data t) ?o = Ok (p, n)"
      by (auto simp: decode_datum_via_extract)
    obtain bs1 where "batch_columns ae types pos (hn, bm, data t) (is @ js) (?o + n) bs1 = Ok bs'"
      using Cons.prems(5) nulls(2) Some p extracted_column [OF p]
      by (auto simp: null batch_align_eq Let_def outcome_simps split: option.splits if_splits)
    then show ?thesis
      using Cons.IH [OF rest(1) d' le nulls(1), of bs1] by (simp add: n(2) rest(2) add.assoc [symmetric])
  qed
qed

text \<open>When a page converts, so do the columns of each of its visible tuples.\<close>

lemma batch_tuples_each:
  assumes "batch_tuples ae types pos w snapshot page is bs = Ok bs'"
    and lps: "length (lp_items page) \<le> 65536" "\<forall>i \<in> set is. i < length (lp_items page)"
    and "t \<in> set (concat (map (live_at snapshot page) is))"
  shows "\<exists>bs bs'. batch_columns ae types pos (tuple_slices t) [0..<w] 0 bs = Ok bs'"
  using assms
proof (induction "is" arbitrary: bs)
  case (Cons i "is")
  have one: "live_at snapshot page i = [] \<or> (\<exists>t. live_at snapshot page i = [t])"
    by (auto simp: live_at_def split: outcome.splits)
  have "(case live_at snapshot page i of
       [] \<Rightarrow> batch_tuples ae types pos w snapshot page is bs
     | t # _ \<Rightarrow> obind (batch_columns ae types pos (tuple_slices t) [0..<w] 0 bs)
                  (batch_tuples ae types pos w snapshot page is)) = Ok bs'"
    using Cons.prems(1) batch_tuples_step [of i page ae types pos w snapshot "is" bs, OF _ lps(1)] Cons.prems(3)
    by (simp del: batch_tuples.simps)
  note conv = this
  from one show ?case
  proof
    assume "live_at snapshot page i = []"
    then show ?thesis using conv Cons.IH [of bs] lps(1) Cons.prems(3,4) by simp
  next
    assume "\<exists>t. live_at snapshot page i = [t]"
    then obtain u bs1 where u: "live_at snapshot page i = [u]"
      and first: "batch_columns ae types pos (tuple_slices u) [0..<w] 0 bs = Ok bs1"
      and more: "batch_tuples ae types pos w snapshot page is bs1 = Ok bs'"
      using conv by (auto simp: obind_eq_Ok)
    show ?thesis
    proof (cases "t = u")
      case True
      then show ?thesis using first by blast
    next
      case False
      then show ?thesis using u Cons.IH [OF more] lps(1) Cons.prems(3,4) by simp
    qed
  qed
qed simp

text \<open>A tuple stored with the columns of the old schema, under the schema with one more column.\<close>

definition stored_before :: "pg_schema \<Rightarrow> pg_column \<Rightarrow> pg_schema \<Rightarrow> pg_datum option list \<Rightarrow> heap_tuple_data \<Rightarrow> bool" where
  "stored_before s c s' vs t \<longleftrightarrow>
     row_data s vs = Some (data t) \<and> (\<forall>k < length vs. is_null t k = (vs ! k = None)) \<and>
     s' = pg_schema_new (schema_name s) (columns s @ [c])"

lemma stored_before_columns:
  assumes "stored_before s c s' vs t"
  shows "length vs = num_columns s" and "num_columns s' = Suc (num_columns s)" and "columns s' ! num_columns s = c"
    and "i < num_columns s \<Longrightarrow> columns s' ! i = columns s ! i"
    and "form_cells datum_cell (map type_id (columns s)) vs 0 = Some (data t)"
proof -
  show form: "form_cells datum_cell (map type_id (columns s)) vs 0 = Some (data t)"
    using assms by (simp add: stored_before_def row_data_def)
  show "length vs = num_columns s" using form_cells_length [OF form] by (simp add: num_columns_def)
qed (use assms in \<open>simp_all add: stored_before_def num_columns_def pg_schema_new_def nth_append\<close>)

lemma stored_before_row:
  assumes "stored_before s c s' vs t"
  shows "decode_row t s' =
    obind (walk read_datum (data t) [(type_id c, is_null t (length vs))] (length (data t)))
      (\<lambda>ws. Ok \<lparr>row_columns = map datum_or_null (vs @ ws)\<rparr>)"
proof -
  note cols = stored_before_columns [OF assms]
  have nulls: "is_null t k = (vs ! k = None)" if "k < length vs" for k
    using assms that by (simp add: stored_before_def)
  have "map (\<lambda>i. (type_id (columns s' ! i), is_null t i)) [0..<num_columns s] =
      zip (map type_id (columns s)) (map (\<lambda>v. v = None) vs)"
    using cols nulls by (intro nth_equalityI) (simp_all add: num_columns_def)
  then have "walk_cols t s' [0..<num_columns s'] =
      zip (map type_id (columns s)) (map (\<lambda>v. v = None) vs) @ [(type_id c, is_null t (length vs))]"
    by (simp add: cols walk_cols_def)
  then show ?thesis
    unfolding decode_row_walk
    using datum_walk.walk_form_append [OF cols(5), of "data t" "[]" "[(type_id c, is_null t (length vs))]"]
    by (simp add: obind_assoc del: walk.simps)
qed

text \<open>No page with such a tuple converts, unless the null bit of the new column happens to be clear.\<close>

lemma stored_before_batch:
  assumes "stored_before s c s' vs t" and "\<not> is_null t (length vs)"
    and "page_parse_bytes buf = Ok page" and live: "t \<in> set (live_tuples snapshot page)"
  shows "to_record_batch lib page s' None snapshot \<noteq> Ok batch"
proof
  let ?types = "map type_id (columns s')" and ?pos = "map Some [0..<num_columns s']" and ?n = "length vs"
  note cols = stored_before_columns [OF assms(1)]
  assume "to_record_batch lib page s' None snapshot = Ok batch"
  then obtain bs where "batch_tuples (fixed_append_error lib) ?types ?pos (num_columns s') snapshot page
      [0..<lp_num page] (map column_builder_for (columns s')) = Ok bs"
    by (cases "batch_tuples (fixed_append_error lib) ?types ?pos (num_columns s') snapshot page
          [0..<lp_num page] (map column_builder_for (columns s'))") (simp_all add: to_record_batch_def)
  note each = batch_tuples_each [OF this]
  have "\<exists>bs1 bs2. batch_columns (fixed_append_error lib) ?types ?pos (tuple_slices t) [0..<num_columns s'] 0 bs1 = Ok bs2"
    using parsed_page_pointers [OF assms(3)] live unfolding live_tuples_at by (intro each) simp_all
  then obtain bs1 bs2 where conv: "batch_columns (fixed_append_error lib) ?types ?pos (tuple_slices t)
      ([0..<?n] @ [?n]) 0 bs1 = Ok bs2"
    by (auto simp: cols)
  obtain raw where "parse_and_build raw = Ok t"
    using live_tuple_parsed [OF live [unfolded live_tuples_at]] by blast
  note null = batch_is_null_eq [OF this]
  have "map ((!) ?types) [0..<?n] = map type_id (columns s)"
    using cols by (intro nth_equalityI) (simp_all add: num_columns_def)
  then have "\<exists>bs0. batch_columns (fixed_append_error lib) ?types ?pos (tuple_slices t) [?n] (0 + length (data t)) bs0 = Ok bs2"
    using conv cols(5) assms(1) unfolding tuple_slices_def
    by (intro batch_columns_stored [OF _ _ _ _ null, where vs = vs and rest = "[]"]) (simp_all add: stored_before_def)
  moreover have "?pos ! ?n = Some ?n" "\<not> batch_is_null (has_flag (header t) (info_mask_u16 HasNull)) (null_bitmap t) ?n"
    using assms(2) cols null by (simp_all add: nth_append)
  ultimately show False
    using batch_columns_at_end unfolding tuple_slices_def by (metis add_0 order_refl)
qed

section \<open>Properties\<close>

text \<open>
  C19: After \<open>ALTER TABLE ... ADD COLUMN\<close>, a tuple that was stored before it, with the attributes of the
  old schema only, does not read the new column as its default: the row path reads NULL where the
  tuple happens to have a clear null bit for it and returns a decode error everywhere else, and then no page
  on which such a tuple is visible converts to a record batch.
\<close>

theorem added_column_unreadable:
  assumes "row_data s vs = Some (data t)" and "\<forall>k < length vs. is_null t k = (vs ! k = None)"
    and "s' = pg_schema_new (schema_name s) (columns s @ [c])"
  shows "(if is_null t (length vs) then decode_row t s' = Ok \<lparr>row_columns = map datum_or_null vs @ [D_Null]\<rparr>
     else (\<exists>e. decode_row t s' = Err (DecodeError e)) \<and>
       (page_parse_bytes buf = Ok page \<and> t \<in> set (live_tuples snapshot page) \<longrightarrow>
          to_record_batch lib page s' None snapshot \<noteq> Ok batch))"
proof (cases "is_null t (length vs)")
  case True
  then show ?thesis using stored_before_row [of s c s' vs t] assms by (simp add: stored_before_def datum_or_null_def)
next
  case False
  have before: "stored_before s c s' vs t" using assms by (simp add: stored_before_def)
  obtain e where "read_datum (type_id c) (data t) (length (data t)) = Err (DecodeError e)"
    using read_datum_at_end [of "data t" "length (data t)" "type_id c"] by auto
  then have "\<exists>e. decode_row t s' = Err (DecodeError e)" using False by (simp add: stored_before_row [OF before])
  moreover have "page_parse_bytes buf = Ok page \<and> t \<in> set (live_tuples snapshot page) \<longrightarrow>
      to_record_batch lib page s' None snapshot \<noteq> Ok batch"
    by (intro impI, elim conjE) (rule stored_before_batch [OF before False])
  ultimately show ?thesis using False by (simp only: if_False simp_thms)
qed

theorem added_column_unreadable_witness:
  "\<exists>e. decode_row (sample_tuple [] [5, 0]) (pg_schema_new ''t'' [pg_column_new ''a'' T_Int2 True 0, pg_column_new ''b'' T_Int2 True 0]) =
    Err (DecodeError e)"
proof -
  let ?s = "pg_schema_new ''t'' [pg_column_new ''a'' T_Int2 True 0]" and ?t = "sample_tuple [] [5, 0]"
  have form: "row_data ?s [Some (D_Int2 5)] = Some (data ?t)"
    by (simp add: row_data_def pg_schema_new_def pg_column_new_def datum_cell_def if_type_def padded_cell_def
        pad_len_def stored_bytes_def div_ceil_def u16_bytes_def le_bytes_numeral sample_tuple_def)
  have null: "\<not> is_null ?t k" for k by (simp add: is_null_no_bitmap sample_tuple_def)
  have "\<forall>k < length [Some (D_Int2 5)]. is_null ?t k = ([Some (D_Int2 5)] ! k = None)" using null by simp
  note added = added_column_unreadable [OF form this refl, of "pg_column_new ''b'' T_Int2 True 0", unfolded if_not_P [OF null]]
  from added [THEN conjunct1]
  have "\<exists>e. decode_row ?t (pg_schema_new (schema_name ?s) (columns ?s @ [pg_column_new ''b'' T_Int2 True 0])) =
      Err (DecodeError e)" .
  then show ?thesis by (simp add: pg_schema_new_def)
qed

end
