(* ===== verification/ScanPlans.thy ===== *)
theory ScanPlans
  imports StreamRuns
begin

text \<open>
  Scans made of streams of \<open>src/file/reader.rs\<close>: a relation that is cut into page ranges, one stream for
  each, as a parallel scan does; and the memory of a stream, which holds at most the batches of one bulk
  read whatever it reads.
\<close>

section \<open>Cutting a relation into ranges\<close>

text \<open>The stream of the pages \<open>rng\<close>, run to its end.\<close>

definition range_scan ::
    "('arr, 'batch) arrow_lib \<Rightarrow> ('s \<Rightarrow> usize \<Rightarrow> usize \<Rightarrow> (bytes \<times> usize) pg_result \<times> 's) \<Rightarrow> usize option \<Rightarrow>
     's \<Rightarrow> pg_schema \<Rightarrow> usize list option \<Rightarrow> usize \<Rightarrow> usize \<times> usize \<Rightarrow> 'batch pg_result list pg_result option" where
  "range_scan lib read_bulk threads source s proj n rng =
     for_each (stream_next lib read_bulk) (\<lambda>item items. Ok (items @ [item]))
       (with_page_range (fst rng) (snd rng) (with_pages_per_batch n (into_batch_stream threads source s proj))) []"

text \<open>The ranges between consecutive cuts.\<close>

definition ranges :: "usize list \<Rightarrow> (usize \<times> usize) list" where
  "ranges cuts = zip cuts (tl cuts)"

lemma concat_ranges:
  "sorted (c # cuts) \<Longrightarrow>
    concat (map (\<lambda>r. drop (fst r) (take (snd r) xs)) (ranges (c # cuts))) = drop c (take (last (c # cuts)) xs)"
proof (induction cuts arbitrary: c)
  case (Cons d cuts)
  have le: "c \<le> d" "d \<le> last (d # cuts)" using Cons.prems by auto
  let ?m = "last (d # cuts)"
  have "drop c (take ?m xs) = drop c (take d xs) @ drop d (take ?m xs)"
    using split_left [of "d - c" ?m c xs] le by (cases "length xs \<le> ?m") (auto simp: drop_take)
  then show ?case using Cons.IH [of d] Cons.prems by (simp add: ranges_def)
qed (simp add: ranges_def)

lemma fst_ranges: "rng \<in> set (ranges (c # cuts @ [stop])) \<Longrightarrow> fst rng \<in> set (c # cuts)"
  by (induction cuts arbitrary: c) (auto simp: ranges_def)

context page_source
begin

lemma range_scan_yields:
  assumes "holds source pages" and "map (page_batch lib s proj None) pages = map Ok batches"
    and "fst rng \<le> length pages" and "n * 8192 < 2 ^ 63" and "length pages + (if n = 0 then 128 else n) < 2 ^ 64"
  shows "range_scan lib read_bulk threads source s proj n rng =
    Some (Ok (map Ok (drop (fst rng) (take (snd rng) batches))))"
proof -
  let ?st = "with_page_range (fst rng) (snd rng) (with_pages_per_batch n (into_batch_stream threads source s proj))"
  have "stream_ok lib holds pages batches ?st"
    using assms by (auto simp: stream_ok_def with_page_range_def with_pages_per_batch_def
        into_batch_stream_def record_batch_stream_new_def DEFAULT_PAGES_PER_BATCH_def)
  moreover have "stream_left ?st batches = drop (fst rng) (take (snd rng) batches)"
    by (simp add: stream_left_def with_page_range_def with_pages_per_batch_def
        into_batch_stream_def record_batch_stream_new_def)
  ultimately have "stream_yields lib holds ?st (map Ok (drop (fst rng) (take (snd rng) batches)))"
    unfolding stream_yields_def by metis
  from stream.for_each_yields [OF this, of "\<lambda>item items. Ok (items @ [item])" "[]"] show ?thesis
    by (simp add: range_scan_def ofold_push)
qed

end

section \<open>The memory of a stream\<close>

text \<open>The states a stream goes through, whatever its calls return.\<close>

inductive stream_reach ::
    "('arr, 'batch) arrow_lib \<Rightarrow> ('s \<Rightarrow> usize \<Rightarrow> usize \<Rightarrow> (bytes \<times> usize) pg_result \<times> 's) \<Rightarrow>
     ('s, 'batch) record_batch_stream \<Rightarrow> ('s, 'batch) record_batch_stream \<Rightarrow> bool"
  for lib read_bulk st0 where
  reach_new: "stream_reach lib read_bulk st0 st0"
| reach_next: "stream_reach lib read_bulk st0 st \<Longrightarrow> stream_next lib read_bulk st = Some (result, st') \<Longrightarrow>
     stream_reach lib read_bulk st0 st'"

text \<open>A source that returns at most the pages asked for; \<open>pread\<close> of at most the bytes asked for is enough.\<close>

definition returns_at_most ::
    "('s \<Rightarrow> usize \<Rightarrow> usize \<Rightarrow> (bytes \<times> usize) pg_result \<times> 's) \<Rightarrow> bool" where
  "returns_at_most read_bulk \<longleftrightarrow>
     (\<forall>source i n bs k source'. read_bulk source i n = (Ok (bs, k), source') \<longrightarrow> k \<le> n)"

lemma bulk_loop_bounded:
  assumes reads: "\<forall>h n off got. pread fs h n off = Some got \<longrightarrow> length got \<le> n"
  shows "bulk_loop fs data_dir e i buf r = (Ok out, r') \<Longrightarrow> length out \<le> length buf + (e - i) * 8192"
proof (induction "e - i" arbitrary: i buf r rule: less_induct)
  case less
  show ?case
  proof (cases "i < e")
    case False
    then show ?thesis using less.prems by (simp add: bulk_loop.simps)
  next
    case i: True
    define tr where "tr = min (e - i) (PAGES_PER_SEGMENT - i mod PAGES_PER_SEGMENT)"
    let ?off = "i mod PAGES_PER_SEGMENT * PAGE_BUFFER_SIZE"
    show ?thesis
    proof (cases "\<exists>h r1 got. segment_file fs data_dir r i = (Ok (Some h), r1) \<and> pread fs h (tr * PAGE_BUFFER_SIZE) ?off = Some got")
      case True
      then obtain h r1 got where opened: "segment_file fs data_dir r i = (Ok (Some h), r1)"
        and got: "pread fs h (tr * PAGE_BUFFER_SIZE) ?off = Some got" by blast
      let ?k = "length got div 8192"
      have "length got \<le> tr * 8192" using reads got by (auto simp: PAGE_BUFFER_SIZE_value)
      then have "?k \<le> tr" using div_le_mono [of "length got" "tr * 8192" 8192] by simp
      then have k: "?k \<le> e - i" using tr_def by linarith
      have cut: "length (buf @ take (?k * 8192) got) = length buf + ?k * 8192"
        using div_times_less_eq_dividend [of "length got" 8192] by (simp add: min.absorb2)
      have whole: "a + q * 8192 + (e - (i + q)) * 8192 = a + (e - i) * 8192" if "q \<le> e - i" for a q :: nat
        using that by linarith
      note step = bulk_loop_read [OF i opened got [unfolded tr_def], of buf, folded tr_def]
      show ?thesis
      proof (cases "got = [] \<or> length got < tr * 8192")
        case True
        then have "out = buf \<or> out = buf @ take (?k * 8192) got"
          using less.prems step by (auto split: if_splits)
        then show ?thesis using cut k by (metis add.commute le_add1 mult_le_mono1 nat_add_left_cancel_le)
      next
        case False
        then have rec: "bulk_loop fs data_dir e (i + ?k) (buf @ take (?k * 8192) got) r1 = (Ok out, r')"
          using less.prems step by simp
        have "0 < tr" using i by (simp add: tr_def PAGES_PER_SEGMENT_def PAGE_BUFFER_SIZE_def)
        then have "0 < ?k" using False by (simp add: div_greater_zero_iff not_less)
        then have "e - (i + ?k) < e - i" using i by linarith
        from less.hyps [OF this rec] show ?thesis unfolding cut whole [OF k] .
      qed
    next
      case False
      then have "out = buf"
        using less.prems i by (auto simp: bulk_loop.simps [of fs data_dir e i] Let_def tr_def
            split: prod.splits outcome.splits option.splits)
      then show ?thesis by simp
    qed
  qed
qed

lemma read_pages_bulk_bounded:
  assumes "\<forall>h n off got. pread fs h n off = Some got \<longrightarrow> length got \<le> n"
  shows "returns_at_most (read_pages_bulk fs data_dir)"
proof (unfold returns_at_most_def, intro allI impI)
  fix r i n bs k r'
  assume ok: "read_pages_bulk fs data_dir r i n = (Ok (bs, k), r')"
  show "k \<le> n"
  proof (cases "n = 0")
    case False
    then obtain r1 where "bulk_loop fs data_dir (i + n) i [] r = (Ok bs, r1)" and k: "k = length bs div 8192"
      using ok by (auto simp: read_pages_bulk_def PAGE_BUFFER_SIZE_value split: if_splits prod.splits outcome.splits)
    from bulk_loop_bounded [OF assms this(1)] have "length bs \<le> n * 8192" by simp
    then show ?thesis using div_le_mono [of "length bs" "n * 8192" 8192] k by simp
  qed (use ok in \<open>simp add: read_pages_bulk_def\<close>)
qed

lemma push_batches_length:
  "length (fst (push_batches lib s proj snapshot bulk is buf)) \<le> length buf + length is"
proof (induction "is" arbitrary: buf)
  case (Cons i "is")
  show ?case
    using Cons.IH [of "buf @ [b]" for b] by (auto simp: Let_def split: outcome.split)
qed simp

text \<open>What holds of a stream on the pages from \<open>start\<close> to \<open>stop\<close>, with \<open>n\<close> pages in a bulk read.\<close>

definition stream_bounds :: "usize \<Rightarrow> usize \<Rightarrow> usize \<Rightarrow> ('s, 'batch) record_batch_stream \<Rightarrow> bool" where
  "stream_bounds start stop n st \<longleftrightarrow>
     pages_per_batch st = n \<and> max_page_index st = Some stop \<and> start \<le> next_page_index st \<and> next_page_index st \<le> stop \<and>
     length (buffer st) \<le> n"

lemma fill_buffer_bounds:
  assumes few: "returns_at_most read_bulk" and st: "stream_bounds start stop n st" and empty: "buffer st = []"
  shows "stream_bounds start stop n (snd (fill_buffer lib read_bulk st))"
proof -
  let ?want = "min n (stop - next_page_index st)"
  have want: "(case max_page_index st of Some m \<Rightarrow> min (pages_per_batch st) (m - next_page_index st)
      | None \<Rightarrow> pages_per_batch st) = ?want" using st by (simp add: stream_bounds_def)
  show ?thesis
  proof (cases "read_bulk (chunk_source st) (next_page_index st) ?want")
    case (Pair result source)
    show ?thesis
    proof (cases result)
      case (Ok read)
      obtain bulk k where read: "read = (bulk, k)" by (cases read)
      have k: "k \<le> ?want" using few Pair unfolding returns_at_most_def Ok read by blast
      let ?push = "push_batches lib (stream_schema st) (projection st) (stream_snapshot st) bulk [0..<k] []"
      have "length (fst ?push) \<le> k" using push_batches_length [of lib _ _ _ bulk "[0..<k]" "[]"] by simp
      then have "length (fst ?push) \<le> n" using k by simp
      moreover have "next_page_index st + k \<le> stop" using k st by (auto simp: stream_bounds_def)
      ultimately show ?thesis
        using st empty Pair Ok read want
        by (auto simp: fill_buffer_def Let_def stream_bounds_def split: prod.splits outcome.splits)
    qed (use st empty Pair want in \<open>auto simp: fill_buffer_def Let_def stream_bounds_def\<close>)
  qed
qed

lemma stream_next_bounds:
  assumes few: "returns_at_most read_bulk" and st: "stream_bounds start stop n st"
    and step: "stream_next lib read_bulk st = Some (result, st')"
  shows "stream_bounds start stop n st'"
proof (cases "buffer st")
  case (Cons b bs)
  then show ?thesis using st step by (auto simp: stream_next_def pop_front_def stream_bounds_def)
next
  case Nil
  show ?thesis
  proof (cases "exhausted st")
    case True
    then show ?thesis using st step Nil by (simp add: stream_next_def pop_front_def)
  next
    case False
    have "stream_bounds start stop n (snd (fill_buffer lib read_bulk st))"
      by (rule fill_buffer_bounds [OF few st Nil])
    then show ?thesis
      using step Nil False by (auto simp: stream_next_def pop_front_def stream_bounds_def
          split: prod.splits outcome.splits list.splits)
  qed
qed

lemma stream_next_returns: "\<exists>result st'. stream_next lib read_bulk st = Some (result, st')"
  by (auto simp: stream_next_def split: prod.splits option.splits outcome.splits)

lemma stream_reach_bounds:
  "stream_reach lib read_bulk st0 st \<Longrightarrow> returns_at_most read_bulk \<Longrightarrow> stream_bounds start stop n st0 \<Longrightarrow>
    stream_bounds start stop n st"
  by (induction rule: stream_reach.induct) (auto intro: stream_next_bounds)

section \<open>Properties\<close>

text \<open>
  C16: A relation can be read in parallel by ranges: for any cuts that start at 0, grow, and end at or
  behind the last page, the streams of the ranges between them, each with its own reader, return, and
  their batches one after the other are what \<open>read_all_to_batches\<close> returns: no page is lost or read twice
  at a cut, wherever the segment boundaries lie and whatever each stream reads at a time.
\<close>

theorem ranges_partition_relation:
  assumes "relation_holds fs dir r pages" and "map (page_batch lib s proj None) pages = map Ok batches"
    and "sorted (0 # cuts)" and "\<forall>c \<in> set cuts. c \<le> length pages" and "length pages \<le> stop"
    and "n * 8192 < 2 ^ 63" and "length pages + (if n = 0 then 128 else n) < 2 ^ 64" and "length pages + 128 < 2 ^ 64"
  shows "\<exists>parts. map (range_scan lib (read_pages_bulk fs (Ok dir)) threads r s proj n) (ranges (0 # cuts @ [stop])) =
      map (\<lambda>part. Some (Ok (map Ok part))) parts \<and>
    read_all_to_batches lib (read_pages_bulk fs (Ok dir)) threads r s proj = Some (Ok (concat parts))"
proof (intro exI conjI)
  let ?part = "\<lambda>rng. drop (fst rng) (take (snd rng) batches)"
  let ?parts = "map ?part (ranges (0 # cuts @ [stop]))"
  have starts: "fst rng \<le> length pages" if "rng \<in> set (ranges (0 # cuts @ [stop]))" for rng
    using fst_ranges [OF that] assms(4) by auto
  show "map (range_scan lib (read_pages_bulk fs (Ok dir)) threads r s proj n) (ranges (0 # cuts @ [stop])) =
      map (\<lambda>part. Some (Ok (map Ok part))) ?parts"
    using table_file.range_scan_yields [OF assms(1,2) starts assms(6,7)] by simp
  have len: "length pages = length batches" by (rule map_eq_imp_length_eq [OF assms(2)])
  have "sorted (0 # cuts @ [stop])" using assms(3-5) by (auto simp: sorted_append intro: order_trans)
  from concat_ranges [OF this, of batches] have "concat ?parts = batches" using assms(5) len by simp
  moreover have "read_all_to_batches lib (read_pages_bulk fs (Ok dir)) threads r s proj = Some (Ok batches)"
    by (rule table_file.read_all_yields [OF assms(1,2,8)])
  ultimately show "read_all_to_batches lib (read_pages_bulk fs (Ok dir)) threads r s proj = Some (Ok (concat ?parts))"
    by simp
qed

theorem ranges_partition_relation_witness:
  "\<exists>parts. map (range_scan log_lib (read_pages_bulk two_pages_fs (Ok ''/d'')) None sample_reader sample_schema
      (Some [2, 1]) 3) (ranges [0, 1, 1, 7]) = map (\<lambda>part. Some (Ok (map Ok part))) parts \<and>
    read_all_to_batches log_lib (read_pages_bulk two_pages_fs (Ok ''/d'')) None sample_reader sample_schema
      (Some [2, 1]) = Some (Ok (concat parts))"
  using ranges_partition_relation [OF two_pages_hold, of log_lib sample_schema "Some [2, 1]"
      "[sample_batch, sample_batch]" "[1, 1]" 7 3 None]
  by (simp add: sample_page_batch [simplified])

text \<open>
  C17: A stream on the pages from \<open>start\<close> to \<open>stop\<close> holds at most the batches of one bulk read and never
  leaves its range, in every state its calls can bring about: whatever the files hold, whether or not pages parse
  and convert, and after errors.  The operating system only has to return at most the bytes that a read
  asks for.
\<close>

theorem stream_memory_bounded:
  assumes "\<forall>h k off got. pread fs h k off = Some got \<longrightarrow> length got \<le> k" and "start \<le> stop"
    and "stream_reach lib (read_pages_bulk fs data_dir)
      (with_page_range start stop (with_pages_per_batch n (into_batch_stream threads r s proj))) st"
  shows "length (buffer st) \<le> (if n = 0 then 128 else n) \<and> start \<le> next_page_index st \<and> next_page_index st \<le> stop"
proof -
  let ?n = "if n = 0 then 128 else n"
  let ?st0 = "with_page_range start stop (with_pages_per_batch n (into_batch_stream threads r s proj))"
  have "stream_bounds start stop ?n ?st0"
    using assms(2) by (simp add: stream_bounds_def with_page_range_def with_pages_per_batch_def into_batch_stream_def
        record_batch_stream_new_def DEFAULT_PAGES_PER_BATCH_def)
  from stream_reach_bounds [OF assms(3) read_pages_bulk_bounded [OF assms(1)] this] show ?thesis
    by (simp add: stream_bounds_def)
qed

theorem stream_memory_bounded_witness:
  "length (buffer (snd (the (stream_next log_lib (read_pages_bulk two_pages_fs (Ok ''/d''))
    (with_page_range 0 9 (with_pages_per_batch 4 (into_batch_stream None sample_reader sample_schema (Some [2, 1])))))))) \<le> 4"
proof -
  let ?read = "read_pages_bulk two_pages_fs (Ok ''/d'')"
  let ?st = "with_page_range 0 9 (with_pages_per_batch 4 (into_batch_stream None sample_reader sample_schema (Some [2, 1])))"
  have reads: "\<forall>h k off got. pread two_pages_fs h k off = Some got \<longrightarrow> length got \<le> k" by (auto simp: disk_def)
  obtain result st' where run: "stream_next log_lib ?read ?st = Some (result, st')"
    using stream_next_returns by blast
  from stream_memory_bounded [OF reads _ reach_next [OF reach_new run]] show ?thesis using run by simp
qed

end
