(* ===== verification/ArrowView.thy ===== *)
theory ArrowView
  imports ArrowTypes TableRuns
begin

text \<open>
  Record batches as a caller reads them, and the batches of the system catalogs: the catalogs have plain
  columns only, so a catalog page converts as soon as its visible tuples decode.
\<close>

section \<open>Reading a batch\<close>

text \<open>
  What a caller asks of the \<open>arrow\<close> crate: \<open>num_rows\<close>, the fields of \<open>schema\<close>, the columns;
  \<open>downcast_ref\<close> to \<open>StringArray\<close> (a null flag and a value for each slot) and to \<open>UInt32Array\<close>; the kernels
  \<open>eq\<close> against a scalar and \<open>filter_record_batch\<close>.
\<close>

record ('arr, 'batch) arrow_view =
  batch_num_rows :: "'batch \<Rightarrow> usize"
  batch_fields :: "'batch \<Rightarrow> arrow_field list"
  batch_arrays :: "'batch \<Rightarrow> 'arr list"
  string_slots :: "'arr \<Rightarrow> (bool \<times> string) list option"
  u32_slots :: "'arr \<Rightarrow> u32 list option"
  eq_u32 :: "'arr \<Rightarrow> u32 \<Rightarrow> (string, 'arr) outcome"
  filter_batch :: "'batch \<Rightarrow> 'arr \<Rightarrow> (string, 'batch) outcome"

text \<open>
  The documented behaviour of the crate on the arrays of builders.  \<open>try_new\<close> accepts columns of the types
  and number of the fields that have one length; the batch gives back what it was made of; a string array
  and an array of \<open>u32\<close> have the appended values; an empty schema has an empty batch.
\<close>

definition builder_arrays :: "('arr, 'batch) arrow_lib \<Rightarrow> (builder_kind \<times> arrow_cell list) list \<Rightarrow> 'arr list" where
  "builder_arrays lib cols = map (\<lambda>(k, cs). finish_array lib k cs) cols"

definition nullable_field :: "arrow_field \<Rightarrow> bool" where
  "nullable_field f = (case f of Field name dt nul \<Rightarrow> nul)"

definition field_name :: "arrow_field \<Rightarrow> string" where
  "field_name f = (case f of Field name dt nul \<Rightarrow> name)"

definition makes_batches :: "('arr, 'batch) arrow_lib \<Rightarrow> ('arr, 'batch) arrow_view \<Rightarrow> bool" where
  "makes_batches lib view \<longleftrightarrow>
     (\<forall>fields cols n. cols \<noteq> [] \<longrightarrow> map field_type fields = map (\<lambda>c. builder_data_type (fst c)) cols \<longrightarrow>
        list_all nullable_field fields \<longrightarrow> (\<forall>c \<in> set cols. length (snd c) = n) \<longrightarrow>
        (\<exists>batch. try_new lib fields (builder_arrays lib cols) = Ok batch \<and> batch_num_rows view batch = n \<and>
           batch_fields view batch = fields \<and> batch_arrays view batch = builder_arrays lib cols)) \<and>
     (\<exists>batch. try_new_empty lib [] = Ok batch \<and> batch_num_rows view batch = 0 \<and> batch_arrays view batch = [])"

definition reads_arrays :: "('arr, 'batch) arrow_lib \<Rightarrow> ('arr, 'batch) arrow_view \<Rightarrow> bool" where
  "reads_arrays lib view \<longleftrightarrow>
     (\<forall>k cs. k = B_Utf8 \<or> k = B_Name \<longrightarrow>
        (\<exists>slots. string_slots view (finish_array lib k cs) = Some slots \<and> length slots = length cs \<and>
           (\<forall>i < length cs. (fst (slots ! i) \<longleftrightarrow> cs ! i = None) \<and>
              (\<forall>v. cs ! i = Some (AV_Str v) \<longrightarrow> snd (slots ! i) = v)))) \<and>
     (\<forall>cs. \<exists>slots. u32_slots view (finish_array lib B_Oid cs) = Some slots \<and> length slots = length cs \<and>
        (\<forall>i v. i < length cs \<longrightarrow> cs ! i = Some (AV_UInt32 v) \<longrightarrow> slots ! i = v))"

text \<open>An \<open>eq\<close> mask of a column of a batch selects some of its rows.\<close>

definition filters_batches :: "('arr, 'batch) arrow_lib \<Rightarrow> ('arr, 'batch) arrow_view \<Rightarrow> bool" where
  "filters_batches lib view \<longleftrightarrow>
     (\<forall>batch i v. i < length (batch_arrays view batch) \<longrightarrow> u32_slots view (batch_arrays view batch ! i) \<noteq> None \<longrightarrow>
        (\<exists>mask filtered. eq_u32 view (batch_arrays view batch ! i) v = Ok mask \<and>
           filter_batch view batch mask = Ok filtered \<and>
           length (batch_arrays view filtered) = length (batch_arrays view batch) \<and>
           (\<forall>j < length (batch_arrays view batch).
              (string_slots view (batch_arrays view filtered ! j) = None) =
              (string_slots view (batch_arrays view batch ! j) = None))))"

section \<open>Catalog pages\<close>

text \<open>The types of the fixed catalog columns, which convert to Arrow whatever value they hold.\<close>

definition plain_types :: "pg_type_id set" where
  "plain_types = {T_Oid, T_Xid, T_Name, T_Bool, T_Char, T_Int2, T_Int4, T_Float4}"

definition plain_value :: "builder_kind \<Rightarrow> pg_datum \<Rightarrow> arrow_cell" where
  "plain_value k d = (case cell_of_datum k d of Ok c \<Rightarrow> c | _ \<Rightarrow> None)"

lemma plain_decoded:
  assumes "decode_datum t buf offset = Ok (d, n)" and "t \<in> plain_types"
  shows "cell_of_datum k d = Ok (plain_value k d)"
proof -
  have "datum_arrow_type d = arrow_type t"
    using assms decode_payload_arrow extract_payload_fits
    by (fastforce simp: decode_datum_via_extract plain_types_def info_arms pg_type_info.defs)
  then show ?thesis using assms(2) by (cases d) (auto simp: plain_types_def plain_value_def)
qed

definition plain_cell :: "pg_schema \<Rightarrow> heap_tuple_data \<Rightarrow> usize \<Rightarrow> arrow_cell" where
  "plain_cell s t i = (case decode_row t s of Ok r \<Rightarrow> plain_value (column_kind s i) (row_columns r ! i) | _ \<Rightarrow> None)"

lemma plain_row_cells:
  assumes "set (map type_id (columns s)) \<subseteq> plain_types" and "decode_row t s = Ok r"
    and "\<forall>i \<in> set proj. i < num_columns s"
  shows "row_cells s proj t (plain_cell s t)"
proof -
  obtain vs where vs: "walk read_datum (data t) (walk_cols t s [0..<num_columns s]) 0 = Ok vs"
    and r: "\<forall>i < num_columns s. datum_or_null (vs ! i) = row_columns r ! i"
    using decode_row_prefix [OF assms(2), of "num_columns s"] by auto
  have "cell_of_datum k (row_columns r ! i) = Ok (plain_value k (row_columns r ! i))" if i: "i < num_columns s" for i k
  proof (cases "vs ! i")
    case None
    then have "row_columns r ! i = D_Null" using r i by (auto simp: datum_or_null_def)
    then show ?thesis by (simp add: plain_value_def)
  next
    case (Some d)
    then obtain o1 n where "decode_datum (type_id (columns s ! i)) (data t) o1 = Ok (d, n)"
      using walk_reads [OF vs, of i] i by (auto simp: walk_cols_def)
    moreover have "type_id (columns s ! i) \<in> plain_types"
      using assms(1) i by (auto simp: num_columns_def)
    ultimately have "cell_of_datum k d = Ok (plain_value k d)" by (rule plain_decoded)
    moreover have "row_columns r ! i = d" using r i Some by (auto simp: datum_or_null_def)
    ultimately show ?thesis by simp
  qed
  then show ?thesis using assms(2,3) by (simp add: row_cells_def plain_cell_def)
qed

text \<open>A schema of nullable columns of plain types, as \<open>catalog_schema\<close> makes them.\<close>

definition plain_schema :: "pg_schema \<Rightarrow> bool" where
  "plain_schema s \<longleftrightarrow> columns s \<noteq> [] \<and> set (map type_id (columns s)) \<subseteq> plain_types \<and> list_all nullable (columns s)"

lemma class_schema_plain: "plain_schema pg_class_catalog_schema"
  by (simp add: plain_schema_def pg_class_catalog_schema_def catalog_schema_def pg_schema_new_def pg_column_new_def
      catalog_tables plain_types_def)

lemma attribute_schema_plain: "plain_schema pg_attribute_catalog_schema"
  by (simp add: plain_schema_def pg_attribute_catalog_schema_def catalog_schema_def pg_schema_new_def pg_column_new_def
      catalog_tables plain_types_def)

text \<open>The batch of a page of such a relation: a column of cells for each projected column.\<close>

definition plain_batch ::
    "('arr, 'batch) arrow_lib \<Rightarrow> ('arr, 'batch) arrow_view \<Rightarrow> pg_schema \<Rightarrow> usize list \<Rightarrow> heap_tuple_data list \<Rightarrow>
     'batch \<Rightarrow> bool" where
  "plain_batch lib view s proj ts batch \<longleftrightarrow>
     batch_num_rows view batch = length ts \<and>
     batch_fields view batch = map (\<lambda>i. to_arrow_field (columns s ! i)) proj \<and>
     batch_arrays view batch = map (\<lambda>i. finish_array lib (column_kind s i) (map (\<lambda>t. plain_cell s t i) ts)) proj"

lemma plain_page_converts:
  assumes page: "page_parse_bytes buf = Ok page" and s: "plain_schema s" and lib: "makes_batches lib view"
    and ae: "accepts_exact (fixed_append_error lib)"
    and proj: "proj \<noteq> []" "distinct proj" "\<forall>i \<in> set proj. i < num_columns s"
    and rows: "\<forall>t \<in> set (live_tuples snapshot page). \<exists>r. decode_row t s = Ok r"
  shows "\<exists>batch. to_record_batch lib page s (Some proj) snapshot = Ok batch \<and>
    plain_batch lib view s proj (live_tuples snapshot page) batch"
proof -
  let ?ts = "live_tuples snapshot page"
  let ?cols = "map (\<lambda>i. (column_kind s i, map (\<lambda>t. plain_cell s t i) ?ts)) proj"
  let ?fields = "map (\<lambda>i. to_arrow_field (columns s ! i)) proj"
  have cells: "\<forall>t \<in> set ?ts. row_cells s proj t (plain_cell s t)"
    using rows plain_row_cells proj(3) s by (auto simp: plain_schema_def)
  have "projected_cells proj (plain_cell s) ?ts k = map (\<lambda>t. plain_cell s t (proj ! k)) ?ts" if "k < length proj" for k
    using proj(2) that by (auto simp: projected_cells_def in_set_conv_nth nth_eq_iff_index_eq)
  then have "map (\<lambda>k. finish_array lib (column_kind s (proj ! k)) (projected_cells proj (plain_cell s) ?ts k)) [0..<length proj] =
      builder_arrays lib ?cols"
    by (intro nth_equalityI) (simp_all add: builder_arrays_def)
  then have conv: "to_record_batch lib page s (Some proj) snapshot =
      map_err ArrowConversionFailed (try_new lib ?fields (builder_arrays lib ?cols))"
    using to_record_batch_live [OF proj(1,3) ae _ _ cells] parsed_page_pointers [OF page] by simp
  have "\<not> unconvertible (type_id (columns s ! i))" if "i \<in> set proj" for i
  proof -
    have "type_id (columns s ! i) \<in> plain_types"
      using s that proj(3) by (auto simp: plain_schema_def num_columns_def)
    then show ?thesis
      by (auto simp: plain_types_def unconvertible_def info_arms pg_type_info.defs)
  qed
  then have "map field_type ?fields = map (\<lambda>c. builder_data_type (fst c)) ?cols"
    by (auto simp: column_type_agrees [symmetric])
  moreover have "list_all nullable_field ?fields"
    using s proj(3) by (auto simp: plain_schema_def list_all_iff nullable_field_def to_arrow_field_def num_columns_def)
  moreover have "\<forall>c \<in> set ?cols. length (snd c) = length ?ts" by auto
  moreover have "?cols \<noteq> []" using proj(1) by simp
  ultimately obtain batch where "try_new lib ?fields (builder_arrays lib ?cols) = Ok batch"
    "batch_num_rows view batch = length ?ts" "batch_fields view batch = ?fields"
    "batch_arrays view batch = builder_arrays lib ?cols"
    using lib unfolding makes_batches_def by blast
  then show ?thesis unfolding conv by (auto simp: plain_batch_def builder_arrays_def comp_def)
qed

lemma plain_page_converts_all:
  assumes "page_parse_bytes buf = Ok page" and "plain_schema s" and "makes_batches lib view"
    and "accepts_exact (fixed_append_error lib)"
    and "\<forall>t \<in> set (live_tuples snapshot page). \<exists>r. decode_row t s = Ok r"
  shows "\<exists>batch. to_record_batch lib page s None snapshot = Ok batch \<and>
    plain_batch lib view s [0..<num_columns s] (live_tuples snapshot page) batch"
proof -
  have "columns s \<noteq> []" using assms(2) by (simp add: plain_schema_def)
  then have "to_record_batch lib page s None snapshot = to_record_batch lib page s (Some [0..<num_columns s]) snapshot"
    by (rule to_record_batch_all_columns)
  moreover have "[0..<num_columns s] \<noteq> []" using \<open>columns s \<noteq> []\<close> by (simp add: num_columns_def)
  ultimately show ?thesis
    using plain_page_converts [OF assms(1-4), of "[0..<num_columns s]" snapshot] assms(5) by simp
qed

text \<open>What a test looks at: the string column and the OID column of a catalog.\<close>

lemma plain_batch_strings:
  assumes "plain_batch lib view s proj ts batch" and "reads_arrays lib view" and "k < length proj"
    and "column_kind s (proj ! k) = B_Name"
  shows "\<exists>slots. string_slots view (batch_arrays view batch ! k) = Some slots \<and> length slots = length ts \<and>
    (\<forall>i < length ts. \<forall>v. plain_cell s (ts ! i) (proj ! k) = Some (AV_Str v) \<longrightarrow> slots ! i = (False, v))"
proof -
  let ?cs = "map (\<lambda>t. plain_cell s t (proj ! k)) ts"
  obtain slots where slots: "string_slots view (finish_array lib B_Name ?cs) = Some slots" "length slots = length ?cs"
    "\<forall>i < length ?cs. (fst (slots ! i) \<longleftrightarrow> ?cs ! i = None) \<and> (\<forall>v. ?cs ! i = Some (AV_Str v) \<longrightarrow> snd (slots ! i) = v)"
    using assms(2) [unfolded reads_arrays_def, THEN conjunct1, rule_format, of B_Name ?cs] by blast
  moreover have "batch_arrays view batch ! k = finish_array lib B_Name ?cs"
    using assms(1,3,4) by (simp add: plain_batch_def)
  ultimately show ?thesis by (intro exI [of _ slots]) (auto intro: prod_eqI)
qed

lemma plain_batch_oids:
  assumes "plain_batch lib view s proj ts batch" and "reads_arrays lib view" and "k < length proj"
    and "column_kind s (proj ! k) = B_Oid"
  shows "\<exists>slots. u32_slots view (batch_arrays view batch ! k) = Some slots \<and> length slots = length ts \<and>
    (\<forall>i < length ts. \<forall>v. plain_cell s (ts ! i) (proj ! k) = Some (AV_UInt32 v) \<longrightarrow> slots ! i = v)"
proof -
  let ?cs = "map (\<lambda>t. plain_cell s t (proj ! k)) ts"
  obtain slots where slots: "u32_slots view (finish_array lib B_Oid ?cs) = Some slots" "length slots = length ?cs"
    "\<forall>i v. i < length ?cs \<longrightarrow> ?cs ! i = Some (AV_UInt32 v) \<longrightarrow> slots ! i = v"
    using assms(2) [unfolded reads_arrays_def, THEN conjunct2, rule_format, of ?cs] by blast
  moreover have "batch_arrays view batch ! k = finish_array lib B_Oid ?cs"
    using assms(1,3,4) by (simp add: plain_batch_def)
  ultimately show ?thesis by (intro exI [of _ slots]) auto
qed

section \<open>Rows of \<open>pg_class\<close>\<close>

text \<open>A tuple that is a \<open>pg_class\<close> row with a name and an OID.\<close>

definition class_row :: "heap_tuple_data \<Rightarrow> bool" where
  "class_row t \<longleftrightarrow>
     (case pg_class_from_row t pg_class_catalog_schema of
        Ok c \<Rightarrow> relname c \<noteq> [] \<and> class_oid c \<noteq> 0 | _ \<Rightarrow> False)"

lemma class_row_cells:
  assumes "class_row t"
  shows "\<exists>r. decode_row t pg_class_catalog_schema = Ok r"
    and "\<exists>v. plain_cell pg_class_catalog_schema t 1 = Some (AV_Str v) \<and> v \<noteq> []"
    and "\<exists>v. plain_cell pg_class_catalog_schema t 0 = Some (AV_UInt32 v) \<and> v \<noteq> 0"
proof -
  obtain r where r: "decode_row t pg_class_catalog_schema = Ok r"
    and c: "relname (pg_class_of (map Some (row_columns r))) \<noteq> []" "class_oid (pg_class_of (map Some (row_columns r))) \<noteq> 0"
    using assms from_row_via_decode_row
    by (auto simp: class_row_def outcome_simps split: outcome.splits)
  have "length (row_columns r) = 31"
    using r by (auto simp: decode_row_walk outcome_simps walk_cols_def class_columns dest!: walk_length)
  then have "as_name_str (Some (row_columns r ! 1)) \<noteq> []" "as_u32 (Some (row_columns r ! 0)) \<noteq> 0"
    using c by (simp_all add: pg_class_of_def)
  then show "\<exists>r. decode_row t pg_class_catalog_schema = Ok r"
    and "\<exists>v. plain_cell pg_class_catalog_schema t 1 = Some (AV_Str v) \<and> v \<noteq> []"
    and "\<exists>v. plain_cell pg_class_catalog_schema t 0 = Some (AV_UInt32 v) \<and> v \<noteq> 0"
    using r by (auto simp: plain_cell_def plain_value_def as_name_str_def as_u32_def split: pg_datum.splits)
qed

section \<open>A library that keeps the appended values\<close>

definition view_lib ::
    "(builder_kind \<times> arrow_cell list, arrow_field list \<times> (builder_kind \<times> arrow_cell list) list) arrow_lib" where
  "view_lib =
     \<lparr>fixed_append_error = fixed_append_error log_lib, finish_array = Pair,
      try_new = (\<lambda>fields arrs. if map field_type fields = map (\<lambda>c. builder_data_type (fst c)) arrs then Ok (fields, arrs)
                              else Err ''column types must match schema types''),
      try_new_empty = (\<lambda>fields. Ok (fields, []))\<rparr>"

definition log_view ::
    "(builder_kind \<times> arrow_cell list, arrow_field list \<times> (builder_kind \<times> arrow_cell list) list) arrow_view" where
  "log_view =
     \<lparr>batch_num_rows = (\<lambda>b. case snd b of [] \<Rightarrow> 0 | c # _ \<Rightarrow> length (snd c)),
      batch_fields = fst, batch_arrays = snd,
      string_slots = (\<lambda>c. if fst c = B_Utf8 \<or> fst c = B_Name
        then Some (map (\<lambda>v. (v = None, case v of Some (AV_Str s) \<Rightarrow> s | _ \<Rightarrow> [])) (snd c)) else None),
      u32_slots = (\<lambda>c. if fst c = B_Oid
        then Some (map (\<lambda>v. case v of Some (AV_UInt32 x) \<Rightarrow> x | _ \<Rightarrow> 0) (snd c)) else None),
      eq_u32 = (\<lambda>c x. Ok (B_Bool, map (map_option (\<lambda>v. AV_Bool (v = AV_UInt32 x))) (snd c))),
      filter_batch = (\<lambda>b mask. Ok (fst b, map (\<lambda>c. (fst c, map fst (filter (\<lambda>v. snd v = Some (AV_Bool True))
                                                       (zip (snd c) (snd mask))))) (snd b)))\<rparr>"

lemma view_lib_exact: "accepts_exact (fixed_append_error view_lib)"
  using log_lib_exact by (simp add: view_lib_def)

lemma view_lib_makes: "makes_batches view_lib log_view"
proof -
  have arrays: "builder_arrays view_lib cols = cols" for cols
    by (simp add: builder_arrays_def view_lib_def)
  show ?thesis
    unfolding makes_batches_def arrays
    by (auto simp: view_lib_def log_view_def neq_Nil_conv)
qed

lemma view_lib_reads: "reads_arrays view_lib log_view"
  by (auto simp: reads_arrays_def view_lib_def log_view_def)

lemma view_lib_filters: "filters_batches view_lib log_view"
  by (auto simp: filters_batches_def log_view_def)

end
