(* ===== verification/PageTests.thy ===== *)
theory PageTests
  imports ArrowView
begin

text \<open>
  The tests of \<open>src/heap/page.rs\<close>, on any cluster: each test is translated as it stands, with its
  assertions, and the theorems say on which files it passes.  A failed assertion and an \<open>unwrap\<close> of an
  error are panics; what the tests print is left out.
\<close>

section \<open>The tests\<close>

definition assert_that :: "bool \<Rightarrow> unit pg_result" where
  "assert_that b = (if b then Ok () else Panic)"

lemma assert_that_eq [simp]: "assert_that True = Ok ()" "assert_that False = Panic"
  by (simp_all add: assert_that_def)

lemma assert_that_Ok: "assert_that b = Ok () \<longleftrightarrow> b"
  by (simp add: assert_that_def)

text \<open>The first lines of a test: page 0 of \<open>pg_class\<close> of the database 16384.\<close>

definition class_page :: "'h file_system \<Rightarrow> (string, string) outcome \<Rightarrow> heap_page_data pg_result" where
  "class_page fs data_dir =
     obind (unwrap (get_page_reader (table_file_reader_new 16384 (unat PG_CLASS_RELATION_OID)))) (\<lambda>page_reader.
       unwrap (fst (get_page_by_index fs data_dir page_reader 0)))"

definition test_page_to_record_batch_all_columns ::
    "('arr, 'batch) arrow_lib \<Rightarrow> ('arr, 'batch) arrow_view \<Rightarrow> 'h file_system \<Rightarrow> (string, string) outcome \<Rightarrow>
     unit pg_result" where
  "test_page_to_record_batch_all_columns lib view fs data_dir =
     (let s = pg_class_catalog_schema in
      obind (class_page fs data_dir) (\<lambda>page.
      obind (unwrap (to_record_batch lib page s None None)) (\<lambda>batch.
      obind (assert_that (0 < batch_num_rows view batch)) (\<lambda>_.
      obind (assert_that (length (batch_arrays view batch) = num_columns s)) (\<lambda>_.
      obind (index (batch_arrays view batch) 1) (\<lambda>col.
      obind (unwrap_opt (string_slots view col)) (\<lambda>relname_arr.
        assert_that (0 < length relname_arr \<and> snd (relname_arr ! 0) \<noteq> []))))))))"

definition test_page_to_record_batch_projected ::
    "('arr, 'batch) arrow_lib \<Rightarrow> ('arr, 'batch) arrow_view \<Rightarrow> 'h file_system \<Rightarrow> (string, string) outcome \<Rightarrow>
     unit pg_result" where
  "test_page_to_record_batch_projected lib view fs data_dir =
     obind (class_page fs data_dir) (\<lambda>page.
     obind (unwrap (to_record_batch lib page pg_class_catalog_schema (Some [0, 1, 2]) None)) (\<lambda>batch.
     obind (assert_that (0 < batch_num_rows view batch)) (\<lambda>_.
     obind (assert_that (length (batch_arrays view batch) = 3)) (\<lambda>_.
     obind (index (batch_fields view batch) 0) (\<lambda>f.
     obind (assert_that (field_name f = ''oid'')) (\<lambda>_.
     obind (index (batch_fields view batch) 1) (\<lambda>f.
     obind (assert_that (field_name f = ''relname'')) (\<lambda>_.
     obind (index (batch_fields view batch) 2) (\<lambda>f.
     obind (assert_that (field_name f = ''relnamespace'')) (\<lambda>_.
     obind (index (batch_arrays view batch) 0) (\<lambda>col.
     obind (unwrap_opt (u32_slots view col)) (\<lambda>oid_arr.
     obind (index oid_arr 0) (\<lambda>oid.
       assert_that (0 < oid))))))))))))))"

definition test_page_to_record_batch_single_column ::
    "('arr, 'batch) arrow_lib \<Rightarrow> ('arr, 'batch) arrow_view \<Rightarrow> 'h file_system \<Rightarrow> (string, string) outcome \<Rightarrow>
     unit pg_result" where
  "test_page_to_record_batch_single_column lib view fs data_dir =
     obind (class_page fs data_dir) (\<lambda>page.
     obind (unwrap (to_record_batch lib page pg_class_catalog_schema (Some [1]) None)) (\<lambda>batch.
     obind (assert_that (length (batch_arrays view batch) = 1)) (\<lambda>_.
     obind (index (batch_fields view batch) 0) (\<lambda>f.
     obind (assert_that (field_name f = ''relname'')) (\<lambda>_.
     obind (index (batch_arrays view batch) 0) (\<lambda>col.
     obind (unwrap_opt (string_slots view col)) (\<lambda>relname_arr.
     obind (assert_that (0 < batch_num_rows view batch)) (\<lambda>_.
       ofold (\<lambda>i _. if fst (relname_arr ! i) then Ok () else assert_that (snd (relname_arr ! i) \<noteq> []))
         [0..<length relname_arr] ()))))))))"

definition test_page_to_record_batch_empty_projection ::
    "('arr, 'batch) arrow_lib \<Rightarrow> ('arr, 'batch) arrow_view \<Rightarrow> 'h file_system \<Rightarrow> (string, string) outcome \<Rightarrow>
     unit pg_result" where
  "test_page_to_record_batch_empty_projection lib view fs data_dir =
     obind (class_page fs data_dir) (\<lambda>page.
     obind (unwrap (to_record_batch lib page pg_class_catalog_schema (Some []) None)) (\<lambda>batch.
     obind (assert_that (length (batch_arrays view batch) = 0)) (\<lambda>_.
       assert_that (batch_num_rows view batch = 0))))"

text \<open>\<open>page_reader.read_all_to_batches(&schema, projection).unwrap()\<close>, and the number of its rows.\<close>

definition all_batches ::
    "('arr, 'batch) arrow_lib \<Rightarrow> 'h file_system \<Rightarrow> (string, string) outcome \<Rightarrow> usize option \<Rightarrow> usize \<Rightarrow> u32 \<Rightarrow>
     pg_schema \<Rightarrow> usize list option \<Rightarrow> 'batch list pg_result option" where
  "all_batches lib fs data_dir threads db rel s proj =
     try_run (unwrap (get_page_reader (table_file_reader_new db (unat rel)))) (\<lambda>page_reader.
       map_option unwrap (read_all_to_batches lib (read_pages_bulk fs data_dir) threads
         (segment_chunk_reader page_reader) s proj))"

definition total_rows :: "('arr, 'batch) arrow_view \<Rightarrow> 'batch list \<Rightarrow> usize" where
  "total_rows view batches = sum_list (map (batch_num_rows view) batches)"

definition test_parallel_read_all_to_batches ::
    "('arr, 'batch) arrow_lib \<Rightarrow> ('arr, 'batch) arrow_view \<Rightarrow> 'h file_system \<Rightarrow> (string, string) outcome \<Rightarrow>
     usize option \<Rightarrow> unit pg_result option" where
  "test_parallel_read_all_to_batches lib view fs data_dir threads =
     (let s = pg_class_catalog_schema in
      map_option (\<lambda>result. obind result (\<lambda>batches.
          obind (assert_that (batches \<noteq> [])) (\<lambda>_.
          obind (assert_that (0 < total_rows view batches)) (\<lambda>_.
            ofold (\<lambda>batch _. assert_that (length (batch_arrays view batch) = num_columns s)) batches ()))))
        (all_batches lib fs data_dir threads 16384 PG_CLASS_RELATION_OID s None))"

definition test_parallel_read_all_to_batches_projected ::
    "('arr, 'batch) arrow_lib \<Rightarrow> ('arr, 'batch) arrow_view \<Rightarrow> 'h file_system \<Rightarrow> (string, string) outcome \<Rightarrow>
     usize option \<Rightarrow> unit pg_result option" where
  "test_parallel_read_all_to_batches_projected lib view fs data_dir threads =
     map_option (\<lambda>result. obind result (\<lambda>batches.
         obind (assert_that (batches \<noteq> [])) (\<lambda>_.
           ofold (\<lambda>batch _.
             obind (assert_that (length (batch_arrays view batch) = 2)) (\<lambda>_.
             obind (index (batch_fields view batch) 0) (\<lambda>f.
             obind (assert_that (field_name f = ''oid'')) (\<lambda>_.
             obind (index (batch_fields view batch) 1) (\<lambda>f.
               assert_that (field_name f = ''relname'')))))) batches ())))
       (all_batches lib fs data_dir threads 16384 PG_CLASS_RELATION_OID pg_class_catalog_schema (Some [0, 1]))"

definition test_parallel_matches_sequential ::
    "('arr, 'batch) arrow_lib \<Rightarrow> ('arr, 'batch) arrow_view \<Rightarrow> 'h file_system \<Rightarrow> (string, string) outcome \<Rightarrow>
     usize option \<Rightarrow> unit pg_result option" where
  "test_parallel_matches_sequential lib view fs data_dir threads =
     (let s = pg_class_catalog_schema in
      try_run (obind (class_page fs data_dir) (\<lambda>page0. unwrap (to_record_batch lib page0 s None None))) (\<lambda>sequential_batch.
        map_option (\<lambda>result. obind result (\<lambda>parallel_batches.
            obind (index parallel_batches 0) (\<lambda>parallel_first.
            obind (assert_that (batch_num_rows view sequential_batch = batch_num_rows view parallel_first)) (\<lambda>_.
            obind (assert_that (length (batch_arrays view sequential_batch) = length (batch_arrays view parallel_first))) (\<lambda>_.
            obind (index (batch_arrays view sequential_batch) 1) (\<lambda>col.
            obind (unwrap_opt (string_slots view col)) (\<lambda>seq_names.
            obind (index (batch_arrays view parallel_first) 1) (\<lambda>col.
            obind (unwrap_opt (string_slots view col)) (\<lambda>par_names.
              ofold (\<lambda>i _.
                obind (index par_names i) (\<lambda>par_slot.
                obind (assert_that (fst (seq_names ! i) = fst par_slot)) (\<lambda>_.
                  if fst (seq_names ! i) then Ok () else assert_that (snd (seq_names ! i) = snd par_slot))))
                [0..<length seq_names] ())))))))))
          (all_batches lib fs data_dir threads 16384 PG_CLASS_RELATION_OID s None)))"

text \<open>
  The body of the loop over the stream, which counts batches, rows and the rows that the filter leaves;
  \<open>db\<close> is the OID of the database \<open>postgres\<close>.
\<close>

definition FILTER_ATTRELID :: u32 where
  "FILTER_ATTRELID = 16728"

definition count_batch ::
    "('arr, 'batch) arrow_view \<Rightarrow> pg_schema \<Rightarrow> 'batch pg_result \<Rightarrow> usize \<times> usize \<times> usize \<Rightarrow>
     (usize \<times> usize \<times> usize) pg_result" where
  "count_batch view s batch_result counts =
     (case counts of (rows, batches, filtered_rows) \<Rightarrow>
      obind (unwrap batch_result) (\<lambda>batch.
      obind (assert_that (length (batch_arrays view batch) = num_columns s)) (\<lambda>_.
      obind (index (batch_arrays view batch) 0) (\<lambda>attrelid_col.
      obind (unwrap_opt (u32_slots view attrelid_col)) (\<lambda>_.
      obind (unwrap (eq_u32 view attrelid_col FILTER_ATTRELID)) (\<lambda>mask.
      obind (unwrap (filter_batch view batch mask)) (\<lambda>filtered.
        let counts = (rows + batch_num_rows view batch, batches + 1, filtered_rows + batch_num_rows view filtered) in
        if 0 < batch_num_rows view filtered then
          obind (index (batch_arrays view filtered) 1) (\<lambda>attname_col.
          obind (unwrap_opt (string_slots view attname_col)) (\<lambda>_. Ok counts))
        else Ok counts)))))))"

definition test_batch_stream_yields_incrementally ::
    "('arr, 'batch) arrow_lib \<Rightarrow> ('arr, 'batch) arrow_view \<Rightarrow> 'h file_system \<Rightarrow> (string, string) outcome \<Rightarrow>
     usize option \<Rightarrow> usize \<Rightarrow> unit pg_result option" where
  "test_batch_stream_yields_incrementally lib view fs data_dir threads db =
     (let s = pg_attribute_catalog_schema in
      try_run (unwrap (get_page_reader (table_file_reader_new db (unat PG_ATTRIBUTE_RELATION_OID)))) (\<lambda>page_reader.
        map_option (\<lambda>result. obind result (\<lambda>(rows, batches, filtered_rows).
            obind (assert_that (0 < batches)) (\<lambda>_. assert_that (0 < rows))))
          (for_each (stream_next lib (read_pages_bulk fs data_dir)) (count_batch view s)
            (with_pages_per_batch 1000 (into_batch_stream threads (segment_chunk_reader page_reader) s None)) (0, 0, 0))))"

definition test_batch_stream_matches_read_all ::
    "('arr, 'batch) arrow_lib \<Rightarrow> ('arr, 'batch) arrow_view \<Rightarrow> 'h file_system \<Rightarrow> (string, string) outcome \<Rightarrow>
     usize option \<Rightarrow> usize \<Rightarrow> unit pg_result option" where
  "test_batch_stream_matches_read_all lib view fs data_dir threads db =
     (let s = pg_attribute_catalog_schema in
      try_run (unwrap (get_page_reader (table_file_reader_new db (unat PG_ATTRIBUTE_RELATION_OID)))) (\<lambda>page_reader.
      case for_each (stream_next lib (read_pages_bulk fs data_dir))
          (\<lambda>r rows. obind (unwrap r) (\<lambda>batch. Ok (rows + batch_num_rows view batch)))
          (into_batch_stream threads (segment_chunk_reader page_reader) s None) 0 of
        None \<Rightarrow> None
      | Some stream_rows \<Rightarrow>
          try_run stream_rows (\<lambda>stream_rows.
            map_option (\<lambda>result. obind result (\<lambda>batches. assert_that (stream_rows = total_rows view batches)))
              (all_batches lib fs data_dir threads db PG_ATTRIBUTE_RELATION_OID s None))))"

definition test_page_row_iter_count_matches_batches ::
    "('arr, 'batch) arrow_lib \<Rightarrow> ('arr, 'batch) arrow_view \<Rightarrow> 'h file_system \<Rightarrow> (string, string) outcome \<Rightarrow>
     usize option \<Rightarrow> usize \<Rightarrow> unit pg_result option" where
  "test_page_row_iter_count_matches_batches lib view fs data_dir threads db =
     (let s = pg_attribute_catalog_schema in
      try_run (unwrap (get_page_reader (table_file_reader_new db (unat PG_ATTRIBUTE_RELATION_OID)))) (\<lambda>page_reader.
      case for_each (row_iter_next fs data_dir)
          (\<lambda>r n. case r of Ok t \<Rightarrow> Ok (n + 1) | Err _ \<Rightarrow> Ok n | Panic \<Rightarrow> Panic)
          (into_iter page_reader) (0 :: usize) of
        None \<Rightarrow> None
      | Some row_iter_count \<Rightarrow>
          try_run row_iter_count (\<lambda>row_iter_count.
            map_option (\<lambda>result. obind result (\<lambda>batches.
                obind (assert_that (0 < row_iter_count)) (\<lambda>_.
                  assert_that (row_iter_count = total_rows view batches))))
              (all_batches lib fs data_dir threads db PG_ATTRIBUTE_RELATION_OID s None))))"

section \<open>Lemmas\<close>

text \<open>A readable relation: its parsed pages.\<close>

definition relation_pages :: "'h file_system \<Rightarrow> string \<Rightarrow> usize \<Rightarrow> u32 \<Rightarrow> heap_page_data list \<Rightarrow> bool" where
  "relation_pages fs dir db rel hps \<longleftrightarrow>
     (let path = segment_path dir (table_file_reader_new db (unat rel) :: 'h table_file_reader) in
      \<exists>pages. segment_walk fs path 0 pages \<and> open_file fs (path 0) \<noteq> None \<and>
        map page_parse pages = map Ok hps \<and> length pages < 2 ^ 32)"

lemma relation_pages_rows:
  "relation_pages fs dir db rel hps \<Longrightarrow> relation_rows fs dir db (unat rel) (concat (map page_rows hps))"
  by (auto simp: relation_pages_def relation_rows_def Let_def)

lemma relation_pages_first:
  fixes fs :: "'h file_system"
  assumes "relation_pages fs dir db rel (page # rest)"
  shows "fst (get_page_by_index fs (Ok dir) (fresh_pages db (unat rel)) 0) = Ok page"
proof -
  let ?path = "segment_path dir (table_file_reader_new db (unat rel) :: 'h table_file_reader)"
  obtain pages where walk: "segment_walk fs ?path 0 pages" "open_file fs (?path 0) \<noteq> None"
    and parsed: "map page_parse pages = map Ok (page # rest)"
    using assms by (auto simp: relation_pages_def Let_def)
  have "reader_at fs dir (fresh_pages db (unat rel)) pages 0" using walk by (simp add: reader_at_def)
  moreover have "0 < length pages" "page_parse (pages ! 0) = Ok page" using parsed by (cases pages; simp)+
  ultimately show ?thesis using get_page_in_order [of fs dir _ pages 0] by fastforce
qed

text \<open>The batches of a catalog, page by page.\<close>

lemma catalog_batches:
  assumes "map page_parse pages = map Ok hps" and "plain_schema s" and "makes_batches lib view"
    and "accepts_exact (fixed_append_error lib)"
    and "\<forall>page \<in> set hps. \<forall>t \<in> set (live_tuples None page). \<exists>r. decode_row t s = Ok r"
    and "proj = None \<and> is = [0..<num_columns s] \<or>
      proj = Some is \<and> is \<noteq> [] \<and> distinct is \<and> (\<forall>i \<in> set is. i < num_columns s)"
  shows "\<exists>batches. map (page_batch lib s proj None) pages = map Ok batches \<and>
    list_all2 (\<lambda>page. plain_batch lib view s is (live_tuples None page)) hps batches"
  using assms(1,5)
proof (induction pages arbitrary: hps)
  case (Cons p pages)
  then obtain page rest where hps: "hps = page # rest" "page_parse p = Ok page" "map page_parse pages = map Ok rest" by auto
  then have parse: "page_parse_bytes p = Ok page" by (simp add: page_parse_def)
  obtain batches where "map (page_batch lib s proj None) pages = map Ok batches"
    "list_all2 (\<lambda>page. plain_batch lib view s is (live_tuples None page)) rest batches"
    using Cons.IH [OF hps(3)] Cons.prems(2) hps(1) by auto
  moreover obtain batch where "to_record_batch lib page s proj None = Ok batch"
    "plain_batch lib view s is (live_tuples None page) batch"
    using assms(6) plain_page_converts_all [OF parse assms(2-4), of None]
      plain_page_converts [OF parse assms(2-4), of "is" None] Cons.prems(2) hps(1) by auto
  moreover have "page_batch lib s proj None p = to_record_batch lib page s proj None"
    by (simp add: page_batch_def parse)
  ultimately show ?case
    by (intro exI [of _ "batch # batches"]) (simp add: hps(1))
qed simp

lemma relation_batches:
  fixes fs :: "'h file_system"
  assumes "relation_pages fs dir db rel hps" and "plain_schema s" and "makes_batches lib view"
    and "accepts_exact (fixed_append_error lib)"
    and "\<forall>page \<in> set hps. \<forall>t \<in> set (live_tuples None page). \<exists>r. decode_row t s = Ok r"
    and "proj = None \<and> is = [0..<num_columns s] \<or>
      proj = Some is \<and> is \<noteq> [] \<and> distinct is \<and> (\<forall>i \<in> set is. i < num_columns s)"
  shows "\<exists>pages batches.
    relation_holds fs dir (table_file_reader_new db (unat rel)) pages \<and> length pages < 2 ^ 32 \<and>
    map (page_batch lib s proj None) pages = map Ok batches \<and>
    list_all2 (\<lambda>page. plain_batch lib view s is (live_tuples None page)) hps batches \<and>
    all_batches lib fs (Ok dir) threads db rel s proj = Some (Ok batches)"
proof -
  let ?r = "table_file_reader_new db (unat rel) :: 'h table_file_reader"
  obtain pages where walk: "segment_walk fs (segment_path dir ?r) 0 pages"
    and parsed: "map page_parse pages = map Ok hps" and few: "length pages < 2 ^ 32"
    using assms(1) by (auto simp: relation_pages_def Let_def)
  have holds: "relation_holds fs dir ?r pages"
    using walk by (simp add: relation_holds_def cache_ok_def table_file_reader_new_def)
  obtain batches where "map (page_batch lib s proj None) pages = map Ok batches"
    "list_all2 (\<lambda>page. plain_batch lib view s is (live_tuples None page)) hps batches"
    using catalog_batches [OF parsed assms(2-6)] by blast
  moreover have "read_all_to_batches lib (read_pages_bulk fs (Ok dir)) threads ?r s proj = Some (Ok batches)"
    using table_file.read_all_yields [OF holds] calculation(1) few by simp
  ultimately show ?thesis using holds few by (auto simp: all_batches_def get_page_reader_def)
qed

lemma total_plain_rows:
  "list_all2 (\<lambda>page. plain_batch lib view s is (live_tuples None page)) hps batches \<Longrightarrow>
    total_rows view batches = length (filter (\<lambda>t. tuple_visible None (header t)) (concat (map page_rows hps)))"
  by (induction rule: list_all2_induct) (simp_all add: total_rows_def plain_batch_def live_tuples_filter filter_concat)

lemma ofold_asserts: "\<forall>x \<in> set xs. body x () = Ok () \<Longrightarrow> ofold body xs () = Ok ()"
  by (induction xs) simp_all

lemma class_first_columns:
  "columns pg_class_catalog_schema ! 0 = pg_column_new ''oid'' T_Oid True (-1)"
  "columns pg_class_catalog_schema ! Suc 0 = pg_column_new ''relname'' T_Name True (-1)"
  "columns pg_class_catalog_schema ! 2 = pg_column_new ''relnamespace'' T_Oid True (-1)"
  by (simp_all add: pg_class_catalog_schema_def catalog_schema_def pg_schema_new_def catalog_tables)

lemma class_kinds: "column_kind pg_class_catalog_schema 0 = B_Oid" "column_kind pg_class_catalog_schema 1 = B_Name"
  by (simp_all add: column_kind_def class_first_columns pg_column_new_def builder_kind_for_def)

lemma class_field_names:
  "field_name (to_arrow_field (columns pg_class_catalog_schema ! 0)) = ''oid''"
  "field_name (to_arrow_field (columns pg_class_catalog_schema ! Suc 0)) = ''relname''"
  "field_name (to_arrow_field (columns pg_class_catalog_schema ! 2)) = ''relnamespace''"
  by (simp_all add: field_name_def to_arrow_field_def class_first_columns pg_column_new_def Let_def)

lemma class_page_Ok:
  assumes "relation_pages fs dir 16384 PG_CLASS_RELATION_OID (page # rest)"
  shows "class_page fs (Ok dir) = Ok page"
  using relation_pages_first [OF assms] by (simp add: class_page_def get_page_reader_def)

text \<open>The names and OIDs of a batch of \<open>pg_class\<close> rows.\<close>

lemma class_batch_names:
  assumes "plain_batch lib view pg_class_catalog_schema proj ts batch" and "reads_arrays lib view"
    and "k < length proj" and "proj ! k = 1" and "\<forall>t \<in> set ts. class_row t"
  shows "\<exists>slots. string_slots view (batch_arrays view batch ! k) = Some slots \<and> length slots = length ts \<and>
    (\<forall>i < length ts. \<not> fst (slots ! i) \<and> snd (slots ! i) \<noteq> [])"
proof -
  obtain slots where slots: "string_slots view (batch_arrays view batch ! k) = Some slots" "length slots = length ts"
    and vals: "\<And>i v. i < length ts \<Longrightarrow> plain_cell pg_class_catalog_schema (ts ! i) 1 = Some (AV_Str v) \<Longrightarrow> slots ! i = (False, v)"
    using plain_batch_strings [OF assms(1-3)] assms(4) class_kinds(2) by auto
  have "\<not> fst (slots ! i) \<and> snd (slots ! i) \<noteq> []" if "i < length ts" for i
  proof -
    have "class_row (ts ! i)" using assms(5) that by simp
    from class_row_cells(2) [OF this] show ?thesis using vals [OF that] by auto
  qed
  with slots show ?thesis by blast
qed

lemma class_batch_oids:
  assumes "plain_batch lib view pg_class_catalog_schema proj ts batch" and "reads_arrays lib view"
    and "k < length proj" and "proj ! k = 0" and "\<forall>t \<in> set ts. class_row t"
  shows "\<exists>slots. u32_slots view (batch_arrays view batch ! k) = Some slots \<and> length slots = length ts \<and>
    (\<forall>i < length ts. slots ! i \<noteq> 0)"
proof -
  obtain slots where slots: "u32_slots view (batch_arrays view batch ! k) = Some slots" "length slots = length ts"
    and vals: "\<And>i v. i < length ts \<Longrightarrow> plain_cell pg_class_catalog_schema (ts ! i) 0 = Some (AV_UInt32 v) \<Longrightarrow> slots ! i = v"
    using plain_batch_oids [OF assms(1-3)] assms(4) class_kinds(1) by auto
  have "slots ! i \<noteq> 0" if "i < length ts" for i
  proof -
    have "class_row (ts ! i)" using assms(5) that by simp
    from class_row_cells(3) [OF this] show ?thesis using vals [OF that] by auto
  qed
  with slots show ?thesis by blast
qed

lemma attribute_kinds:
  "column_kind pg_attribute_catalog_schema 0 = B_Oid" "column_kind pg_attribute_catalog_schema 1 = B_Name"
  by (simp_all add: column_kind_def pg_attribute_catalog_schema_def catalog_schema_def pg_schema_new_def catalog_tables
      pg_column_new_def builder_kind_for_def)

lemma ofold_sum_rows:
  "ofold (\<lambda>r rows. obind (unwrap r) (\<lambda>batch. Ok (rows + batch_num_rows view batch))) (map Ok bs) n =
    Ok (n + total_rows view bs)"
  by (induction bs arbitrary: n) (simp_all add: total_rows_def add.assoc)

lemma ofold_count:
  "ofold (\<lambda>r n. case r of Ok t \<Rightarrow> Ok (n + 1) | Err _ \<Rightarrow> Ok n | Panic \<Rightarrow> Panic) (map Ok ts) n = Ok (n + length ts)"
  by (induction ts arbitrary: n) simp_all

text \<open>The loop of the incremental test on batches of \<open>pg_attribute\<close>.\<close>

lemma count_batch_plain:
  assumes b: "plain_batch lib view pg_attribute_catalog_schema [0..<num_columns pg_attribute_catalog_schema] ts b"
    and "reads_arrays lib view" and "filters_batches lib view"
  shows "\<exists>f'. count_batch view pg_attribute_catalog_schema (Ok b) (r, k, f) = Ok (r + batch_num_rows view b, k + 1, f')"
proof -
  let ?s = pg_attribute_catalog_schema
  have len: "length (batch_arrays view b) = 20" using b by (simp add: plain_batch_def attribute_columns)
  obtain oids where oids: "u32_slots view (batch_arrays view b ! 0) = Some oids"
    using plain_batch_oids [OF b assms(2), of 0] by (auto simp: attribute_columns attribute_kinds simp del: upt_Suc)
  obtain names where names: "string_slots view (batch_arrays view b ! 1) = Some names"
    using plain_batch_strings [OF b assms(2), of 1] attribute_kinds(2) by (auto simp: attribute_columns simp del: upt_Suc)
  obtain mask filtered where filtered: "eq_u32 view (batch_arrays view b ! 0) FILTER_ATTRELID = Ok mask"
    "filter_batch view b mask = Ok filtered" "length (batch_arrays view filtered) = 20"
    and same: "\<forall>j < 20. (string_slots view (batch_arrays view filtered ! j) = None) =
      (string_slots view (batch_arrays view b ! j) = None)"
    using assms(3) [unfolded filters_batches_def, rule_format, of 0 b FILTER_ATTRELID] oids len by auto
  moreover obtain names' where "string_slots view (batch_arrays view filtered ! 1) = Some names'"
    using same [rule_format, of 1] names by (cases "string_slots view (batch_arrays view filtered ! 1)") simp_all
  ultimately show ?thesis
    by (auto simp: count_batch_def len attribute_columns index_Ok oids Let_def)
qed

lemma ofold_count_batch:
  assumes "\<forall>b \<in> set bs. \<exists>ts. plain_batch lib view pg_attribute_catalog_schema [0..<num_columns pg_attribute_catalog_schema] ts b"
    and "reads_arrays lib view" and "filters_batches lib view"
  shows "\<exists>f'. ofold (count_batch view pg_attribute_catalog_schema) (map Ok bs) (r, k, f) =
    Ok (r + total_rows view bs, k + length bs, f')"
  using assms(1)
proof (induction bs arbitrary: r k f)
  case (Cons b bs)
  obtain ts where "plain_batch lib view pg_attribute_catalog_schema [0..<num_columns pg_attribute_catalog_schema] ts b"
    using Cons.prems by auto
  from count_batch_plain [OF this assms(2,3)] obtain f1
    where "count_batch view pg_attribute_catalog_schema (Ok b) (r, k, f) = Ok (r + batch_num_rows view b, k + 1, f1)" by blast
  then show ?case
    using Cons.IH [of "r + batch_num_rows view b" "k + 1" f1] Cons.prems by (auto simp: total_rows_def add.assoc)
qed (simp add: total_rows_def)

text \<open>A cluster of two one-page catalogs, with one row each.\<close>

definition catalog_files :: "string \<rightharpoonup> bytes" where
  "catalog_files =
     [''/d/base/16384/1259'' \<mapsto> page_data (row_page (tuple_bytes (sample_tuple [] class_bytes) [0])),
      ''/d/base/16384/1249'' \<mapsto> page_data (row_page (tuple_bytes (sample_tuple [] attribute_bytes) [0]))]"

lemma row_page_relation_pages:
  assumes "files (segment_path dir (table_file_reader_new db (unat rel) :: bytes table_file_reader) 0) =
      Some (page_data (row_page (tuple_bytes (sample_tuple [] bs) [0])))" and "length bs \<le> 400"
  shows "relation_pages (disk files) dir db rel [row_page (tuple_bytes (sample_tuple [] bs) [0])] \<and>
    page_rows (row_page (tuple_bytes (sample_tuple [] bs) [0])) = [sample_tuple [] bs]"
proof -
  let ?raw = "tuple_bytes (sample_tuple [] bs) [0]"
  let ?path = "segment_path dir (table_file_reader_new db (unat rel) :: bytes table_file_reader)"
  have tup: "parse_and_build ?raw = Ok (sample_tuple [] bs)"
    by (rule parse_and_build_tuple_bytes) (simp_all add: sample_tuple_def bitmap_len_def has_flag_def)
  have len: "length ?raw \<le> 8160"
    using assms(2) by (simp add: tuple_bytes_def sample_tuple_def)
  have "page_list (page_data (row_page ?raw)) = [page_data (row_page ?raw)]"
    using page_list_Cons [of "page_data (row_page ?raw)"] row_page_length [OF len] by (simp add: page_list_short)
  then have "segment_walk (disk files) ?path 0 [page_data (row_page ?raw)]"
    using disk_walk [of files ?path 0 "page_data (row_page ?raw)"] assms(1) row_page_length [OF len] by simp
  then have "relation_pages (disk files) dir db rel [row_page ?raw]"
    using assms(1) row_page_parse [OF len] unfolding relation_pages_def Let_def
    by (intro exI [of _ "[page_data (row_page ?raw)]"]) (simp add: disk_def page_parse_def)
  then show ?thesis using row_page_rows [OF len tup] by simp
qed

lemma sample_catalog:
  "relation_pages (disk catalog_files) ''/d'' 16384 PG_CLASS_RELATION_OID [row_page (tuple_bytes (sample_tuple [] class_bytes) [0])]"
  "live_tuples None (row_page (tuple_bytes (sample_tuple [] class_bytes) [0])) = [sample_tuple [] class_bytes]"
  "relation_pages (disk catalog_files) ''/d'' 16384 PG_ATTRIBUTE_RELATION_OID
     [row_page (tuple_bytes (sample_tuple [] attribute_bytes) [0])]"
  "page_rows (row_page (tuple_bytes (sample_tuple [] attribute_bytes) [0])) = [sample_tuple [] attribute_bytes]"
  "page_rows (row_page (tuple_bytes (sample_tuple [] class_bytes) [0])) = [sample_tuple [] class_bytes]"
proof -
  have num: "show_nat 16384 = ''16384''" by (simp add: show_nat.simps, code_simp)
  have oids: "unat PG_CLASS_RELATION_OID = 1259" "unat PG_ATTRIBUTE_RELATION_OID = 1249"
    by (simp_all add: PG_CLASS_RELATION_OID_def PG_ATTRIBUTE_RELATION_OID_def)
  note path = segment_path_def table_file_reader_new_def sample_numbers num catalog_files_def Let_def oids
  show "relation_pages (disk catalog_files) ''/d'' 16384 PG_CLASS_RELATION_OID
      [row_page (tuple_bytes (sample_tuple [] class_bytes) [0])]"
    and "relation_pages (disk catalog_files) ''/d'' 16384 PG_ATTRIBUTE_RELATION_OID
      [row_page (tuple_bytes (sample_tuple [] attribute_bytes) [0])]"
    by (rule row_page_relation_pages [THEN conjunct1]; simp add: path class_bytes_length attribute_bytes_length)+
  have rows: "page_rows (row_page (tuple_bytes (sample_tuple [] bs) [0])) = [sample_tuple [] bs]"
    if "length bs \<le> 400" for bs
    using row_page_relation_pages [where files = "\<lambda>_. Some (page_data (row_page (tuple_bytes (sample_tuple [] bs) [0])))",
        OF refl that] by (rule conjunct2)
  show "page_rows (row_page (tuple_bytes (sample_tuple [] attribute_bytes) [0])) = [sample_tuple [] attribute_bytes]"
    by (rule rows [OF attribute_bytes_length])
  show "page_rows (row_page (tuple_bytes (sample_tuple [] class_bytes) [0])) = [sample_tuple [] class_bytes]"
    by (rule rows [OF class_bytes_length])
  show "live_tuples None (row_page (tuple_bytes (sample_tuple [] class_bytes) [0])) = [sample_tuple [] class_bytes]"
    by (simp add: live_tuples_filter rows [OF class_bytes_length] tuple_visible_def sample_live_tuple)
qed

lemma sample_class_row: "class_row (sample_tuple [] class_bytes)"
  by (simp add: class_row_def sample_rows_decode) (simp add: sample_class_def)

text \<open>The three tests on \<open>pg_attribute\<close>, when its pages convert to the batches \<open>bs\<close>.\<close>

lemma matches_read_all_passes:
  assumes r: "r = table_file_reader_new db (unat PG_ATTRIBUTE_RELATION_OID)"
    and "relation_holds fs dir r pages" and "length pages < 2 ^ 32"
    and "map (page_batch lib pg_attribute_catalog_schema None None) pages = map Ok bs"
    and "all_batches lib fs (Ok dir) threads db PG_ATTRIBUTE_RELATION_OID pg_attribute_catalog_schema None = Some (Ok bs)"
  shows "test_batch_stream_matches_read_all lib view fs (Ok dir) threads db = Some (Ok ())"
proof -
  have "for_each (stream_next lib (read_pages_bulk fs (Ok dir))) (\<lambda>r rows. obind (unwrap r) (\<lambda>batch. Ok (rows + batch_num_rows view batch)))
      (into_batch_stream threads r pg_attribute_catalog_schema None) 0 = Some (Ok (total_rows view bs))"
    using table_file.stream.for_each_yields [OF table_file.new_stream_yields [OF assms(2,4)],
        where body = "\<lambda>r rows. obind (unwrap r) (\<lambda>batch. Ok (rows + batch_num_rows view batch))" and s = 0] assms(3)
    by (simp add: ofold_sum_rows)
  then show ?thesis by (simp add: test_batch_stream_matches_read_all_def get_page_reader_def assms(5) flip: r)
qed

lemma yields_incrementally_passes:
  assumes r: "r = table_file_reader_new db (unat PG_ATTRIBUTE_RELATION_OID)"
    and "relation_holds fs dir r pages" and "length pages < 2 ^ 32"
    and "map (page_batch lib pg_attribute_catalog_schema None None) pages = map Ok bs"
    and "reads_arrays lib view" and "filters_batches lib view"
    and "\<And>b. b \<in> set bs \<Longrightarrow> \<exists>ts. plain_batch lib view pg_attribute_catalog_schema [0..<num_columns pg_attribute_catalog_schema] ts b"
  shows "test_batch_stream_yields_incrementally lib view fs (Ok dir) threads db = Some (Ok ()) \<longleftrightarrow> 0 < total_rows view bs"
proof -
  obtain f where "for_each (stream_next lib (read_pages_bulk fs (Ok dir))) (count_batch view pg_attribute_catalog_schema)
      (with_pages_per_batch 1000 (into_batch_stream threads r pg_attribute_catalog_schema None)) (0, 0, 0) =
    Some (Ok (total_rows view bs, length bs, f))"
    using table_file.stream.for_each_yields [OF table_file.whole_stream_yields [OF assms(2,4), of 1000],
        where body = "count_batch view pg_attribute_catalog_schema" and s = "(0, 0, 0)"]
      assms(3) ofold_count_batch [OF _ assms(5,6), of bs 0 0 0] assms(7) by fastforce
  moreover have "bs \<noteq> []" if "0 < total_rows view bs" using that by (auto simp: total_rows_def)
  ultimately show ?thesis
    by (auto simp: test_batch_stream_yields_incrementally_def get_page_reader_def assert_that_def r)
qed

lemma iter_count_passes:
  assumes "relation_rows fs dir db (unat PG_ATTRIBUTE_RELATION_OID) rows"
    and "all_batches lib fs (Ok dir) threads db PG_ATTRIBUTE_RELATION_OID pg_attribute_catalog_schema None = Some (Ok bs)"
  shows "test_page_row_iter_count_matches_batches lib view fs (Ok dir) threads db = Some (Ok ()) \<longleftrightarrow>
    rows \<noteq> [] \<and> total_rows view bs = length rows"
proof -
  from row_iter.for_each_yields [OF relation_rows_iter [OF assms(1)],
      where body = "\<lambda>r n. case r of Ok t \<Rightarrow> Ok (n + 1) | Err _ \<Rightarrow> Ok n | Panic \<Rightarrow> Panic" and s = "0 :: nat"]
  have "for_each (row_iter_next fs (Ok dir)) (\<lambda>r n. case r of Ok t \<Rightarrow> Ok (n + 1) | Err _ \<Rightarrow> Ok n | Panic \<Rightarrow> Panic)
      (into_iter (fresh_pages db (unat PG_ATTRIBUTE_RELATION_OID))) (0 :: nat) = Some (Ok (length rows))"
    by (simp add: ofold_count)
  then show ?thesis
    by (auto simp: test_page_row_iter_count_matches_batches_def get_page_reader_def assms(2) assert_that_def)
qed

section \<open>Properties\<close>

text \<open>
  On every cluster whose \<open>pg_class\<close> is readable, has a visible tuple on its first page, and whose visible
  tuples are rows with a name and an OID, the tests of \<open>to_record_batch\<close> pass: all columns, three columns,
  one column, and the empty projection.
\<close>

theorem class_page_tests_pass:
  assumes "relation_pages fs dir 16384 PG_CLASS_RELATION_OID (page # rest)"
    and "live_tuples None page \<noteq> []" and "\<forall>t \<in> set (live_tuples None page). class_row t"
    and "makes_batches lib view" and "reads_arrays lib view" and "accepts_exact (fixed_append_error lib)"
  shows "test_page_to_record_batch_all_columns lib view fs (Ok dir) = Ok () \<and>
    test_page_to_record_batch_projected lib view fs (Ok dir) = Ok () \<and>
    test_page_to_record_batch_single_column lib view fs (Ok dir) = Ok () \<and>
    test_page_to_record_batch_empty_projection lib view fs (Ok dir) = Ok ()"
proof (intro conjI)
  let ?s = pg_class_catalog_schema and ?ts = "live_tuples None page"
  note page = class_page_Ok [OF assms(1)]
  obtain buf where buf: "page_parse_bytes buf = Ok page"
    using assms(1) by (auto simp: relation_pages_def Let_def page_parse_def Cons_eq_map_conv map_eq_Cons_conv)
  have rows: "\<forall>t \<in> set ?ts. \<exists>r. decode_row t ?s = Ok r" using assms(3) class_row_cells(1) by blast
  have ts: "0 < length ?ts" using assms(2) by simp
  note project = plain_page_converts [OF buf class_schema_plain assms(4,6) _ _ _ rows]
  show "test_page_to_record_batch_all_columns lib view fs (Ok dir) = Ok ()"
  proof -
    obtain batch where batch: "to_record_batch lib page ?s None None = Ok batch"
      "plain_batch lib view ?s [0..<num_columns ?s] ?ts batch"
      using plain_page_converts_all [OF buf class_schema_plain assms(4,6) rows] by blast
    then have n: "batch_num_rows view batch = length ?ts" "length (batch_arrays view batch) = 31"
      by (simp_all add: plain_batch_def class_columns)
    obtain slots where "string_slots view (batch_arrays view batch ! 1) = Some slots" "length slots = length ?ts"
      "\<forall>i < length ?ts. \<not> fst (slots ! i) \<and> snd (slots ! i) \<noteq> []"
      using class_batch_names [OF batch(2) assms(5), of 1] assms(3) by (auto simp: class_columns simp del: upt_Suc)
    then show ?thesis
      using ts by (auto simp: test_page_to_record_batch_all_columns_def page batch(1) n class_columns index_Ok assert_that_def)
  qed
  show "test_page_to_record_batch_projected lib view fs (Ok dir) = Ok ()"
  proof -
    obtain batch where batch: "to_record_batch lib page ?s (Some [0, 1, 2]) None = Ok batch"
      "plain_batch lib view ?s [0, 1, 2] ?ts batch"
      using project [of "[0, 1, 2]"] by (auto simp: class_columns)
    then have n: "batch_num_rows view batch = length ?ts" "length (batch_arrays view batch) = 3"
      "batch_fields view batch = map (\<lambda>i. to_arrow_field (columns ?s ! i)) [0, 1, 2]"
      by (simp_all add: plain_batch_def)
    obtain slots where "u32_slots view (batch_arrays view batch ! 0) = Some slots" "length slots = length ?ts"
      "\<forall>i < length ?ts. slots ! i \<noteq> 0"
      using class_batch_oids [OF batch(2) assms(5), of 0] assms(3) by auto
    then show ?thesis
      using ts by (auto simp: test_page_to_record_batch_projected_def page batch(1) [simplified] n class_field_names index_Ok
          word_gt_0 assert_that_def)
  qed
  show "test_page_to_record_batch_single_column lib view fs (Ok dir) = Ok ()"
  proof -
    obtain batch where batch: "to_record_batch lib page ?s (Some [1]) None = Ok batch"
      "plain_batch lib view ?s [1] ?ts batch"
      using project [of "[1]"] by (auto simp: class_columns)
    then have n: "batch_num_rows view batch = length ?ts" "length (batch_arrays view batch) = 1"
      "batch_fields view batch = [to_arrow_field (columns ?s ! 1)]"
      by (simp_all add: plain_batch_def)
    obtain slots where "string_slots view (batch_arrays view batch ! 0) = Some slots" "length slots = length ?ts"
      "\<forall>i < length ?ts. \<not> fst (slots ! i) \<and> snd (slots ! i) \<noteq> []"
      using class_batch_names [OF batch(2) assms(5), of 0] assms(3) by auto
    then show ?thesis
      using ts by (simp add: test_page_to_record_batch_single_column_def page batch(1) [simplified] n class_field_names index_Ok ofold_asserts)
  qed
  show "test_page_to_record_batch_empty_projection lib view fs (Ok dir) = Ok ()"
    using assms(4) by (auto simp: test_page_to_record_batch_empty_projection_def page to_record_batch_def makes_batches_def
        to_arrow_schema_def pg_schema_new_def)
qed

theorem class_page_tests_pass_witness:
  "test_page_to_record_batch_all_columns view_lib log_view (disk catalog_files) (Ok ''/d'') = Ok ()"
  using class_page_tests_pass [OF sample_catalog(1) _ _ view_lib_makes view_lib_reads view_lib_exact]
  by (simp add: sample_catalog(2) sample_class_row)

text \<open>
  On such a cluster, when every page has visible rows only of that form, the tests of
  \<open>read_all_to_batches\<close> pass too: the whole relation, two columns of it, and the first batch against the
  conversion of page 0 on its own.
\<close>

theorem class_scan_tests_pass:
  assumes "relation_pages fs dir 16384 PG_CLASS_RELATION_OID (page # rest)"
    and "live_tuples None page \<noteq> []"
    and "\<forall>page \<in> set (page # rest). \<forall>t \<in> set (live_tuples None page). class_row t"
    and "makes_batches lib view" and "reads_arrays lib view" and "accepts_exact (fixed_append_error lib)"
  shows "test_parallel_read_all_to_batches lib view fs (Ok dir) threads = Some (Ok ()) \<and>
    test_parallel_read_all_to_batches_projected lib view fs (Ok dir) threads = Some (Ok ()) \<and>
    test_parallel_matches_sequential lib view fs (Ok dir) threads = Some (Ok ())"
proof -
  let ?s = pg_class_catalog_schema and ?ts = "live_tuples None page"
  have rows: "\<forall>page \<in> set (page # rest). \<forall>t \<in> set (live_tuples None page). \<exists>r. decode_row t ?s = Ok r"
    using assms(3) class_row_cells(1) by blast
  note batches = relation_batches [OF assms(1) class_schema_plain assms(4,6) rows]
  obtain bs where bs: "all_batches lib fs (Ok dir) threads 16384 PG_CLASS_RELATION_OID ?s None = Some (Ok bs)"
    and all2: "list_all2 (\<lambda>page. plain_batch lib view ?s [0..<num_columns ?s] (live_tuples None page)) (page # rest) bs"
    using batches [of None "[0..<num_columns ?s]" threads] by blast
  obtain b bs' where cons: "bs = b # bs'" and b: "plain_batch lib view ?s [0..<num_columns ?s] ?ts b"
    using all2 by (auto simp: list_all2_Cons1)
  have width: "length (batch_arrays view batch) = num_columns ?s" if "batch \<in> set bs" for batch
    using all2 that by (auto simp: list_all2_conv_all_nth in_set_conv_nth plain_batch_def)
  have n: "batch_num_rows view b = length ?ts" using b by (simp add: plain_batch_def)
  have "0 < total_rows view bs" using n assms(2) by (simp add: total_rows_def cons)
  then have "test_parallel_read_all_to_batches lib view fs (Ok dir) threads = Some (Ok ())"
    using width by (simp add: test_parallel_read_all_to_batches_def bs cons ofold_asserts)
  moreover have "test_parallel_read_all_to_batches_projected lib view fs (Ok dir) threads = Some (Ok ())"
  proof -
    obtain ps where ps: "all_batches lib fs (Ok dir) threads 16384 PG_CLASS_RELATION_OID ?s (Some [0, 1]) = Some (Ok ps)"
      "list_all2 (\<lambda>page. plain_batch lib view ?s [0, 1] (live_tuples None page)) (page # rest) ps"
      using batches [of "Some [0, 1]" "[0, 1]" threads] by (auto simp: class_columns)
    have "length (batch_arrays view batch) = 2 \<and>
        batch_fields view batch = map (\<lambda>i. to_arrow_field (columns ?s ! i)) [0, 1]" if "batch \<in> set ps" for batch
      using ps(2) that by (auto simp: list_all2_conv_all_nth in_set_conv_nth plain_batch_def)
    moreover have "ps \<noteq> []" using ps(2) by auto
    ultimately show ?thesis
      by (simp add: test_parallel_read_all_to_batches_projected_def ps(1) [simplified] ofold_asserts index_Ok class_field_names)
  qed
  moreover have "test_parallel_matches_sequential lib view fs (Ok dir) threads = Some (Ok ())"
  proof -
    obtain buf where "page_parse_bytes buf = Ok page"
      using assms(1) by (auto simp: relation_pages_def Let_def page_parse_def map_eq_Cons_conv)
    then obtain sb where sb: "to_record_batch lib page ?s None None = Ok sb"
      "plain_batch lib view ?s [0..<num_columns ?s] ?ts sb"
      using plain_page_converts_all [OF _ class_schema_plain assms(4,6)] rows by (meson list.set_intros(1))
    have same: "batch_num_rows view sb = batch_num_rows view b" "batch_arrays view sb = batch_arrays view b"
      using sb(2) b by (simp_all add: plain_batch_def)
    obtain slots where slots: "string_slots view (batch_arrays view b ! 1) = Some slots"
      using class_batch_names [OF b assms(5), of 1] assms(3) by (auto simp: class_columns simp del: upt_Suc)
    have "1 < length (batch_arrays view b)" using width [of b] cons by (simp add: class_columns)
    then show ?thesis
      using slots by (simp add: test_parallel_matches_sequential_def class_page_Ok [OF assms(1)] sb(1) bs cons same
          index_Ok ofold_asserts)
  qed
  ultimately show ?thesis by blast
qed

theorem class_scan_tests_pass_witness:
  "test_parallel_matches_sequential view_lib log_view (disk catalog_files) (Ok ''/d'') None = Some (Ok ())"
  using class_scan_tests_pass [OF sample_catalog(1) _ _ view_lib_makes view_lib_reads view_lib_exact]
  by (simp add: sample_catalog(2) sample_class_row)

text \<open>
  C24: The test that the stream and \<open>read_all_to_batches\<close> have the same number of rows passes on every
  readable \<open>pg_attribute\<close>, and the incremental test when it has a visible row.  The test that the row
  iterator and the batches have the same number of rows passes exactly when the relation has a tuple and no
  tuple has a deleter that is not marked invalid: it fails on a catalog that any \<open>ALTER TABLE\<close> or
  \<open>DROP TABLE\<close> has touched and no vacuum has cleaned.
\<close>

theorem attribute_scan_tests:
  fixes fs :: "'h file_system"
  assumes "relation_pages fs dir db PG_ATTRIBUTE_RELATION_OID hps"
    and "\<forall>page \<in> set hps. \<forall>t \<in> set (live_tuples None page). \<exists>r. decode_row t pg_attribute_catalog_schema = Ok r"
    and "makes_batches lib view" and "reads_arrays lib view" and "filters_batches lib view"
    and "accepts_exact (fixed_append_error lib)"
    and "rows = concat (map page_rows hps)"
  shows "test_batch_stream_matches_read_all lib view fs (Ok dir) threads db = Some (Ok ()) \<and>
    (test_batch_stream_yields_incrementally lib view fs (Ok dir) threads db = Some (Ok ()) \<longleftrightarrow>
      (\<exists>t \<in> set rows. tuple_visible None (header t))) \<and>
    (test_page_row_iter_count_matches_batches lib view fs (Ok dir) threads db = Some (Ok ()) \<longleftrightarrow>
      rows \<noteq> [] \<and> (\<forall>t \<in> set rows. has_flag (header t) (info_mask_u16 XmaxInvalid) \<or> t_xmax (header t) = 0))"
proof -
  let ?s = pg_attribute_catalog_schema
  let ?r = "table_file_reader_new db (unat PG_ATTRIBUTE_RELATION_OID) :: 'h table_file_reader"
  let ?live = "filter (\<lambda>t. tuple_visible None (header t)) rows"
  obtain pages bs where holds: "relation_holds fs dir ?r pages" "length pages < 2 ^ 32"
    and conv: "map (page_batch lib ?s None None) pages = map Ok bs"
    and all2: "list_all2 (\<lambda>page. plain_batch lib view ?s [0..<num_columns ?s] (live_tuples None page)) hps bs"
    and bs: "all_batches lib fs (Ok dir) threads db PG_ATTRIBUTE_RELATION_OID ?s None = Some (Ok bs)"
    using relation_batches [OF assms(1) attribute_schema_plain assms(3,6,2), of None "[0..<num_columns ?s]" threads]
    by blast
  have total: "total_rows view bs = length ?live" unfolding assms(7) by (rule total_plain_rows [OF all2])
  have plain: "\<exists>ts. plain_batch lib view ?s [0..<num_columns ?s] ts b" if "b \<in> set bs" for b
    using all2 that by (auto simp: list_all2_conv_all_nth in_set_conv_nth)
  have rows: "relation_rows fs dir db (unat PG_ATTRIBUTE_RELATION_OID) rows"
    unfolding assms(7) by (rule relation_pages_rows [OF assms(1)])
  have "length ?live = length rows \<longleftrightarrow> (\<forall>t \<in> set rows. tuple_visible None (header t))"
    by (metis filter_True length_filter_less less_irrefl)
  then show ?thesis
    using matches_read_all_passes [OF refl holds conv bs, of view] iter_count_passes [OF rows bs, of view]
      yields_incrementally_passes [OF refl holds conv assms(4,5) plain, of threads]
    by (auto simp: total tuple_visible_def filter_empty_conv)
qed

theorem attribute_scan_tests_witness:
  "test_page_row_iter_count_matches_batches view_lib log_view (disk catalog_files) (Ok ''/d'') None 16384 = Some (Ok ())"
proof -
  have live: "live_tuples None (row_page (tuple_bytes (sample_tuple [] attribute_bytes) [0])) = [sample_tuple [] attribute_bytes]"
    by (simp add: live_tuples_filter sample_catalog(4) tuple_visible_def sample_live_tuple)
  have "\<exists>r. decode_row (sample_tuple [] attribute_bytes) pg_attribute_catalog_schema = Ok r"
    using sample_rows_decode(2) from_row_via_decode_row by (auto simp: outcome_simps)
  then show ?thesis
    using attribute_scan_tests [OF sample_catalog(3) _ view_lib_makes view_lib_reads view_lib_filters view_lib_exact refl, of None]
    by (simp add: live sample_catalog(4) sample_live_tuple)
qed

end
