(* ===== verification/TableTests.thy ===== *)
theory TableTests
  imports PageTests
begin

text \<open>
  The tests of \<open>src/table/mod.rs\<close>, \<open>src/file/mod.rs\<close> and \<open>src/heap/tuple.rs\<close>, translated as they stand, and
  what they say of a cluster.  What a test asks of the server (\<open>pg_test_harness\<close>: the OID of a database, the
  rows of a query) is an argument; what it prints is left out.
\<close>

section \<open>The tests of \<open>PgTableReader\<close>\<close>

text \<open>\<open>expect\<close> and \<open>unwrap\<close> on the result of a function that loops.\<close>

definition unwrapped :: "'a pg_result option \<Rightarrow> ('a \<Rightarrow> unit pg_result) \<Rightarrow> unit pg_result option" where
  "unwrapped result rest = map_option (\<lambda>r. obind (unwrap r) rest) result"

definition test_table_reader_bootstrap :: "'h file_system \<Rightarrow> (string, string) outcome \<Rightarrow> unit pg_result option" where
  "test_table_reader_bootstrap fs data_dir =
     unwrapped (pg_table_reader_new fs data_dir 16384) (\<lambda>rd.
       obind (assert_that (pg_class_cache rd \<noteq> [])) (\<lambda>_. assert_that (pg_attribute_cache rd \<noteq> [])))"

definition test_table_reader_set_table :: "'h file_system \<Rightarrow> (string, string) outcome \<Rightarrow> unit pg_result option" where
  "test_table_reader_set_table fs data_dir =
     unwrapped (pg_table_reader_new fs data_dir 16384) (\<lambda>rd.
       case set_table ''pg_class'' rd of (result, rd) \<Rightarrow>
         obind (unwrap result) (\<lambda>_.
         obind (assert_that (table_name rd = Some ''pg_class'')) (\<lambda>_.
         obind (assert_that (reader_schema rd \<noteq> None)) (\<lambda>_.
         obind (unwrap_opt (reader_schema rd)) (\<lambda>s. assert_that (0 < num_columns s))))))"

text \<open>\<open>result.is_err()\<close> and \<open>matches!(result.unwrap_err(), \<dots>)\<close>; a panic of the call is one of the test.\<close>

definition assert_error :: "('e, 'a) outcome \<Rightarrow> ('e \<Rightarrow> bool) \<Rightarrow> unit pg_result" where
  "assert_error result expected =
     (case result of Ok _ \<Rightarrow> Panic | Err e \<Rightarrow> assert_that (expected e) | Panic \<Rightarrow> Panic)"

definition test_table_reader_table_not_found :: "'h file_system \<Rightarrow> (string, string) outcome \<Rightarrow> unit pg_result option" where
  "test_table_reader_table_not_found fs data_dir =
     unwrapped (pg_table_reader_new fs data_dir 16384) (\<lambda>rd.
       assert_error (fst (set_table ''nonexistent_table_xyz'' rd)) (\<lambda>e. case e of TableNotFound _ \<Rightarrow> True | _ \<Rightarrow> False))"

text \<open>Running a second loop on the reader of the first.\<close>

definition unwrapped_then ::
    "'a pg_result option \<Rightarrow> ('a \<Rightarrow> unit pg_result option) \<Rightarrow> unit pg_result option" where
  "unwrapped_then result rest =
     (case result of None \<Rightarrow> None | Some r \<Rightarrow> try_run (unwrap r) rest)"

definition test_table_reader_no_table_selected :: "'h file_system \<Rightarrow> (string, string) outcome \<Rightarrow> unit pg_result option" where
  "test_table_reader_no_table_selected fs data_dir =
     unwrapped_then (pg_table_reader_new fs data_dir 16384) (\<lambda>rd.
       map_option (\<lambda>result. assert_error result (\<lambda>e. e = NoTableSelected)) (fetch_all fs data_dir rd))"

definition test_table_reader_fetch_all :: "'h file_system \<Rightarrow> (string, string) outcome \<Rightarrow> unit pg_result option" where
  "test_table_reader_fetch_all fs data_dir =
     unwrapped_then (pg_table_reader_new fs data_dir 16384) (\<lambda>rd.
       case set_table ''pgbench_accounts'' rd of (result, rd) \<Rightarrow>
         try_run (unwrap result) (\<lambda>_.
           unwrapped (fetch_all fs data_dir rd) (\<lambda>rows.
             obind (assert_that (rows \<noteq> [])) (\<lambda>_.
             obind (index rows 0) (\<lambda>row. assert_that (0 < row_num_columns row))))))"

definition test_table_reader_fetch_by_limit :: "'h file_system \<Rightarrow> (string, string) outcome \<Rightarrow> unit pg_result option" where
  "test_table_reader_fetch_by_limit fs data_dir =
     unwrapped_then (pg_table_reader_new fs data_dir 16384) (\<lambda>rd.
       case set_table ''pg_class'' rd of (result, rd) \<Rightarrow>
         try_run (unwrap result) (\<lambda>_.
           unwrapped (fetch_by_limit fs data_dir 5 rd) (\<lambda>rows.
             obind (assert_that (length rows \<le> 5)) (\<lambda>_. assert_that (rows \<noteq> [])))))"

definition CLASS_ANUM_RELKIND :: usize where
  "CLASS_ANUM_RELKIND = 17"

definition test_table_reader_fetch_with_filter :: "'h file_system \<Rightarrow> (string, string) outcome \<Rightarrow> unit pg_result option" where
  "test_table_reader_fetch_with_filter fs data_dir =
     unwrapped_then (pg_table_reader_new fs data_dir 16384) (\<lambda>rd.
       case set_table ''pg_class'' rd of (result, rd) \<Rightarrow>
         try_run (unwrap result) (\<lambda>_.
           unwrapped (fetch_with_filter fs data_dir (\<lambda>row. row_get row CLASS_ANUM_RELKIND = Some (D_Char 114)) rd)
             (\<lambda>tables. assert_that (tables \<noteq> []))))"

definition test_pg_row_is_null :: "unit pg_result" where
  "test_pg_row_is_null =
     (let row = \<lparr>row_columns = [D_Int4 42, D_Null, D_Bool True]\<rparr> in
      obind (assert_that (\<not> row_is_null row 0)) (\<lambda>_.
      obind (assert_that (row_is_null row 1)) (\<lambda>_.
      obind (assert_that (\<not> row_is_null row 2)) (\<lambda>_.
        assert_that (row_is_null row 99)))))"

definition test_table_reader_accessors :: "'h file_system \<Rightarrow> (string, string) outcome \<Rightarrow> unit pg_result option" where
  "test_table_reader_accessors fs data_dir =
     unwrapped (pg_table_reader_new fs data_dir 16384) (\<lambda>rd.
       obind (assert_that (reader_db rd = 16384)) (\<lambda>_.
       obind (assert_that (table_name rd = None)) (\<lambda>_.
         assert_that (reader_schema rd = None))))"

definition test_list_databases :: "'h file_system \<Rightarrow> (string, string) outcome \<Rightarrow> unit pg_result option" where
  "test_list_databases fs data_dir =
     unwrapped (list_databases fs data_dir) (\<lambda>dbs.
       obind (assert_that (dbs \<noteq> [])) (\<lambda>_.
       let names = map datname dbs in
       obind (assert_that (''template1'' \<in> set names)) (\<lambda>_.
         assert_that (''postgres'' \<in> set names))))"

definition test_get_database_oid :: "'h file_system \<Rightarrow> (string, string) outcome \<Rightarrow> unit pg_result option" where
  "test_get_database_oid fs data_dir =
     unwrapped_then (get_database_oid fs data_dir ''postgres'') (\<lambda>oid.
       try_run (unwrap_opt oid) (\<lambda>oid.
       try_run (assert_that (0 < oid)) (\<lambda>_.
         unwrapped (get_database_oid fs data_dir ''__definitely_not_a_db__'') (\<lambda>oid. assert_that (oid = None)))))"

definition test_table_segment_sizes :: "'h file_system \<Rightarrow> (string, string) outcome \<Rightarrow> unit pg_result option" where
  "test_table_segment_sizes fs data_dir =
     (let reader = table_file_reader_new 0 1262 in
      unwrapped_then (segment_sizes fs data_dir reader) (\<lambda>segs.
        try_run (assert_that (segs \<noteq> [])) (\<lambda>_.
        try_run (assert_that (length segs = 1)) (\<lambda>_.
        try_run (index segs 0) (\<lambda>seg.
        try_run (assert_that (0 < seg_bytes seg)) (\<lambda>_.
        try_run (assert_that (0 < seg_pages seg)) (\<lambda>_.
        try_run (assert_that (seg_bytes seg = seg_pages seg * 8192)) (\<lambda>_.
          unwrapped (num_pages fs data_dir reader) (\<lambda>n. assert_that (n = seg_pages seg))))))))))"

text \<open>A test that returns early is skipped: its result is that of a test that passes.\<close>

definition test_table_segment_sizes_multi_segment ::
    "'h file_system \<Rightarrow> (string, string) outcome \<Rightarrow> unit pg_result option" where
  "test_table_segment_sizes_multi_segment fs data_dir =
     (case get_database_oid fs data_dir ''tpch'' of
        None \<Rightarrow> None
      | Some Panic \<Rightarrow> Some Panic
      | Some result \<Rightarrow>
          (case (case result of Ok (Some oid) \<Rightarrow> Some (unat oid) | _ \<Rightarrow> None) of
             None \<Rightarrow> Some (Ok ())
           | Some tpch_oid \<Rightarrow>
               unwrapped_then (pg_table_reader_new fs data_dir tpch_oid) (\<lambda>rd.
                 case List.find (\<lambda>c. relname c = ''lineitem'' \<and> relkind c = 114) (pg_class_cache rd) of
                   None \<Rightarrow> Some (Ok ())
                 | Some c \<Rightarrow>
                     let r = table_file_reader_new tpch_oid (unat (relfilenode c)) in
                     unwrapped_then (segment_sizes fs data_dir r) (\<lambda>segs.
                       try_run (assert_that (2 \<le> length segs)) (\<lambda>_.
                       try_run (ofold (\<lambda>s _. assert_that (seg_pages s = PAGES_PER_SEGMENT)) (butlast segs) ()) (\<lambda>_.
                       try_run (unwrap_opt (if segs = [] then None else Some (last segs))) (\<lambda>final.
                       try_run (assert_that (seg_pages final < PAGES_PER_SEGMENT)) (\<lambda>_.
                         unwrapped (num_pages fs data_dir r) (\<lambda>total.
                           assert_that (total = sum_list (map seg_pages segs)))))))))))"

section \<open>The tests against a server\<close>

text \<open>
  What PostgreSQL returns for a row of the table: the columns of the two queries, in the types the test
  asks the client library for.  Floating point values are bit patterns, dates and timestamps are counted
  from 1970.
\<close>

record server_row =
  want_id :: i32
  want_bool :: "bool option"
  want_int2 :: "i16 option"
  want_int4 :: "i32 option"
  want_int8 :: "i64 option"
  want_float4 :: "u32 option"
  want_float8 :: "u64 option"
  want_text :: "string option"
  want_bytea :: "bytes option"
  want_date :: "i32 option"
  want_ts :: "i64 option"
  want_tstz :: "i64 option"

text \<open>The index of the first column of a name.\<close>

definition find_column :: "pg_schema \<Rightarrow> string \<Rightarrow> usize pg_result" where
  "find_column s name = unwrap_opt (List.find (\<lambda>i. col_name (columns s ! i) = name) [0..<num_columns s])"

text \<open>\<open>sort_by_key\<close>, which is stable; a row without an \<open>int4\<close> there goes last.\<close>

definition sort_by_id :: "usize \<Rightarrow> pg_row list \<Rightarrow> pg_row list" where
  "sort_by_id col_id rows =
     sort_key (\<lambda>row. case row_get row col_id of Some (D_Int4 v) \<Rightarrow> sint v | _ \<Rightarrow> 2147483647) rows"

text \<open>\<open>match decoded.get(idx)\<close>: a value of the expected variant, \<open>Null\<close> or no column, or a panic.\<close>

definition got :: "(pg_datum \<Rightarrow> 'a option pg_result) \<Rightarrow> pg_row \<Rightarrow> usize \<Rightarrow> 'a option pg_result" where
  "got variant row idx =
     (case row_get row idx of None \<Rightarrow> Ok None | Some d \<Rightarrow> if d = D_Null then Ok None else variant d)"

definition got_int4 :: "pg_datum \<Rightarrow> i32 option pg_result" where
  "got_int4 d = (case d of D_Int4 v \<Rightarrow> Ok (Some v) | _ \<Rightarrow> Panic)"

definition got_text :: "pg_datum \<Rightarrow> string option pg_result" where
  "got_text d = (case d of D_Text v \<Rightarrow> Ok (Some v) | _ \<Rightarrow> Panic)"

definition assert_rows :: "(pg_row \<Rightarrow> server_row \<Rightarrow> unit pg_result) \<Rightarrow> pg_row list \<Rightarrow> server_row list \<Rightarrow> unit pg_result" where
  "assert_rows check rows pg_rows =
     obind (assert_that (length rows = length pg_rows)) (\<lambda>_.
       ofold (\<lambda>(decoded, pg) _. check decoded pg) (zip rows pg_rows) ())"

definition test_table_reader_select_matches_postgres ::
    "string \<Rightarrow> usize \<Rightarrow> server_row list \<Rightarrow> 'h file_system \<Rightarrow> (string, string) outcome \<Rightarrow> unit pg_result option" where
  "test_table_reader_select_matches_postgres table db pg_rows fs data_dir =
     unwrapped_then (pg_table_reader_new fs data_dir db) (\<lambda>rd.
       case set_table table rd of (result, rd) \<Rightarrow>
         try_run (unwrap result) (\<lambda>_.
           unwrapped (fetch_all fs data_dir rd) (\<lambda>rows.
             obind (unwrap_opt (reader_schema rd)) (\<lambda>s.
             obind (find_column s ''id'') (\<lambda>col_id.
             obind (find_column s ''col_int4'') (\<lambda>col_int4.
             obind (find_column s ''col_text'') (\<lambda>col_text.
               assert_rows (\<lambda>decoded pg.
                   obind (case row_get decoded col_id of Some (D_Int4 v) \<Rightarrow> Ok v | _ \<Rightarrow> Panic) (\<lambda>got_id.
                   obind (assert_that (got_id = want_id pg)) (\<lambda>_.
                   obind (got got_int4 decoded col_int4) (\<lambda>v.
                   obind (assert_that (v = want_int4 pg)) (\<lambda>_.
                   obind (got got_text decoded col_text) (\<lambda>v.
                     assert_that (v = want_text pg)))))))
                 (sort_by_id col_id rows) pg_rows)))))))"

text \<open>\<open>==\<close> of \<open>f32\<close> and \<open>f64\<close>: a NaN equals nothing, the two zeros are equal.\<close>

definition float_eq :: "nat \<Rightarrow> nat \<Rightarrow> 'a::len word \<Rightarrow> 'a word \<Rightarrow> bool" where
  "float_eq frac ex a b =
     (let magnitude = (\<lambda>w. unat w mod 2 ^ (frac + ex));
          nan = (\<lambda>w. magnitude w > (2 ^ ex - 1) * 2 ^ frac)
      in \<not> nan a \<and> \<not> nan b \<and> (a = b \<or> magnitude a = 0 \<and> magnitude b = 0))"

definition f32_eq :: "u32 \<Rightarrow> u32 \<Rightarrow> bool" where "f32_eq = float_eq 23 8"
definition f64_eq :: "u64 \<Rightarrow> u64 \<Rightarrow> bool" where "f64_eq = float_eq 52 11"

definition opt_eq :: "('a \<Rightarrow> 'a \<Rightarrow> bool) \<Rightarrow> 'a option \<Rightarrow> 'a option \<Rightarrow> bool" where
  "opt_eq eq x y = (case (x, y) of (Some a, Some b) \<Rightarrow> eq a b | (None, None) \<Rightarrow> True | _ \<Rightarrow> False)"

text \<open>The comparisons of the loop of the decode test, column by column.\<close>

definition check_column ::
    "pg_schema \<Rightarrow> string \<Rightarrow> (pg_datum \<Rightarrow> 'a option pg_result) \<Rightarrow> ('a \<Rightarrow> 'a \<Rightarrow> bool) \<Rightarrow> pg_row \<Rightarrow> 'a option \<Rightarrow> unit pg_result" where
  "check_column s name variant eq decoded want =
     obind (find_column s name) (\<lambda>idx.
     obind (got variant decoded idx) (\<lambda>v. assert_that (opt_eq eq v want)))"

definition check_decoded :: "pg_schema \<Rightarrow> pg_row \<Rightarrow> server_row \<Rightarrow> unit pg_result" where
  "check_decoded s decoded pg =
     obind (check_column s ''col_bool'' (\<lambda>d. case d of D_Bool v \<Rightarrow> Ok (Some v) | _ \<Rightarrow> Panic) (=) decoded (want_bool pg)) (\<lambda>_.
     obind (check_column s ''col_int2'' (\<lambda>d. case d of D_Int2 v \<Rightarrow> Ok (Some v) | _ \<Rightarrow> Panic) (=) decoded (want_int2 pg)) (\<lambda>_.
     obind (check_column s ''col_int4'' got_int4 (=) decoded (want_int4 pg)) (\<lambda>_.
     obind (check_column s ''col_int8'' (\<lambda>d. case d of D_Int8 v \<Rightarrow> Ok (Some v) | _ \<Rightarrow> Panic) (=) decoded (want_int8 pg)) (\<lambda>_.
     obind (check_column s ''col_float4'' (\<lambda>d. case d of D_Float4 v \<Rightarrow> Ok (Some v) | _ \<Rightarrow> Panic) f32_eq decoded (want_float4 pg)) (\<lambda>_.
     obind (check_column s ''col_float8'' (\<lambda>d. case d of D_Float8 v \<Rightarrow> Ok (Some v) | _ \<Rightarrow> Panic) f64_eq decoded (want_float8 pg)) (\<lambda>_.
     obind (check_column s ''col_text'' got_text (=) decoded (want_text pg)) (\<lambda>_.
     obind (check_column s ''col_bytea'' (\<lambda>d. case d of D_Bytea v \<Rightarrow> Ok (Some v) | _ \<Rightarrow> Panic) (=) decoded (want_bytea pg)) (\<lambda>_.
     obind (check_column s ''col_date''
        (\<lambda>d. case d of D_Date v \<Rightarrow> obind (checked_word (sint v + 10957)) (\<lambda>v. Ok (Some v)) | _ \<Rightarrow> Panic) (=) decoded (want_date pg)) (\<lambda>_.
     obind (check_column s ''col_ts''
        (\<lambda>d. case d of D_Timestamp v \<Rightarrow> obind (checked_word (sint v + 946684800000000)) (\<lambda>v. Ok (Some v)) | _ \<Rightarrow> Panic) (=)
        decoded (want_ts pg)) (\<lambda>_.
       check_column s ''col_tstz''
        (\<lambda>d. case d of D_TimestampTz v \<Rightarrow> obind (checked_word (sint v + 946684800000000)) (\<lambda>v. Ok (Some v)) | _ \<Rightarrow> Panic) (=)
        decoded (want_tstz pg)))))))))))"

text \<open>The test of \<open>src/heap/tuple.rs\<close>, which looks the columns up before the loop.\<close>

definition test_decode_columns_match_live_postgres ::
    "string \<Rightarrow> usize \<Rightarrow> server_row list \<Rightarrow> 'h file_system \<Rightarrow> (string, string) outcome \<Rightarrow> unit pg_result option" where
  "test_decode_columns_match_live_postgres table db pg_rows fs data_dir =
     try_run (assert_that (pg_rows \<noteq> [])) (\<lambda>_.
     unwrapped_then (pg_table_reader_new fs data_dir db) (\<lambda>rd.
       case set_table table rd of (result, rd) \<Rightarrow>
         try_run (unwrap result) (\<lambda>_.
           unwrapped (fetch_all fs data_dir rd) (\<lambda>rows.
             obind (unwrap_opt (reader_schema rd)) (\<lambda>s.
             let rows = sort_by_id 0 rows in
             obind (assert_that (length rows = length pg_rows)) (\<lambda>_.
             obind (omap (find_column s) [''col_bool'', ''col_int2'', ''col_int4'', ''col_int8'', ''col_float4'', ''col_float8'',
                 ''col_text'', ''col_bytea'', ''col_date'', ''col_ts'', ''col_tstz'']) (\<lambda>_.
               assert_rows (check_decoded s) rows pg_rows)))))))"

section \<open>Lemmas\<close>

lemma unwrapped_simps [simp]:
  "unwrapped (Some (Ok a)) rest = Some (rest a)" "unwrapped None rest = None"
  "unwrapped (Some (Err e)) rest = Some Panic" "unwrapped (Some Panic) rest = Some Panic"
  "unwrapped_then (Some (Ok a)) rest' = rest' a" "unwrapped_then None rest' = None"
  "unwrapped_then (Some (Err e)) rest' = Some Panic" "unwrapped_then (Some Panic) rest' = Some Panic"
  by (simp_all add: unwrapped_def unwrapped_then_def)

lemma try_run_assert: "try_run (assert_that b) rest = (if b then rest () else Some Panic)"
  by (simp add: assert_that_def)

lemma assert_bind: "obind (assert_that b) rest = (if b then rest () else Panic)"
  by (simp add: assert_that_def)

lemmas assert_simps = try_run_assert assert_bind assert_that_Ok

lemma try_run_Ok: "try_run m rest = Some (Ok b) \<Longrightarrow> \<exists>a. m = Ok a \<and> rest a = Some (Ok b)"
  by (cases m) auto

lemma unwrapped_Ok:
  "unwrapped m rest = Some (Ok ()) \<Longrightarrow> \<exists>a. m = Some (Ok a) \<and> rest a = Ok ()"
  "unwrapped_then m rest' = Some (Ok ()) \<Longrightarrow> \<exists>a. m = Some (Ok a) \<and> rest' a = Some (Ok ())"
  by (auto simp: unwrapped_def unwrapped_then_def outcome_simps split: option.splits dest!: try_run_Ok)

text \<open>\<open>fetch_by_limit\<close> returns no row, whatever the files hold.\<close>

lemma fetch_by_limit_empty: "fetch_by_limit fs data_dir limit rd = Some (Ok rows) \<Longrightarrow> rows = []"
  by (auto simp: fetch_by_limit_def outcome_simps dest!: try_run_Ok)

lemma find_member: "List.find p xs = Some x \<Longrightarrow> x \<in> set xs \<and> p x"
  by (auto simp: find_Some_iff)

lemma new_reader:
  "pg_table_reader_new fs data_dir db = Some (Ok rd) \<Longrightarrow>
    reader_db rd = db \<and> current_table rd = None \<and> current_schema rd = None"
  by (auto simp: pg_table_reader_new_def split: option.splits dest!: try_run_Ok)

section \<open>Properties\<close>

text \<open>
  The tests of \<open>PgTableReader\<close> on any file system on which the constructor returns a reader: the
  accessor test and the test of fetching without a selection pass, the test of a missing table passes
  exactly when no ordinary table has its name, the bootstrap test exactly when both catalogs gave a row,
  the selection test exactly when \<open>pg_class\<close> is an ordinary table with a column; and the test of
  \<open>fetch_by_limit\<close>, which asks for at least one row, passes on no file system at all.
\<close>

theorem reader_tests_pass:
  assumes "pg_table_reader_new fs data_dir 16384 = Some (Ok rd)"
  shows "test_table_reader_accessors fs data_dir = Some (Ok ()) \<and>
    test_table_reader_no_table_selected fs data_dir = Some (Ok ()) \<and>
    (test_table_reader_table_not_found fs data_dir = Some (Ok ()) \<longleftrightarrow>
      (\<forall>c \<in> set (pg_class_cache rd). is_table c \<longrightarrow> relname c \<noteq> ''nonexistent_table_xyz'')) \<and>
    (test_table_reader_bootstrap fs data_dir = Some (Ok ()) \<longleftrightarrow> pg_class_cache rd \<noteq> [] \<and> pg_attribute_cache rd \<noteq> []) \<and>
    (test_table_reader_set_table fs data_dir = Some (Ok ()) \<longleftrightarrow>
      (\<exists>c. List.find (\<lambda>c. relname c = ''pg_class'' \<and> is_table c) (pg_class_cache rd) = Some c \<and>
        0 < num_columns (table_schema rd c))) \<and>
    test_table_reader_fetch_by_limit fs data_dir \<noteq> Some (Ok ())"
proof (intro conjI)
  note rd = new_reader [OF assms]
  show "test_table_reader_accessors fs data_dir = Some (Ok ())"
    using rd by (simp add: test_table_reader_accessors_def assms table_name_def reader_schema_def)
  show "test_table_reader_no_table_selected fs data_dir = Some (Ok ())"
    using rd by (simp add: test_table_reader_no_table_selected_def assms fetch_all_def require_table_def assert_error_def)
  show "test_table_reader_table_not_found fs data_dir = Some (Ok ()) \<longleftrightarrow>
      (\<forall>c \<in> set (pg_class_cache rd). is_table c \<longrightarrow> relname c \<noteq> ''nonexistent_table_xyz'')"
    by (auto simp: test_table_reader_table_not_found_def assms set_table_def assert_error_def find_None_iff
        split: option.split dest!: find_member)
  show "test_table_reader_bootstrap fs data_dir = Some (Ok ()) \<longleftrightarrow> pg_class_cache rd \<noteq> [] \<and> pg_attribute_cache rd \<noteq> []"
    by (simp add: test_table_reader_bootstrap_def assms assert_simps)
  show "test_table_reader_set_table fs data_dir = Some (Ok ()) \<longleftrightarrow>
      (\<exists>c. List.find (\<lambda>c. relname c = ''pg_class'' \<and> is_table c) (pg_class_cache rd) = Some c \<and>
        0 < num_columns (table_schema rd c))"
  proof (cases "List.find (\<lambda>c. relname c = ''pg_class'' \<and> is_table c) (pg_class_cache rd)")
    case None
    then show ?thesis by (simp add: test_table_reader_set_table_def assms set_table_def)
  next
    case (Some c)
    then show ?thesis
      using find_member [OF Some]
      by (simp add: test_table_reader_set_table_def assms set_table_def assert_simps table_name_def reader_schema_def)
  qed
  show "test_table_reader_fetch_by_limit fs data_dir \<noteq> Some (Ok ())"
    by (auto simp: test_table_reader_fetch_by_limit_def assert_simps split: prod.splits
        dest!: unwrapped_Ok try_run_Ok fetch_by_limit_empty)
qed

theorem reader_tests_pass_witness:
  "test_table_reader_fetch_by_limit (disk catalog_files) (Ok ''/d'') \<noteq> Some (Ok ()) \<and>
    test_table_reader_no_table_selected (disk catalog_files) (Ok ''/d'') = Some (Ok ())"
proof -
  note rows = relation_pages_rows [OF sample_catalog(1)] relation_pages_rows [OF sample_catalog(3)]
  have "unat PG_CLASS_RELATION_OID = 1259" "unat PG_ATTRIBUTE_RELATION_OID = 1249"
    by (simp_all add: PG_CLASS_RELATION_OID_def PG_ATTRIBUTE_RELATION_OID_def)
  then have "\<exists>rd. pg_table_reader_new (disk catalog_files) (Ok ''/d'') 16384 = Some (Ok rd)"
    using table_reader_loaded [of "disk catalog_files" "''/d''" 16384 "[sample_tuple [] class_bytes]" "[sample_tuple [] attribute_bytes]"]
      rows sample_catalog(4,5) by (auto simp: sample_rows_decode)
  then obtain rd where "pg_table_reader_new (disk catalog_files) (Ok ''/d'') 16384 = Some (Ok rd)" by blast
  from reader_tests_pass [OF this] show ?thesis by simp
qed

text \<open>
  On a readable \<open>pg_database\<close>, the test of \<open>list_databases\<close> passes exactly when \<open>template1\<close> and
  \<open>postgres\<close> are listed, and the test of \<open>get_database_oid\<close> when the first \<open>postgres\<close> has a positive OID and no
  database has the name that should not exist.
\<close>

theorem database_tests_pass:
  assumes "relation_rows fs dir 0 1262 rows"
    and "\<forall>t \<in> set (live_rows rows). pg_database_from_row t pg_database_catalog_schema \<noteq> Panic"
    and "dbs = filter (\<lambda>d. datname d \<noteq> [])
      (decoded_rows (\<lambda>t. pg_database_from_row t pg_database_catalog_schema) (live_rows rows))"
  shows "(test_list_databases fs (Ok dir) = Some (Ok ()) \<longleftrightarrow> {''template1'', ''postgres''} \<subseteq> datname ` set dbs) \<and>
    (test_get_database_oid fs (Ok dir) = Some (Ok ()) \<longleftrightarrow>
      (\<exists>d. List.find (\<lambda>d. datname d = ''postgres'') dbs = Some d \<and> 0 < db_oid d) \<and>
      ''__definitely_not_a_db__'' \<notin> datname ` set dbs)"
proof -
  have list: "list_databases fs (Ok dir) = Some (Ok dbs)"
    using databases_found [OF assms] by blast
  have missing: "List.find (\<lambda>d. datname d = name) dbs = None \<longleftrightarrow> name \<notin> datname ` set dbs" for name
    by (auto simp: find_None_iff)
  have "test_list_databases fs (Ok dir) = Some (Ok ()) \<longleftrightarrow> {''template1'', ''postgres''} \<subseteq> datname ` set dbs"
    by (auto simp: test_list_databases_def list assert_simps Let_def)
  moreover have "test_get_database_oid fs (Ok dir) = Some (Ok ()) \<longleftrightarrow>
      (\<exists>d. List.find (\<lambda>d. datname d = ''postgres'') dbs = Some d \<and> 0 < db_oid d) \<and>
      ''__definitely_not_a_db__'' \<notin> datname ` set dbs"
    unfolding test_get_database_oid_def get_database_oid_def list
    by (cases "List.find (\<lambda>d. datname d = ''postgres'') dbs") (simp_all add: assert_simps missing [of "''__definitely_not_a_db__''"])
  ultimately show ?thesis by blast
qed

theorem database_tests_pass_witness:
  "test_list_databases (disk sample_files) (Ok ''/d'') \<noteq> Some (Ok ())"
  using database_tests_pass [OF sample_relations(3) _ refl]
  by (simp add: sample_rows_decode sample_live_tuple decoded_rows_def) (simp add: sample_database_def)

text \<open>
  The tests against a server compare the rows that \<open>fetch_all\<close> reads with those that PostgreSQL returns:
  since \<open>fetch_all\<close> returns every stored tuple, both fail on a table whose number of stored tuples, dead
  ones included, is not the number of rows of the query, so after any committed \<open>UPDATE\<close> or \<open>DELETE\<close> that
  was not vacuumed yet.
\<close>

theorem server_tests_count_dead_rows:
  assumes "pg_table_reader_new fs (Ok dir) db = Some (Ok rd)"
    and "List.find (\<lambda>c. relname c = table \<and> is_table c) (pg_class_cache rd) = Some c"
    and "relation_rows fs dir db (unat (relfilenode c)) rows" and "length rows \<noteq> length pg_rows"
  shows "test_table_reader_select_matches_postgres table db pg_rows fs (Ok dir) \<noteq> Some (Ok ()) \<and>
    test_decode_columns_match_live_postgres table db pg_rows fs (Ok dir) \<noteq> Some (Ok ())"
proof -
  define rd' where "rd' = rd\<lparr>current_table := Some c, current_schema := Some (table_schema rd c)\<rparr>"
  have set: "set_table table rd = (Ok (), rd')" by (simp add: set_table_def assms(2) rd'_def)
  have sel: "require_table rd' = Ok (c, table_schema rd c)" "reader_db rd' = db"
    using new_reader [OF assms(1)] by (simp_all add: require_table_def rd'_def)
  have fetched: "length rs = length rows" if "fetch_all fs (Ok dir) rd' = Some (Ok rs)" for rs
    using that fetch_all_rows [OF sel(1), unfolded sel(2), OF assms(3)] omap_length by auto
  show ?thesis
    using assms(4) fetched
    by (auto simp: test_table_reader_select_matches_postgres_def test_decode_columns_match_live_postgres_def assms(1) set
        assert_rows_def assert_simps sort_by_id_def outcome_simps Let_def split: if_splits dest!: unwrapped_Ok)
qed

text \<open>
  On a \<open>pg_database\<close> of one file of fewer than 131072 pages, the test of \<open>segment_sizes\<close> passes exactly when
  the file is not empty and has no torn page at its end.
\<close>

theorem segment_sizes_test_passes:
  fixes fs :: "'h file_system"
  assumes "metadata_len fs (segment_path dir (table_file_reader_new 0 1262 :: 'h table_file_reader) 0) = Ok n"
    and "n div 8192 < 131072"
  shows "test_table_segment_sizes fs (Ok dir) = Some (Ok ()) \<longleftrightarrow> 0 < n \<and> 8192 dvd n"
proof -
  let ?r = "table_file_reader_new 0 1262 :: 'h table_file_reader"
  let ?seg = "\<lparr>seg_path = segment_path dir ?r 0, seg_bytes = n, seg_pages = n div 8192\<rparr>"
  have "segment_step fs (Ok dir) ?r 0 = Ok (Some ?seg, False)"
    using assms by (simp add: segment_step_eq PAGES_PER_SEGMENT_value)
  then have segs: "segment_sizes fs (Ok dir) ?r = Some (Ok [?seg])"
    by (simp add: segment_sizes_def segment_loop.simps)
  have "8192 dvd n \<longleftrightarrow> n = n div 8192 * 8192" by (metis dvd_div_mult_self dvd_triv_right)
  then show ?thesis
    using dvd_imp_le [of 8192 n]
    by (auto simp: test_table_segment_sizes_def Let_def segs assert_simps num_pages_def index_Ok div_greater_zero_iff)
qed

theorem server_tests_count_dead_rows_witness:
  "test_table_reader_select_matches_postgres ''t1'' 5 [pg_row] (disk sample_files) (Ok ''/d'') \<noteq> Some (Ok ())"
proof -
  have "\<exists>rd. pg_table_reader_new (disk sample_files) (Ok ''/d'') 5 = Some (Ok rd) \<and> pg_class_cache rd = [sample_class]"
    using table_reader_loaded [OF sample_relations(1,2)]
    by (auto simp: sample_rows_decode sample_live_tuple decoded_rows_def)
  then obtain rd where rd: "pg_table_reader_new (disk sample_files) (Ok ''/d'') 5 = Some (Ok rd)" "pg_class_cache rd = [sample_class]"
    by blast
  have "List.find (\<lambda>c. relname c = ''t1'' \<and> is_table c) (pg_class_cache rd) = Some sample_class"
    by (simp add: rd(2) is_table_def) (simp add: sample_class_def)
  moreover have "relation_rows (disk sample_files) ''/d'' 5 (unat (relfilenode sample_class))
      [sample_tuple [5] [5, 0, 0, 0, 7, 0, 0, 0], sample_deleted]"
    using sample_table_rows by (simp add: sample_class_def)
  ultimately show ?thesis using server_tests_count_dead_rows [OF rd(1), of "''t1''" sample_class _ "[pg_row]"] by simp
qed

theorem segment_sizes_test_passes_witness:
  "test_table_segment_sizes (one_file ''/d/global/1262'' (replicate 8192 0)) (Ok ''/d'') = Some (Ok ())"
proof -
  have "metadata_len (one_file ''/d/global/1262'' (replicate 8192 0))
      (segment_path ''/d'' (table_file_reader_new 0 1262 :: bytes table_file_reader) 0) = Ok 8192"
    by (simp add: segment_path_def table_file_reader_new_def sample_numbers disk_def Let_def)
  from segment_sizes_test_passes [OF this] show ?thesis by simp
qed

end
