(* ===== verification/FileTests.thy ===== *)
theory FileTests
  imports TableTests Relmap Display
begin

text \<open>
  The tests of \<open>src/file/mod.rs\<close>, translated as they stand.  \<open>read_file\<close> is \<open>fs::read\<close>; the logger that two
  of the tests install is a cell of the process, which \<open>env_logger\<close> refuses to set twice.
\<close>

section \<open>The tests\<close>

definition test_parse_filenode_map ::
    "(string \<Rightarrow> bytes option) \<Rightarrow> (string, string) outcome \<Rightarrow> unit pg_result" where
  "test_parse_filenode_map read_file data_dir =
     obind (unwrap data_dir) (\<lambda>dir.
     obind (unwrap_opt (read_file (dir @ ''/global/pg_filenode.map''))) (\<lambda>buf.
     obind (unwrap (parse_relmap buf)) (\<lambda>relmap.
     obind (assert_that (0 < num_mappings relmap)) (\<lambda>_.
       assert_that (length (mappings relmap) = unat (num_mappings relmap))))))"

definition test_basic_page_header :: "'h file_system \<Rightarrow> (string, string) outcome \<Rightarrow> unit pg_result" where
  "test_basic_page_header fs data_dir =
     obind (unwrap (get_page_reader (table_file_reader_new 16384 16630))) (\<lambda>page_reader.
     obind (unwrap (fst (get_page_by_index fs data_dir page_reader 10))) (\<lambda>_. Ok ()))"

text \<open>\<open>Builder::from_env(env).init()\<close>: the state is whether the process has a logger.\<close>

definition init_logger :: "bool \<Rightarrow> unit pg_result \<times> bool" where
  "init_logger has_logger = (if has_logger then Panic else Ok (), True)"

text \<open>
  The loop over the columns of a tuple, which advances the offset by the size of a column and does not
  align it.  A \<open>NULL\<close> is printed; what happens on another error depends on the test.
\<close>

fun print_columns ::
    "float_fmt \<Rightarrow> unit pg_result \<Rightarrow> heap_tuple_data \<Rightarrow> pg_schema \<Rightarrow> usize list \<Rightarrow> usize \<Rightarrow> unit pg_result" where
  "print_columns ff on_error t s [] offset = Ok ()"
| "print_columns ff on_error t s (col_index # rest) offset =
     (case get_column t (ColumnIndex col_index) s offset of
        Ok (datum, n) \<Rightarrow>
          (case datum_to_string ff datum of
             Panic \<Rightarrow> Panic
           | _ \<Rightarrow> print_columns ff on_error t s rest (offset + n))
      | Err e \<Rightarrow>
          (case e of
             NullColumnValue _ \<Rightarrow> print_columns ff on_error t s rest offset
           | _ \<Rightarrow> on_error)
      | Panic \<Rightarrow> Panic)"

definition test_page_row_iter ::
    "float_fmt \<Rightarrow> 'h file_system \<Rightarrow> (string, string) outcome \<Rightarrow> bool \<Rightarrow> unit pg_result option \<times> bool" where
  "test_page_row_iter ff fs data_dir has_logger =
     (case init_logger has_logger of (installed, has_logger) \<Rightarrow>
      (try_run installed (\<lambda>_.
         let s = pg_class_catalog_schema in
         try_run (unwrap (get_page_reader (table_file_reader_new 16384 (unat PG_CLASS_RELATION_OID)))) (\<lambda>page_reader.
           for_take (row_iter_next fs data_dir)
             (\<lambda>row _. obind (unwrap row) (\<lambda>tuple. print_columns ff Panic tuple s [0..<num_columns s] 0))
             1000000 (into_iter page_reader) ())),
       has_logger))"

definition test_pgclass_parse ::
    "'h file_system \<Rightarrow> (string, string) outcome \<Rightarrow> bool \<Rightarrow> unit pg_result option \<times> bool" where
  "test_pgclass_parse fs data_dir has_logger =
     (case init_logger has_logger of (installed, has_logger) \<Rightarrow>
      (try_run installed (\<lambda>_.
         let s = pg_class_catalog_schema in
         try_run (unwrap (get_page_reader (table_file_reader_new 16384 (unat PG_CLASS_RELATION_OID)))) (\<lambda>page_reader.
           for_take (row_iter_next fs data_dir)
             (\<lambda>row _. obind (unwrap row) (\<lambda>tuple. obind (unwrap (pg_class_from_row tuple s)) (\<lambda>_. Ok ())))
             1000000 (into_iter page_reader) ())),
       has_logger))"

text \<open>
  The end-to-end test: the first loop stops at the table; a datum that does not decode ends the line of its
  row.
\<close>

definition find_table :: "heap_tuple_data pg_result \<Rightarrow> pg_class option pg_result" where
  "find_table row_result =
     obind (unwrap row_result) (\<lambda>tuple.
     obind (unwrap (pg_class_from_row tuple pg_class_catalog_schema)) (\<lambda>row.
       Ok (if relkind row = 114 \<and> relname row = ''hits'' then Some row else None)))"

partial_function (option) find_table_loop ::
    "'h file_system \<Rightarrow> (string, string) outcome \<Rightarrow> 'h page_row_iter \<Rightarrow> pg_class option pg_result option" where
  "find_table_loop fs data_dir it =
     (case row_iter_next fs data_dir it of
        None \<Rightarrow> None
      | Some (Ok None, it) \<Rightarrow> Some (Ok None)
      | Some (Ok (Some row_result), it) \<Rightarrow>
          (case find_table row_result of
             Ok None \<Rightarrow> find_table_loop fs data_dir it
           | Ok (Some table) \<Rightarrow> Some (Ok (Some table))
           | Err e \<Rightarrow> Some (Err e)
           | Panic \<Rightarrow> Some Panic)
      | Some (Err e, it) \<Rightarrow> Some (Err e)
      | Some (Panic, it) \<Rightarrow> Some Panic)"

definition test_catalog_bootstrap_read_user_table ::
    "float_fmt \<Rightarrow> usize \<Rightarrow> 'h file_system \<Rightarrow> (string, string) outcome \<Rightarrow> unit pg_result option" where
  "test_catalog_bootstrap_read_user_table ff db fs data_dir =
     try_run (unwrap (get_page_reader (table_file_reader_new db (unat PG_CLASS_RELATION_OID)))) (\<lambda>class_reader.
     unwrapped_then (find_table_loop fs data_dir (into_iter class_reader)) (\<lambda>target_table.
     try_run (unwrap_opt target_table) (\<lambda>table.
     try_run (unwrap (get_page_reader (table_file_reader_new db (unat PG_ATTRIBUTE_RELATION_OID)))) (\<lambda>attr_reader.
     unwrapped_then (for_each (row_iter_next fs data_dir)
         (\<lambda>row_result attrs.
            obind (unwrap row_result) (\<lambda>tuple.
            obind (unwrap (pg_attribute_from_row tuple pg_attribute_catalog_schema)) (\<lambda>attr.
              Ok (if attrelid attr = class_oid table then attrs @ [attr] else attrs))))
         (into_iter attr_reader) []) (\<lambda>table_attrs.
     try_run (assert_that (table_attrs \<noteq> [])) (\<lambda>_.
     let user_schema = from_attributes (relname table) table_attrs in
     try_run (assert_that (0 < num_columns user_schema)) (\<lambda>_.
     try_run (unwrap (get_page_reader (table_file_reader_new db (unat (relfilenode table))))) (\<lambda>page_reader.
     unwrapped (for_take (row_iter_next fs data_dir)
         (\<lambda>row_result row_count.
            obind (unwrap row_result) (\<lambda>tuple.
            obind (print_columns ff (Ok ()) tuple user_schema [0..<num_columns user_schema] 0) (\<lambda>_.
              Ok (row_count + 1))))
         100 (into_iter page_reader) (0 :: usize)) (\<lambda>row_count.
       assert_that (0 < row_count))))))))))"

definition test_basic_tuple_header :: "unit pg_result" where
  "test_basic_tuple_header = Panic"

section \<open>Lemmas\<close>

lemma parsed_mappings:
  assumes "parse_relmap buf = Ok f"
  shows "num_mappings f \<noteq> 0 \<and> length (mappings f) = unat (num_mappings f)"
  using assms
  by (auto simp: parse_relmap_def Let_def outcome_simps unat_eq_zero split: if_splits dest!: omap_length)

section \<open>Properties\<close>

text \<open>
  The test of \<open>pg_filenode.map\<close> passes exactly when the file is there and parses: its two assertions hold of
  every map that parses.
\<close>

theorem filenode_map_test_passes:
  "test_parse_filenode_map read_file (Ok dir) = Ok () \<longleftrightarrow>
    (\<exists>buf relmap. read_file (dir @ ''/global/pg_filenode.map'') = Some buf \<and> parse_relmap buf = Ok relmap)"
  by (auto simp: test_parse_filenode_map_def outcome_simps assert_simps word_gt_0 dest: parsed_mappings)

text \<open>
  The two tests that install a logger cannot both pass in one process: whichever runs second panics before
  it reads a page, on any files.
\<close>

theorem logger_tests_conflict:
  "test_pgclass_parse fs data_dir (snd (test_page_row_iter ff fs data_dir has_logger)) = (Some Panic, True) \<and>
    test_page_row_iter ff fs data_dir (snd (test_pgclass_parse fs data_dir has_logger)) = (Some Panic, True)"
  by (simp add: test_pgclass_parse_def test_page_row_iter_def init_logger_def)

text \<open>
  The end-to-end test prints a wrong value after a column that is followed by padding, and passes: of a row
  of \<open>bool\<close> and \<open>int4\<close> it reads the second column one byte behind the first, where the row decoder skips to
  the next multiple of four.
\<close>

theorem test_walk_ignores_alignment:
  assumes "s = pg_schema_new nm [pg_column_new a T_Bool True (-1), pg_column_new b T_Int4 True (-1)]"
    and "null_bitmap t = []" and "data t = [1, 0, 0, 0, 7, 0, 0, 0]"
  shows "decode_row t s = Ok \<lparr>row_columns = [D_Bool True, D_Int4 7]\<rparr> \<and>
    get_column t (ColumnIndex 0) s 0 = Ok (D_Bool True, 1) \<and>
    get_column t (ColumnIndex 1) s 1 = Ok (D_Int4 117440512, 4) \<and>
    print_columns ff (Ok ()) t s [0..<num_columns s] 0 = Ok ()"
proof (intro conjI)
  have col: "columns s = [pg_column_new a T_Bool True (-1), pg_column_new b T_Int4 True (-1)]"
    by (simp add: assms(1) pg_schema_new_def)
  have nul: "\<not> is_null t i" for i using assms(2) by (simp add: is_null_def)
  have d: "row_data s [Some (D_Bool True), Some (D_Int4 7)] = Some [1, 0, 0, 0, 7, 0, 0, 0]"
    by (simp add: row_data_def col pg_column_new_def cell_simps) (simp add: eval_nat_numeral)
  show "decode_row t s = Ok \<lparr>row_columns = [D_Bool True, D_Int4 7]\<rparr>"
    using decode_row_formed [OF d, of t "[]"] assms(3) nul by (simp add: num_columns_def col datum_or_null_def upt_rec)
  have first: "get_column t (ColumnIndex 0) s 0 = Ok (D_Bool True, 1)"
    and second: "get_column t (ColumnIndex 1) s 1 = Ok (D_Int4 117440512, 4)"
    by (simp_all add: get_column_def resolve_column_def column_def col pg_column_new_def nul assms(3) decode_datum_def
        codec_arm_simps get_range_def Let_def)
  show "get_column t (ColumnIndex 0) s 0 = Ok (D_Bool True, 1)" by (rule first)
  show "get_column t (ColumnIndex 1) s 1 = Ok (D_Int4 117440512, 4)" by (rule second)
  show "print_columns ff (Ok ()) t s [0..<num_columns s] 0 = Ok ()"
    using first second by (simp add: num_columns_def col upt_rec)
qed

end
