(* ===== verification/TableProgram.thy ===== *)
theory TableProgram
  imports TableTests Display DataDir
begin

text \<open>
  The program \<open>src/examples/table_reader.rs\<close>: given a data directory and a database name it looks the
  database up, bootstraps its catalogs, selects a table and prints its rows.  A run is the lines it prints
  and how it ends; \<open>None\<close> is a run that does not.  Of the derived \<open>Debug\<close> of a schema and of the clock only
  the text in their lines is used, so that they are parameters.  Its lemma and theorem compose the results
  on the database list, the catalogs, the row iterator, the row decoder and the printer.
\<close>

section \<open>The program\<close>

text \<open>\<open>Box<dyn Error>\<close>: an error of the crate, or a message.\<close>

datatype main_error = ReaderError pg_error | ErrorMessage string

type_synonym run = "((main_error, unit) outcome \<times> string list) option"

text \<open>\<open>println!\<close> and the \<open>?\<close> on a result of the crate.\<close>

definition say :: "string \<Rightarrow> run \<Rightarrow> run" where
  "say line rest = map_option (\<lambda>(ending, lines). (ending, line # lines)) rest"

definition attempt :: "'a pg_result option \<Rightarrow> ('a \<Rightarrow> run) \<Rightarrow> run" where
  "attempt m rest =
     (case m of
        None \<Rightarrow> None
      | Some (Ok a) \<Rightarrow> rest a
      | Some (Err e) \<Rightarrow> Some (Err (ReaderError e), [])
      | Some Panic \<Rightarrow> Some (Panic, []))"

fun print_rows :: "float_fmt \<Rightarrow> pg_row list \<Rightarrow> run" where
  "print_rows ff [] = Some (Ok (), [])"
| "print_rows ff (row # rows) =
     (case row_to_string ff row of
        Ok line \<Rightarrow> say line (print_rows ff rows)
      | _ \<Rightarrow> Some (Panic, []))"

text \<open>The program for a table name, which \<open>main\<close> fixes, from the environment and the data directory cell; the
  logger that it installs first is new in its process.\<close>

definition table_reader_run ::
    "float_fmt \<Rightarrow> (pg_schema option \<Rightarrow> string) \<Rightarrow> string \<Rightarrow> 'v config_env \<Rightarrow> 'h file_system \<Rightarrow>
     string \<Rightarrow> string list \<Rightarrow> data_dir_cell \<Rightarrow> run" where
  "table_reader_run ff debug_schema elapsed env fs table args cell =
     (case args of
        [] \<Rightarrow> Some (Panic, [])
      | dir # rest \<Rightarrow>
          let data_dir = get_data_dir env (set_data_dir dir cell);
              db_name = (case rest of [] \<Rightarrow> ''postgres'' | name # _ \<Rightarrow> name)
          in
          attempt (get_database_oid fs data_dir db_name) (\<lambda>found.
            case found of
              None \<Rightarrow> Some (Err (ErrorMessage (''database not found: '' @ db_name)), [])
            | Some oid \<Rightarrow>
                let db_id = unat oid in
                say (''Bootstrapping catalogs for db_id='' @ show_nat db_id @ ''...'')
                (attempt (pg_table_reader_new fs data_dir db_id) (\<lambda>reader.
                 say ''Catalog bootstrap complete.''
                 (case set_table table reader of (selected, reader) \<Rightarrow>
                  attempt (Some selected) (\<lambda>_.
                  say (''Schema: '' @ debug_schema (reader_schema reader))
                  (attempt (fetch_all fs data_dir reader) (\<lambda>rows.
                   say (''Elapsed: '' @ elapsed @ '' ms'')
                   (say (''Total rows: '' @ show_nat (length rows))
                    (print_rows ff (take 5 rows)))))))))))"

definition table_reader_main ::
    "float_fmt \<Rightarrow> (pg_schema option \<Rightarrow> string) \<Rightarrow> string \<Rightarrow> 'v config_env \<Rightarrow> 'h file_system \<Rightarrow>
     string list \<Rightarrow> run" where
  "table_reader_main ff debug_schema elapsed env fs args =
     table_reader_run ff debug_schema elapsed env fs ''pgbench_accounts'' args None"

text \<open>What a run on a readable table reports of the rows that its tuples decode to.\<close>

definition row_text :: "float_fmt \<Rightarrow> pg_row \<Rightarrow> string" where
  "row_text ff row = (case row_to_string ff row of Ok line \<Rightarrow> line | _ \<Rightarrow> [])"

definition reported ::
    "float_fmt \<Rightarrow> (pg_schema option \<Rightarrow> string) \<Rightarrow> string \<Rightarrow> usize \<Rightarrow> pg_schema \<Rightarrow> pg_row list pg_result \<Rightarrow>
     (main_error, unit) outcome \<times> string list" where
  "reported ff debug_schema elapsed db s result =
     (let start = [''Bootstrapping catalogs for db_id='' @ show_nat db @ ''...'', ''Catalog bootstrap complete.'',
            ''Schema: '' @ debug_schema (Some s)]
      in
      case result of
        Ok rows \<Rightarrow>
          (Ok (), start @ [''Elapsed: '' @ elapsed @ '' ms'', ''Total rows: '' @ show_nat (length rows)] @
             map (row_text ff) (take 5 rows))
      | Err e \<Rightarrow> (Err (ReaderError e), start)
      | Panic \<Rightarrow> (Panic, start))"

section \<open>Lemmas\<close>

lemma say_attempt_simps [simp]:
  "say line (Some (ending, lines)) = Some (ending, line # lines)" "say line None = None"
  "attempt (Some (Ok a)) rest = rest a" "attempt (Some (Err e)) rest = Some (Err (ReaderError e), [])"
  "attempt (Some Panic) rest = Some (Panic, [])" "attempt None rest = None"
  by (simp_all add: say_def attempt_def)

lemma set_data_dir_get [simp]: "get_data_dir env (set_data_dir dir None) = Ok dir"
  by (simp add: set_data_dir_def get_data_dir_def)

lemma print_rows_texts:
  "\<forall>row \<in> set rows. \<exists>line. row_to_string ff row = Ok line \<Longrightarrow>
    print_rows ff rows = Some (Ok (), map (row_text ff) rows)"
  by (induction rows) (auto simp: row_text_def)

text \<open>Rows that were decoded print, one line each.\<close>

lemma decoded_rows_texts:
  assumes "omap (\<lambda>t. decode_row t s) ts = Ok rows"
  shows "print_rows ff (take n rows) = Some (Ok (), map (row_text ff) (take n rows))"
proof (rule print_rows_texts, intro ballI)
  fix row assume "row \<in> set (take n rows)"
  then have "row \<in> set rows" by (rule in_set_takeD)
  with assms show "\<exists>line. row_to_string ff row = Ok line"
    using decoded_row_prints by (induction ts arbitrary: rows) (auto simp: outcome_simps)
qed

lemma sample_texts: "show_nat 5 = ''5''" "show_nat (Suc (Suc 0)) = ''2''" "show_nat 6 = ''6''"
  by code_simp+

section \<open>Properties\<close>

text \<open>
  C25: The example program, from its arguments to its output.  Without arguments it panics; a database that is
  not listed ends it with the message that names it; and on a cluster whose \<open>pg_database\<close>, catalogs
  and table are readable it ends: if all rows decode, after the line with the number of stored tuples
  it prints the first five of them, in order, and succeeds; otherwise it returns the first decoding error.
\<close>

theorem table_program_output:
  assumes "relation_rows fs dir 0 1262 drows"
    and "\<forall>t \<in> set (live_rows drows). pg_database_from_row t pg_database_catalog_schema \<noteq> Panic"
    and "dbs = filter (\<lambda>d. datname d \<noteq> [])
      (decoded_rows (\<lambda>t. pg_database_from_row t pg_database_catalog_schema) (live_rows drows))"
    and "List.find (\<lambda>d. datname d = db_name) dbs = Some d" and "db = unat (db_oid d)"
    and "relation_rows fs dir db 1259 crows" and "relation_rows fs dir db 1249 arows"
    and "\<forall>t \<in> set (live_rows crows). pg_class_from_row t pg_class_catalog_schema \<noteq> Panic"
    and "\<forall>t \<in> set arows. pg_attribute_from_row t pg_attribute_catalog_schema \<noteq> Panic"
    and "List.find (\<lambda>c. relname c = table \<and> is_table c)
      (decoded_rows (\<lambda>t. pg_class_from_row t pg_class_catalog_schema) (live_rows crows)) = Some c"
    and "relation_rows fs dir db (unat (relfilenode c)) ts"
    and "s = from_attributes table (filter (\<lambda>a. attrelid a = class_oid c)
      (decoded_rows (\<lambda>t. pg_attribute_from_row t pg_attribute_catalog_schema) arows))"
  shows "table_reader_run ff debug_schema elapsed env fs table [] None = Some (Panic, []) \<and>
    (missing \<notin> datname ` set dbs \<longrightarrow>
      table_reader_run ff debug_schema elapsed env fs table [dir, missing] None =
        Some (Err (ErrorMessage (''database not found: '' @ missing)), [])) \<and>
    table_reader_run ff debug_schema elapsed env fs table [dir, db_name] None =
      Some (reported ff debug_schema elapsed db s (omap (\<lambda>t. decode_row t s) ts))"
proof -
  note found = databases_found [OF assms(1-3)]
  obtain rd rd' where "pg_table_reader_new fs (Ok dir) db = Some (Ok rd)" "set_table table rd = (Ok (), rd')"
      "reader_schema rd' = Some s" "fetch_all fs (Ok dir) rd' = Some (omap (\<lambda>t. decode_row t s) ts)"
    using reader_fetches [OF assms(6-12)] by blast
  then have "table_reader_run ff debug_schema elapsed env fs table [dir, db_name] None =
      Some (reported ff debug_schema elapsed db s (omap (\<lambda>t. decode_row t s) ts))"
    by (cases "omap (\<lambda>t. decode_row t s) ts")
      (simp_all add: table_reader_run_def reported_def found assms(4) Let_def decoded_rows_texts flip: assms(5))
  moreover have "List.find (\<lambda>d. datname d = missing) dbs = None" if "missing \<notin> datname ` set dbs"
    using that by (auto simp: find_None_iff)
  ultimately show ?thesis by (simp add: table_reader_run_def found)
qed

theorem table_program_output_witness:
  "table_reader_run \<lparr>show_f32 = (\<lambda>w. ''1''), show_f64 = (\<lambda>w. ''1'')\<rparr> (\<lambda>s. ''t1'') ''0.1''
      \<lparr>env_var = (\<lambda>_. None), manifest_dir = [], read_to_string = Ok, parse_table = Ok,
        value_get = (\<lambda>_ _. None), value_as_str = Some\<rparr>
      (disk sample_files) ''t1'' [''/d'', ''d''] None =
    Some (Ok (), [''Bootstrapping catalogs for db_id=5...'', ''Catalog bootstrap complete.'', ''Schema: t1'',
      ''Elapsed: 0.1 ms'', ''Total rows: 2'', ''(5)'', ''(6)''])"
proof -
  let ?ff = "\<lparr>show_f32 = (\<lambda>w. ''1''), show_f64 = (\<lambda>w. ''1'')\<rparr>"
  let ?env = "\<lparr>env_var = (\<lambda>_. None), manifest_dir = [], read_to_string = Ok, parse_table = Ok,
      value_get = (\<lambda>_ _. None), value_as_str = Some\<rparr>"
  have db: "List.find (\<lambda>d. datname d = ''d'') [sample_database] = Some sample_database" "5 = unat (db_oid sample_database)"
    by (simp_all add: sample_database_def)
  have "List.find (\<lambda>c. relname c = ''t1'' \<and> is_table c) [sample_class] = Some sample_class"
    by (simp add: sample_class_def is_table_def)
  from table_program_output [OF sample_relations(3) _ sample_databases [symmetric] db sample_relations(1,2) _ _ this [folded sample_caches] _ refl,
      unfolded sample_caches sample_table_schema, OF _ _ _ sample_table_rows,
      where ff = ?ff and debug_schema = "\<lambda>s. ''t1''" and elapsed = "''0.1''" and env = ?env]
  show ?thesis
    unfolding sample_table_decode
    by (simp add: sample_live_tuple sample_rows_decode reported_def row_text_def row_to_string_def show_int_def sample_texts)
qed

end
