(* ===== verification/Benchmarks.thy ===== *)
theory Benchmarks
  imports TableTests DataDir
begin

text \<open>
  The benchmarks of \<open>benches/\<close>.  \<open>file_read_latency.rs\<close> compares seven ways to read the pages of a
  file and three to read and parse them; a comparison of their times means something only when all of them
  return the same pages, which is what is proved here.  POSIX asynchronous I/O is the parameter
  \<open>aio_lib\<close>.  A loop over chunks whose size is an argument does not end for the size 0, so that it
  is a \<open>partial_function\<close>.  \<open>common/mod.rs\<close> holds the bodies of the other two benchmarks.
\<close>

section \<open>The file and its pages\<close>

definition get_heap_file_path :: "'v config_env \<Rightarrow> string pg_result" where
  "get_heap_file_path env =
     (let config_path = (case env_var env ''PG_ARROW_TEST_CONFIG'' of
            Some p \<Rightarrow> p | None \<Rightarrow> manifest_dir env @ ''/pg-test-config.toml'')
      in
      obind (unwrap (read_to_string env config_path)) (\<lambda>config_str.
      obind (unwrap (parse_table env config_str)) (\<lambda>v.
      obind (unwrap_opt (Option.bind (Option.bind (Option.bind (value_get env v ''postgres'')
               (\<lambda>v. value_get env v ''pg18'')) (\<lambda>v. value_get env v ''data_dir'')) (value_as_str env)))
        (\<lambda>data_dir. Ok (data_dir @ ''/base/16727/16728'')))))"

definition file_page_count :: "'h file_system \<Rightarrow> string \<Rightarrow> usize pg_result" where
  "file_page_count fs path = obind (unwrap (metadata_len fs path)) (\<lambda>len. Ok (len div PAGE_BUFFER_SIZE))"

text \<open>\<open>assert_eq!(n as usize, \<dots>)\<close> on what a read returned; a negative count is no length.\<close>

definition full_read :: "usize \<Rightarrow> bytes option \<Rightarrow> bytes pg_result" where
  "full_read n answer = (case answer of Some bs \<Rightarrow> if length bs = n then Ok bs else Panic | None \<Rightarrow> Panic)"

definition read_pages_sequential :: "'h file_system \<Rightarrow> string \<Rightarrow> usize \<Rightarrow> bytes list pg_result" where
  "read_pages_sequential fs path page_total =
     obind (unwrap_opt (open_file fs path)) (\<lambda>file.
       omap (\<lambda>i.
         if \<not> seek_ok fs file (i * PAGE_BUFFER_SIZE) then Panic
         else unwrap_opt (fst (read_exact fs file (i * PAGE_BUFFER_SIZE) PAGE_BUFFER_SIZE)))
       [0..<page_total])"

definition read_pages_pread :: "'h file_system \<Rightarrow> string \<Rightarrow> usize \<Rightarrow> bytes list pg_result" where
  "read_pages_pread fs path page_total =
     obind (unwrap_opt (open_file fs path)) (\<lambda>fd.
       omap (\<lambda>i. full_read PAGE_BUFFER_SIZE (pread fs fd PAGE_BUFFER_SIZE (i * PAGE_BUFFER_SIZE))) [0..<page_total])"

section \<open>Asynchronous reads\<close>

text \<open>
  A request is a handle, a byte count and an offset.  \<open>aio_read\<close> and \<open>lio_listio\<close> say whether they
  are accepted, \<open>aio_error\<close> what the n-th poll of a request answers, and \<open>aio_return\<close> gives the bytes
  that stand in its buffer, \<open>None\<close> for a negative count.
\<close>

datatype aio_status = InProgress | Finished | Failed

type_synonym 'h aio_request = "'h \<times> usize \<times> usize"

record 'h aio_lib =
  aio_read :: "'h aio_request \<Rightarrow> bool"
  aio_error :: "'h aio_request \<Rightarrow> nat \<Rightarrow> aio_status"
  aio_return :: "'h aio_request \<Rightarrow> bytes option"
  lio_listio :: "'h aio_request list \<Rightarrow> bool"

definition AIO_BATCH_SIZE :: usize where "AIO_BATCH_SIZE = 16"

definition page_request :: "'h \<Rightarrow> usize \<Rightarrow> 'h aio_request" where
  "page_request fd i = (fd, PAGE_BUFFER_SIZE, i * PAGE_BUFFER_SIZE)"

text \<open>\<open>(0..page_total).step_by(AIO_BATCH_SIZE)\<close> and the pages of a batch.\<close>

definition batch_starts :: "usize \<Rightarrow> usize list" where
  "batch_starts page_total = map (\<lambda>k. k * AIO_BATCH_SIZE) [0..<div_ceil page_total AIO_BATCH_SIZE]"

definition batch_pages :: "usize \<Rightarrow> usize \<Rightarrow> usize list" where
  "batch_pages page_total batch_start = [batch_start..<min (batch_start + AIO_BATCH_SIZE) page_total]"

text \<open>The request has written the buffer of its page when \<open>aio_return\<close> reports it whole.\<close>

definition collect_page :: "'h aio_lib \<Rightarrow> 'h \<Rightarrow> usize \<Rightarrow> bytes list \<Rightarrow> bytes list pg_result" where
  "collect_page aio fd i pages =
     obind (full_read PAGE_BUFFER_SIZE (aio_return aio (page_request fd i))) (\<lambda>buf. Ok (pages[i := buf]))"

partial_function (option) aio_wait ::
    "'h aio_lib \<Rightarrow> 'h \<Rightarrow> usize \<Rightarrow> nat \<Rightarrow> bytes list \<Rightarrow> bytes list pg_result option" where
  "aio_wait aio fd i polls pages =
     (case aio_error aio (page_request fd i) polls of
        InProgress \<Rightarrow> aio_wait aio fd i (polls + 1) pages
      | Failed \<Rightarrow> Some Panic
      | Finished \<Rightarrow> Some (collect_page aio fd i pages))"

fun each_run :: "('a \<Rightarrow> 's \<Rightarrow> 's pg_result option) \<Rightarrow> 'a list \<Rightarrow> 's \<Rightarrow> 's pg_result option" where
  "each_run body [] s = Some (Ok s)"
| "each_run body (x # xs) s =
     (case body x s of None \<Rightarrow> None | Some r \<Rightarrow> try_run r (each_run body xs))"

definition read_pages_aio :: "'h file_system \<Rightarrow> 'h aio_lib \<Rightarrow> string \<Rightarrow> usize \<Rightarrow> bytes list pg_result option" where
  "read_pages_aio fs aio path page_total =
     try_run (unwrap_opt (open_file fs path)) (\<lambda>fd.
       each_run (\<lambda>batch_start pages.
           let batch = batch_pages page_total batch_start in
           if \<forall>i \<in> set batch. aio_read aio (page_request fd i)
           then each_run (\<lambda>i. aio_wait aio fd i 0) batch pages
           else Some Panic)
         (batch_starts page_total) (replicate page_total (replicate PAGE_BUFFER_SIZE 0)))"

definition read_pages_lio_listio :: "'h file_system \<Rightarrow> 'h aio_lib \<Rightarrow> string \<Rightarrow> usize \<Rightarrow> bytes list pg_result" where
  "read_pages_lio_listio fs aio path page_total =
     obind (unwrap_opt (open_file fs path)) (\<lambda>fd.
       ofold (\<lambda>batch_start pages.
           let batch = batch_pages page_total batch_start in
           if lio_listio aio (map (page_request fd) batch) then ofold (collect_page aio fd) batch pages else Panic)
         (batch_starts page_total) (replicate page_total (replicate PAGE_BUFFER_SIZE 0)))"

section \<open>Reads of several pages\<close>

lemma try_run_mono [partial_function_mono]:
  "(\<And>x. mono_option (\<lambda>f. rest x f)) \<Longrightarrow> mono_option (\<lambda>f. try_run m (\<lambda>x. rest x f))"
  by (cases m) (simp_all add: monotone_def flat_ord_def)

text \<open>
  The loop that reads \<open>chunk_size\<close> pages at a time, takes the pages of a chunk apart and does \<open>each\<close> with
  them, as three of the functions have it.
\<close>

partial_function (option) read_chunks ::
    "'h file_system \<Rightarrow> 'h \<Rightarrow> (bytes \<Rightarrow> 'a pg_result) \<Rightarrow> usize \<Rightarrow> usize \<Rightarrow> usize \<Rightarrow> 'a list \<Rightarrow> 'a list pg_result option" where
  "read_chunks fs fd each page_total chunk_size page_idx pages =
     (if page_idx < page_total then
        let this_chunk = min (page_total - page_idx) chunk_size;
            read_bytes = this_chunk * PAGE_BUFFER_SIZE
        in
        try_run (full_read read_bytes (pread fs fd read_bytes (page_idx * PAGE_BUFFER_SIZE))) (\<lambda>buf.
        try_run (omap (\<lambda>i. obind (index_range buf (i * PAGE_BUFFER_SIZE) ((i + 1) * PAGE_BUFFER_SIZE)) each)
                   [0..<this_chunk]) (\<lambda>items.
          read_chunks fs fd each page_total chunk_size (page_idx + this_chunk) (pages @ items)))
      else Some (Ok pages))"

definition PAGES_PER_IO :: usize where "PAGES_PER_IO = 5"

definition read_pages_pread_bulk :: "'h file_system \<Rightarrow> string \<Rightarrow> usize \<Rightarrow> bytes list pg_result option" where
  "read_pages_pread_bulk fs path page_total =
     try_run (unwrap_opt (open_file fs path)) (\<lambda>fd. read_chunks fs fd Ok page_total PAGES_PER_IO 0 [])"

definition interleaved_read_parse ::
    "'h file_system \<Rightarrow> string \<Rightarrow> usize \<Rightarrow> usize \<Rightarrow> heap_page_data list pg_result option" where
  "interleaved_read_parse fs path page_total chunk_size =
     try_run (unwrap_opt (open_file fs path)) (\<lambda>fd.
       read_chunks fs fd (\<lambda>page_buf. unwrap (page_parse page_buf)) page_total chunk_size 0 [])"

definition interleaved_read_parse_nocopy ::
    "'h file_system \<Rightarrow> string \<Rightarrow> usize \<Rightarrow> usize \<Rightarrow> (page_header_data \<times> item_id_data list) list pg_result option" where
  "interleaved_read_parse_nocopy fs path page_total chunk_size =
     try_run (unwrap_opt (open_file fs path)) (\<lambda>fd.
       read_chunks fs fd
         (\<lambda>page_slice.
            obind (unwrap (page_header_parse page_slice)) (\<lambda>header.
            obind (omap (read_line_pointer page_slice) [0..<num_line_pointers header]) (\<lambda>lp_items.
              Ok (header, lp_items))))
         page_total chunk_size 0 [])"

text \<open>The loop that reads into one buffer for the whole range.\<close>

partial_function (option) read_range ::
    "'h file_system \<Rightarrow> 'h \<Rightarrow> usize \<Rightarrow> usize \<Rightarrow> usize \<Rightarrow> bytes \<Rightarrow> bytes pg_result option" where
  "read_range fs fd total_bytes chunk_bytes offset buf =
     (if offset < total_bytes then
        let chunk = min (total_bytes - offset) chunk_bytes in
        try_run (full_read chunk (pread fs fd chunk offset)) (\<lambda>answer.
          read_range fs fd total_bytes chunk_bytes (offset + chunk) (take offset buf @ answer @ drop (offset + chunk) buf))
      else Some (Ok buf))"

definition read_pages_pread_bulk_zerocopy :: "'h file_system \<Rightarrow> string \<Rightarrow> usize \<Rightarrow> usize \<Rightarrow> bytes pg_result option" where
  "read_pages_pread_bulk_zerocopy fs path page_total pages_per_io =
     try_run (unwrap_opt (open_file fs path)) (\<lambda>fd.
       let total_bytes = page_total * PAGE_BUFFER_SIZE in
       read_range fs fd total_bytes (pages_per_io * PAGE_BUFFER_SIZE) 0 (replicate total_bytes 0))"

definition bulk_then_parse :: "'h file_system \<Rightarrow> string \<Rightarrow> usize \<Rightarrow> heap_page_data list pg_result option" where
  "bulk_then_parse fs path page_total =
     try_run (unwrap_opt (open_file fs path)) (\<lambda>fd.
       let total_bytes = page_total * PAGE_BUFFER_SIZE in
       map_option (\<lambda>r. obind r (\<lambda>buf.
           omap (\<lambda>i. obind (index_range buf (i * PAGE_BUFFER_SIZE) (i * PAGE_BUFFER_SIZE + PAGE_BUFFER_SIZE))
                       (\<lambda>page_buf. unwrap (page_parse page_buf))) [0..<page_total]))
         (read_range fs fd total_bytes (128 * PAGE_BUFFER_SIZE) 0 (replicate total_bytes 0)))"

section \<open>The benchmarks\<close>

text \<open>
  A benchmark calls its body again and again on the same file; what is modelled is what one call
  returns.  The first function lists the runs by name and page count, and then the runs of the sweep by
  pages per read.
\<close>

type_synonym page_run = "bytes list pg_result option"

definition page_runs :: "'h file_system \<Rightarrow> 'h aio_lib \<Rightarrow> string \<Rightarrow> usize \<Rightarrow> (string \<times> page_run) list" where
  "page_runs fs aio path n =
     [(''sequential_bufread'', Some (read_pages_sequential fs path n)),
      (''pread'', Some (read_pages_pread fs path n)),
      (''pread_bulk_5x'', read_pages_pread_bulk fs path n),
      (''aio_read'', read_pages_aio fs aio path n),
      (''lio_listio'', Some (read_pages_lio_listio fs aio path n))]"

definition bench_file_read_latency ::
    "'v config_env \<Rightarrow> 'h file_system \<Rightarrow> 'h aio_lib \<Rightarrow>
     ((usize \<times> (string \<times> page_run) list) list \<times> (usize \<times> bytes pg_result option) list) pg_result" where
  "bench_file_read_latency env fs aio =
     obind (get_heap_file_path env) (\<lambda>path.
     obind (file_page_count fs path) (\<lambda>total_pages.
       let page_counts = filter (\<lambda>n. n \<le> total_pages) [1, 16, 128, 1024];
           page_total = min 1024 total_pages
       in
       Ok (map (\<lambda>n. (n, page_runs fs aio path n)) page_counts,
           map (\<lambda>ppi. (ppi, read_pages_pread_bulk_zerocopy fs path page_total ppi)) [1, 2, 4, 8, 16, 32, 64, 128])))"

definition bench_read_parse_cache ::
    "'v config_env \<Rightarrow> 'h file_system \<Rightarrow>
     (heap_page_data list pg_result option \<times> (usize \<times> heap_page_data list pg_result option) list \<times>
      (usize \<times> (page_header_data \<times> item_id_data list) list pg_result option) list) pg_result" where
  "bench_read_parse_cache env fs =
     obind (get_heap_file_path env) (\<lambda>path.
     obind (file_page_count fs path) (\<lambda>total_pages.
       let chunk_sizes = [64, 96, 128] in
       Ok (bulk_then_parse fs path total_pages,
           map (\<lambda>cs. (cs, interleaved_read_parse fs path total_pages cs)) chunk_sizes,
           map (\<lambda>cs. (cs, interleaved_read_parse_nocopy fs path total_pages cs)) chunk_sizes)))"

text \<open>\<open>common/mod.rs\<close>; the rows that a benchmark hands to \<open>black_box\<close> are its result.\<close>

definition get_page_header :: "'h file_system \<Rightarrow> (string, string) outcome \<Rightarrow> unit pg_result" where
  "get_page_header fs data_dir =
     obind (unwrap (get_page_reader (table_file_reader_new 16384 1259))) (\<lambda>page_reader.
     obind (unwrap (fst (get_page_by_index fs data_dir page_reader 0))) (\<lambda>pg_heap_page.
       assert_that (lp_num pg_heap_page = 51)))"

definition iterate_page_header :: "'h file_system \<Rightarrow> (string, string) outcome \<Rightarrow> unit pg_result option" where
  "iterate_page_header fs data_dir =
     try_run (unwrap (get_page_reader (table_file_reader_new 16384 16630))) (\<lambda>page_reader.
       for_each (row_iter_next fs data_dir) (\<lambda>row _. case row of Panic \<Rightarrow> Panic | _ \<Rightarrow> Ok ()) (into_iter page_reader) ())"

definition bench_table_reader_bootstrap ::
    "'h file_system \<Rightarrow> (string, string) outcome \<Rightarrow> pg_table_reader pg_result option" where
  "bench_table_reader_bootstrap fs data_dir = map_option unwrap (pg_table_reader_new fs data_dir 16384)"

text \<open>The two that fetch from \<open>pgbench_accounts\<close>.\<close>

definition bench_fetch ::
    "(pg_table_reader \<Rightarrow> pg_row list pg_result option) \<Rightarrow> 'h file_system \<Rightarrow> (string, string) outcome \<Rightarrow>
     pg_row list pg_result option" where
  "bench_fetch fetch fs data_dir =
     (case pg_table_reader_new fs data_dir 16384 of
        None \<Rightarrow> None
      | Some r \<Rightarrow>
          try_run (unwrap r) (\<lambda>reader.
            case set_table ''pgbench_accounts'' reader of (selected, reader) \<Rightarrow>
              try_run (unwrap selected) (\<lambda>_. map_option unwrap (fetch reader))))"

definition bench_table_reader_fetch_all ::
    "'h file_system \<Rightarrow> (string, string) outcome \<Rightarrow> pg_row list pg_result option" where
  "bench_table_reader_fetch_all fs data_dir = bench_fetch (fetch_all fs data_dir) fs data_dir"

definition bench_table_reader_fetch_with_limit ::
    "'h file_system \<Rightarrow> (string, string) outcome \<Rightarrow> pg_row list pg_result option" where
  "bench_table_reader_fetch_with_limit fs data_dir =
     bench_fetch (fetch_by_limit fs data_dir 5000000) fs data_dir"

section \<open>Lemmas\<close>

lemma omap_append: "omap f (xs @ ys) = obind (omap f xs) (\<lambda>as. obind (omap f ys) (\<lambda>bs. Ok (as @ bs)))"
  by (induction xs) (simp_all add: obind_assoc)

lemma omap_map: "omap f (map g xs) = omap (\<lambda>x. f (g x)) xs"
  by (induction xs) simp_all

lemma omap_cong: "(\<And>x. x \<in> set xs \<Longrightarrow> f x = g x) \<Longrightarrow> omap f xs = omap g xs"
  by (induction xs) simp_all

lemma page_list_take: "k \<le> length bs div 8192 \<Longrightarrow> page_list (take (k * 8192) bs) = take k (page_list bs)"
proof (rule nth_equalityI)
  assume k: "k \<le> length bs div 8192"
  then have len: "length (take (k * 8192) bs) = k * 8192" by (simp add: less_eq_div_iff_mult_less_eq)
  then show "length (page_list (take (k * 8192) bs)) = length (take k (page_list bs))" using k by simp
  fix i assume "i < length (page_list (take (k * 8192) bs))"
  then have i: "i < k" using len by simp
  then have "min 8192 (k * 8192 - i * 8192) = 8192" by (simp add: diff_mult_distrib [symmetric])
  then show "page_list (take (k * 8192) bs) ! i = take k (page_list bs) ! i"
    using i k len by (simp add: page_list_nth drop_take)
qed

text \<open>A file that was opened and holds at least the pages asked for.\<close>

definition opened :: "'h file_system \<Rightarrow> string \<Rightarrow> 'h \<Rightarrow> bytes \<Rightarrow> usize \<Rightarrow> bool" where
  "opened fs path fd bs n \<longleftrightarrow> open_file fs path = Some fd \<and> file_holds fs fd bs \<and> n \<le> length bs div 8192"

lemma opened_in_range: "opened fs path fd bs n \<Longrightarrow> i < n \<Longrightarrow> i * 8192 + 8192 \<le> length bs"
  unfolding opened_def by linarith

lemma opened_read:
  assumes "opened fs path fd bs n" and "off + k \<le> length bs"
  shows "full_read k (pread fs fd k off) = Ok (take k (drop off bs))"
  using assms by (simp add: opened_def file_holds_def full_read_def)

lemma opened_pages: "opened fs path fd bs n \<Longrightarrow> map (\<lambda>i. take 8192 (drop (i * 8192) bs)) [0..<n] = take n (page_list bs)"
  by (rule nth_equalityI) (simp_all add: opened_def page_list_nth)

lemma opened_omap:
  assumes "opened fs path fd bs n" and "\<And>i. i * 8192 + 8192 \<le> length bs \<Longrightarrow> f i = Ok (take 8192 (drop (i * 8192) bs))"
  shows "omap f [0..<n] = Ok (take n (page_list bs))"
  unfolding opened_pages [OF assms(1), symmetric]
  using opened_in_range [OF assms(1)] by (intro omap_all_Ok assms(2)) simp

lemma sequential_pages:
  assumes "opened fs path fd bs n"
  shows "read_pages_sequential fs path n = Ok (take n (page_list bs))"
proof -
  have fd: "open_file fs path = Some fd" and h: "file_holds fs fd bs" using assms by (simp_all add: opened_def)
  have "\<forall>off. seek_ok fs fd off" using h by (simp add: file_holds_def)
  then show ?thesis
    unfolding read_pages_sequential_def fd unwrap_opt.simps obind.simps PAGE_BUFFER_SIZE_value
    by (intro opened_omap [OF assms]) (simp add: read_exact_holds [OF h])
qed

lemma pread_pages:
  assumes "opened fs path fd bs n"
  shows "read_pages_pread fs path n = Ok (take n (page_list bs))"
proof -
  have "open_file fs path = Some fd" using assms by (simp add: opened_def)
  then show ?thesis
    unfolding read_pages_pread_def by (simp add: PAGE_BUFFER_SIZE_value opened_omap [OF assms] opened_read [OF assms])
qed

subsection \<open>Asynchronous reads\<close>

text \<open>
  What POSIX says of these calls: requests are accepted, within the limit of 16 for a list; a request is in
  progress until it is finished, which it is after some polls; and then its buffer has what the file holds.
\<close>

definition aio_reads :: "'h aio_lib \<Rightarrow> 'h \<Rightarrow> bytes \<Rightarrow> bool" where
  "aio_reads aio fd bs \<longleftrightarrow>
     (\<forall>n off. aio_read aio (fd, n, off) \<and> aio_return aio (fd, n, off) = Some (take n (drop off bs)) \<and>
        (\<exists>k. aio_error aio (fd, n, off) k = Finished \<and> (\<forall>j < k. aio_error aio (fd, n, off) j = InProgress))) \<and>
     (\<forall>rs. length rs \<le> 16 \<and> fst ` set rs \<subseteq> {fd} \<longrightarrow> lio_listio aio rs)"

lemma aio_wait_polls:
  assumes "aio_error aio (page_request fd i) k = Finished" and "p \<le> k"
    and "\<forall>j. p \<le> j \<and> j < k \<longrightarrow> aio_error aio (page_request fd i) j = InProgress"
  shows "aio_wait aio fd i p pages = Some (collect_page aio fd i pages)"
  using assms(2,3)
proof (induction "k - p" arbitrary: p)
  case 0
  then show ?case using assms(1) by (simp add: aio_wait.simps [of aio fd i p])
next
  case (Suc d)
  then have "p < k" by simp
  with Suc show ?case by (simp add: aio_wait.simps [of aio fd i p])
qed

lemma each_run_ofold:
  "(\<And>x s. body x s = Some (body' x s)) \<Longrightarrow> each_run body xs s = Some (ofold body' xs s)"
proof (induction xs arbitrary: s)
  case (Cons x xs)
  then show ?case by (cases "body' x s") simp_all
qed simp

lemma collect_batch:
  assumes "opened fs path fd bs n" and "aio_reads aio fd bs" and "a \<le> b" and "b \<le> n"
  shows "ofold (collect_page aio fd) [a..<b] (take a (page_list bs) @ drop a (replicate n zeros)) =
    Ok (take b (page_list bs) @ drop b (replicate n zeros))"
  using assms(3,4)
proof (induction b)
  case (Suc b)
  have n: "n \<le> length bs div 8192" using assms(1) by (simp add: opened_def)
  have "i * 8192 + 8192 \<le> length bs" if "i < n" for i by (rule opened_in_range [OF assms(1) that])
  then have "full_read 8192 (aio_return aio (fd, 8192, b * 8192)) = Ok (page_list bs ! b)"
    using assms(2) Suc.prems n by (simp add: aio_reads_def full_read_def page_list_nth)
  moreover have "replicate (n - b) zeros = zeros # replicate (n - Suc b) zeros"
    using Suc.prems by (simp add: Suc_diff_Suc flip: replicate_Suc)
  ultimately have "collect_page aio fd b (take b (page_list bs) @ drop b (replicate n zeros)) =
      Ok (take (Suc b) (page_list bs) @ drop (Suc b) (replicate n zeros))"
    using Suc.prems n
    by (simp add: collect_page_def page_request_def PAGE_BUFFER_SIZE_value list_update_append take_Suc_conv_app_nth)
  then show ?case using Suc by (cases "a = Suc b") (simp_all add: ofold_append le_Suc_eq)
qed simp

lemma batches_filled:
  assumes "\<And>start. start < n \<Longrightarrow> body start (state start) = Ok (state (min (start + 16) n))"
  shows "ofold body (batch_starts n) (state 0) = Ok (state n)"
proof -
  have "ofold body (map (\<lambda>k. k * 16) [0..<m]) (state 0) = Ok (state (min (m * 16) n))" if "m \<le> div_ceil n 16" for m
    using that
  proof (induction m)
    case (Suc m)
    then have "m * 16 < n" by (simp add: div_ceil_def split: if_splits)
    with Suc assms show ?case by (simp add: ofold_append add.commute)
  qed simp
  moreover have "n \<le> div_ceil n 16 * 16" by (simp add: div_ceil_def)
  ultimately show ?thesis by (simp add: batch_starts_def AIO_BATCH_SIZE_def)
qed

lemma asynchronous_pages:
  assumes "opened fs path fd bs n" and "aio_reads aio fd bs"
  shows "read_pages_lio_listio fs aio path n = Ok (take n (page_list bs))"
    and "read_pages_aio fs aio path n = Some (Ok (take n (page_list bs)))"
proof -
  let ?zeros = "replicate PAGE_BUFFER_SIZE 0 :: bytes"
  let ?state = "\<lambda>i. take i (page_list bs) @ drop i (replicate n ?zeros)"
  have fd: "open_file fs path = Some fd" and n: "n \<le> length (page_list bs)" using assms(1) by (simp_all add: opened_def)
  have batch: "ofold (collect_page aio fd) (batch_pages n start) (?state start) = Ok (?state (min (start + 16) n))"
    if "start < n" for start
    unfolding batch_pages_def AIO_BATCH_SIZE_def using that by (intro collect_batch [OF assms]) simp_all
  have all: "ofold (\<lambda>start. ofold (collect_page aio fd) (batch_pages n start)) (batch_starts n) (?state 0) = Ok (?state n)"
    by (rule batches_filled [of n "\<lambda>start. ofold (collect_page aio fd) (batch_pages n start)" ?state]) (rule batch)
  have "lio_listio aio (map (page_request fd) (batch_pages n start))" for start
  proof -
    have "length rs \<le> 16 \<and> fst ` set rs \<subseteq> {fd} \<Longrightarrow> lio_listio aio rs" for rs
      using assms(2) by (simp add: aio_reads_def)
    moreover have "length (map (page_request fd) (batch_pages n start)) \<le> 16"
      "fst ` set (map (page_request fd) (batch_pages n start)) \<subseteq> {fd}"
      by (auto simp: batch_pages_def page_request_def AIO_BATCH_SIZE_def)
    ultimately show ?thesis by blast
  qed
  then show "read_pages_lio_listio fs aio path n = Ok (take n (page_list bs))"
    using all n by (simp add: read_pages_lio_listio_def fd)
  have wait: "aio_wait aio fd i 0 pages = Some (collect_page aio fd i pages)" for i pages
  proof -
    obtain k where "aio_error aio (page_request fd i) k = Finished"
      "\<forall>j < k. aio_error aio (page_request fd i) j = InProgress"
      using assms(2) unfolding aio_reads_def page_request_def by blast
    then show ?thesis by (intro aio_wait_polls [of aio fd i k]) simp_all
  qed
  have "aio_read aio (page_request fd i)" for i using assms(2) by (simp add: aio_reads_def page_request_def)
  then show "read_pages_aio fs aio path n = Some (Ok (take n (page_list bs)))"
    using all n each_run_ofold [of "\<lambda>i. aio_wait aio fd i 0" "collect_page aio fd", OF wait]
      each_run_ofold [of "\<lambda>start pages. Some (ofold (collect_page aio fd) (batch_pages n start) pages)" "\<lambda>start. ofold (collect_page aio fd) (batch_pages n start)"]
    by (simp add: read_pages_aio_def fd)
qed

subsection \<open>Chunks\<close>

lemma page_slices:
  assumes "length buf = k * 8192"
  shows "omap (\<lambda>i. obind (index_range buf (i * 8192) (i * 8192 + 8192)) each) [0..<k] = omap each (page_list buf)"
    and "omap (\<lambda>i. obind (index_range buf (i * 8192) (8192 + i * 8192)) each) [0..<k] = omap each (page_list buf)"
proof -
  have "obind (index_range buf (i * 8192) (i * 8192 + 8192)) each = each (take 8192 (drop (i * 8192) buf))"
    if "i < k" for i
  proof -
    have "i * 8192 + 8192 \<le> length buf" using that assms by simp
    then show ?thesis by (simp add: index_range_def get_range_def)
  qed
  then show "omap (\<lambda>i. obind (index_range buf (i * 8192) (i * 8192 + 8192)) each) [0..<k] = omap each (page_list buf)"
    by (auto simp: page_list_def omap_map assms intro!: omap_cong)
  then show "omap (\<lambda>i. obind (index_range buf (i * 8192) (8192 + i * 8192)) each) [0..<k] = omap each (page_list buf)"
    by (simp add: add.commute)
qed

lemma read_chunks_pages:
  assumes "opened fs path fd bs n" and "0 < cs" and "idx \<le> n"
  shows "read_chunks fs fd each n cs idx acc =
    Some (obind (omap each (drop idx (take n (page_list bs)))) (\<lambda>items. Ok (acc @ items)))"
  using assms(3)
proof (induction "n - idx" arbitrary: idx acc rule: less_induct)
  case less
  show ?case
  proof (cases "idx < n")
    case False
    then show ?thesis by (simp add: read_chunks.simps [of fs fd each n cs idx])
  next
    case True
    define k where "k = min (n - idx) cs"
    let ?buf = "take (k * 8192) (drop (idx * 8192) bs)"
    have k: "0 < k" "idx + k \<le> n" using True assms(2) by (auto simp: k_def)
    then have len: "idx * 8192 + k * 8192 \<le> length bs"
      using assms(1) unfolding opened_def by linarith
    have pages: "page_list ?buf = take k (drop idx (page_list bs))"
      using len k page_list_take [of k "drop (idx * 8192) bs"] by (simp add: page_list_drop less_eq_div_iff_mult_less_eq)
    have "length ?buf = k * 8192" using len by simp
    note slices = page_slices [OF this, of each, unfolded pages]
    have "take k (drop idx (take n (page_list bs))) = take k (drop idx (page_list bs))"
      using k by (simp add: drop_take min_absorb1)
    then have split: "drop idx (take n (page_list bs)) =
        take k (drop idx (page_list bs)) @ drop (idx + k) (take n (page_list bs))"
      using append_take_drop_id [of k "drop idx (take n (page_list bs))"] by (simp add: add.commute del: append_take_drop_id)
    then show ?thesis
      using True less k opened_read [OF assms(1) len]
      by (cases "omap each (take k (drop idx (page_list bs)))")
        (simp_all add: read_chunks.simps [of fs fd each n cs idx] PAGE_BUFFER_SIZE_value slices split omap_append obind_assoc
          flip: k_def)
  qed
qed

lemma read_range_bytes:
  assumes "opened fs path fd bs n" and "0 < chunk" and "length buf = n * 8192" and "off \<le> n * 8192"
    and "take off buf = take off bs"
  shows "read_range fs fd (n * 8192) chunk off buf = Some (Ok (take (n * 8192) bs))"
  using assms(3-5)
proof (induction "n * 8192 - off" arbitrary: off buf rule: less_induct)
  case less
  show ?case
  proof (cases "off < n * 8192")
    case False
    then show ?thesis using less.prems by (simp add: read_range.simps)
  next
    case True
    define k where "k = min (n * 8192 - off) chunk"
    have k: "0 < k" "off + k \<le> n * 8192" using True assms(2) by (auto simp: k_def)
    then have len: "off + k \<le> length bs" using assms(1) unfolding opened_def by linarith
    let ?buf = "take off buf @ take k (drop off bs) @ drop (off + k) buf"
    have "length ?buf = n * 8192" "take (off + k) ?buf = take (off + k) bs"
      using less.prems k len by (simp_all add: take_add)
    then have "read_range fs fd (n * 8192) chunk (off + k) ?buf = Some (Ok (take (n * 8192) bs))"
      using True k by (intro less.hyps) simp_all
    then show ?thesis
      using True opened_read [OF assms(1) len] by (simp add: read_range.simps [of fs fd _ _ off] flip: k_def)
  qed
qed

text \<open>Parsing without copying reads the header and the line pointers of the page.\<close>

lemma parse_without_copy:
  assumes "length p = 8192"
  shows "obind (unwrap (page_header_parse p)) (\<lambda>header.
      obind (omap (read_line_pointer p) [0..<num_line_pointers header]) (\<lambda>lp_items. Ok (header, lp_items))) =
    obind (unwrap (page_parse p)) (\<lambda>page. Ok (page_header page, lp_items page))"
proof (cases "page_header_parse p")
  case (Ok h)
  then show ?thesis
    using assms by (simp add: page_parse_def page_parse_bytes_eq [OF Ok] read_line_pointers)
qed (simp_all add: page_parse_def page_parse_bytes_def assms PAGE_BUFFER_SIZE_value)

lemma omap_obind_Ok: "omap (\<lambda>x. obind (f x) (\<lambda>y. Ok (g y))) xs = obind (omap f xs) (\<lambda>ys. Ok (map g ys))"
proof (induction xs)
  case (Cons x xs)
  then show ?case by (cases "f x") (simp_all add: obind_assoc)
qed simp

lemma chunked_pages:
  assumes "opened fs path fd bs n"
  shows "read_pages_pread_bulk fs path n = Some (Ok (take n (page_list bs)))"
    and "0 < k \<Longrightarrow> read_pages_pread_bulk_zerocopy fs path n k = Some (Ok (take (n * 8192) bs))"
proof -
  have fd: "open_file fs path = Some fd" and n: "n * 8192 \<le> length bs"
    using assms unfolding opened_def by (simp, linarith)
  show "read_pages_pread_bulk fs path n = Some (Ok (take n (page_list bs)))"
    using read_chunks_pages [OF assms, of PAGES_PER_IO 0 Ok "[]"] omap_Ok [of "\<lambda>p. p"]
    by (simp add: read_pages_pread_bulk_def fd PAGES_PER_IO_def)
  show "read_pages_pread_bulk_zerocopy fs path n k = Some (Ok (take (n * 8192) bs))" if "0 < k"
    using that read_range_bytes [OF assms, of "k * 8192" "replicate (n * 8192) 0" 0]
    by (simp add: read_pages_pread_bulk_zerocopy_def fd PAGE_BUFFER_SIZE_value)
qed

lemma parsed_chunks:
  assumes "opened fs path fd bs n"
  shows "bulk_then_parse fs path n = Some (omap (\<lambda>p. unwrap (page_parse p)) (take n (page_list bs)))"
    and "0 < cs \<Longrightarrow> interleaved_read_parse fs path n cs = Some (omap (\<lambda>p. unwrap (page_parse p)) (take n (page_list bs)))"
    and "0 < cs \<Longrightarrow> interleaved_read_parse_nocopy fs path n cs =
      Some (obind (omap (\<lambda>p. unwrap (page_parse p)) (take n (page_list bs)))
        (\<lambda>pages. Ok (map (\<lambda>page. (page_header page, lp_items page)) pages)))"
proof -
  have fd: "open_file fs path = Some fd" and n: "n \<le> length bs div 8192" using assms by (simp_all add: opened_def)
  have "length (take (n * 8192) bs) = n * 8192" using n by (simp add: less_eq_div_iff_mult_less_eq)
  note slices = page_slices [OF this, unfolded page_list_take [OF n]]
  show "bulk_then_parse fs path n = Some (omap (\<lambda>p. unwrap (page_parse p)) (take n (page_list bs)))"
    using read_range_bytes [OF assms, of "128 * 8192" "replicate (n * 8192) 0" 0]
    by (simp add: bulk_then_parse_def fd PAGE_BUFFER_SIZE_value slices)
  show "interleaved_read_parse fs path n cs = Some (omap (\<lambda>p. unwrap (page_parse p)) (take n (page_list bs)))" if "0 < cs"
    using read_chunks_pages [OF assms that, of 0 _ "[]"] by (simp add: interleaved_read_parse_def fd)
  have "length p = 8192" if "p \<in> set (take n (page_list bs))" for p
    using that page_list_sizes by (metis in_set_takeD)
  then have "omap (\<lambda>p. obind (unwrap (page_header_parse p)) (\<lambda>header.
        obind (omap (read_line_pointer p) [0..<num_line_pointers header]) (\<lambda>lp_items. Ok (header, lp_items))))
      (take n (page_list bs)) =
    omap (\<lambda>p. obind (unwrap (page_parse p)) (\<lambda>page. Ok (page_header page, lp_items page))) (take n (page_list bs))"
    by (intro omap_cong parse_without_copy)
  then show "interleaved_read_parse_nocopy fs path n cs =
      Some (obind (omap (\<lambda>p. unwrap (page_parse p)) (take n (page_list bs)))
        (\<lambda>pages. Ok (map (\<lambda>page. (page_header page, lp_items page)) pages)))" if "0 < cs"
    by (simp add: interleaved_read_parse_nocopy_def fd omap_obind_Ok read_chunks_pages [OF assms that])
qed

lemma try_unwrap_no_Err: "(\<And>a. rest a \<noteq> Some (Err e)) \<Longrightarrow> try_run (unwrap m) rest \<noteq> Some (Err e)"
  by (cases m) simp_all

section \<open>Properties\<close>

text \<open>
  The read benchmarks compare like with like: on a file that holds its content and with asynchronous reads
  that complete, every run of every page count returns the first pages of the file, and every run of the sweep
  the same bytes, whatever the chunk; none panics, and none runs for ever.
\<close>

theorem read_benchmarks_agree:
  assumes "get_heap_file_path env = Ok path" and "metadata_len fs path = Ok (length bs)"
    and "open_file fs path = Some fd" and "file_holds fs fd bs" and "aio_reads aio fd bs"
  shows "\<exists>runs sweep. bench_file_read_latency env fs aio = Ok (runs, sweep) \<and>
    (\<forall>(n, results) \<in> set runs. \<forall>(name, r) \<in> set results. r = Some (Ok (take n (page_list bs)))) \<and>
    (\<forall>(ppi, r) \<in> set sweep. r = Some (Ok (take (min 1024 (length bs div 8192) * 8192) bs)))"
proof -
  let ?total = "length bs div 8192"
  have opened: "opened fs path fd bs n" if "n \<le> ?total" for n using assms that by (simp add: opened_def)
  have runs: "\<forall>(name, r) \<in> set (page_runs fs aio path n). r = Some (Ok (take n (page_list bs)))" if "n \<le> ?total" for n
    using opened [OF that] assms(5)
    by (simp add: page_runs_def sequential_pages pread_pages chunked_pages asynchronous_pages)
  have "read_pages_pread_bulk_zerocopy fs path (min 1024 ?total) k = Some (Ok (take (min 1024 ?total * 8192) bs))"
    if "k \<in> set [1, 2, 4, 8, 16, 32, 64, 128]" for k
    using that by (intro chunked_pages(2) [OF opened]) auto
  with runs show ?thesis
    by (simp add: bench_file_read_latency_def assms(1,2) file_page_count_def PAGE_BUFFER_SIZE_value Let_def)
qed

definition sample_config :: "unit config_env" where
  "sample_config = \<lparr>env_var = (\<lambda>_. None), manifest_dir = [], read_to_string = Ok, parse_table = (\<lambda>_. Ok ()),
     value_get = (\<lambda>_ _. Some ()), value_as_str = (\<lambda>_. Some ''/d'')\<rparr>"

definition disk_aio :: "bytes aio_lib" where
  "disk_aio = \<lparr>aio_read = (\<lambda>_. True), aio_error = (\<lambda>_ n. if n = 0 then InProgress else Finished),
     aio_return = (\<lambda>(h, n, off). Some (take n (drop off h))), lio_listio = (\<lambda>_. True)\<rparr>"

lemma disk_aio_reads: "aio_reads disk_aio bs bs"
  by (auto simp: aio_reads_def disk_aio_def intro!: exI [of _ 1])

lemma sample_heap_path: "get_heap_file_path sample_config = Ok ''/d/base/16727/16728''"
  by (simp add: get_heap_file_path_def sample_config_def)

theorem read_benchmarks_agree_witness:
  "\<exists>runs sweep. bench_file_read_latency sample_config (one_file ''/d/base/16727/16728'' (page_data sample_page)) disk_aio =
      Ok (runs, sweep) \<and>
    (\<forall>(n, results) \<in> set runs. \<forall>(name, r) \<in> set results. r = Some (Ok (take n (page_list (page_data sample_page)))))"
  using read_benchmarks_agree [OF sample_heap_path, of "one_file ''/d/base/16727/16728'' (page_data sample_page)"
      "page_data sample_page" "page_data sample_page" disk_aio] disk_aio_reads
  by (fastforce simp: disk_def file_holds_def)

text \<open>
  The parse benchmarks: reading everything and parsing then, and parsing chunk by chunk, return the same
  pages, and parsing without a copy returns their headers and line pointers.
\<close>

theorem parse_benchmarks_agree:
  assumes "get_heap_file_path env = Ok path" and "metadata_len fs path = Ok (length bs)"
    and "open_file fs path = Some fd" and "file_holds fs fd bs"
    and "map page_parse (page_list bs) = map Ok pages"
  shows "\<exists>chunked slices. bench_read_parse_cache env fs = Ok (Some (Ok pages), chunked, slices) \<and>
    (\<forall>(cs, r) \<in> set chunked. r = Some (Ok pages)) \<and>
    (\<forall>(cs, r) \<in> set slices. r = Some (Ok (map (\<lambda>page. (page_header page, lp_items page)) pages)))"
proof -
  have opened: "opened fs path fd bs (length bs div 8192)" using assms by (simp add: opened_def)
  have "omap (\<lambda>p. unwrap (page_parse p)) (page_list bs) = (Ok pages :: heap_page_data list pg_result)"
    using arg_cong [OF assms(5), of "omap unwrap"] by (simp add: omap_map omap_Ok [of "\<lambda>p. p", simplified])
  then show ?thesis
    by (simp add: bench_read_parse_cache_def assms(1,2) file_page_count_def PAGE_BUFFER_SIZE_value Let_def
        parsed_chunks [OF opened])
qed

theorem parse_benchmarks_agree_witness:
  "\<exists>chunked slices. bench_read_parse_cache sample_config (one_file ''/d/base/16727/16728'' (page_data sample_page)) =
    Ok (Some (Ok [sample_page]), chunked, slices)"
  using parse_benchmarks_agree [OF sample_heap_path, of "one_file ''/d/base/16727/16728'' (page_data sample_page)"
      "page_data sample_page" "page_data sample_page" "[sample_page]"]
  by (auto simp: disk_def file_holds_def sample_pages page_parse_def sample_page_parse)

text \<open>
  The benchmark of \<open>fetch_by_limit\<close>, the only one that \<open>criterion_bench.rs\<close> still runs, measures an operation
  that returns no row: when it returns at all, then the empty list.
\<close>

theorem limit_benchmark_fetches_nothing:
  "bench_table_reader_fetch_with_limit fs data_dir \<in> {None, Some Panic, Some (Ok [])}"
proof -
  have "bench_table_reader_fetch_with_limit fs data_dir \<noteq> Some (Err e)" for e
    by (auto simp: bench_table_reader_fetch_with_limit_def bench_fetch_def try_unwrap_no_Err outcome_simps
        split: option.splits prod.splits)
  moreover have "rows = []" if "bench_table_reader_fetch_with_limit fs data_dir = Some (Ok rows)" for rows
    using that by (auto simp: bench_table_reader_fetch_with_limit_def bench_fetch_def outcome_simps
        split: option.splits prod.splits dest!: try_run_Ok fetch_by_limit_empty)
  ultimately show ?thesis
    by (cases "bench_table_reader_fetch_with_limit fs data_dir"; cases "the (bench_table_reader_fetch_with_limit fs data_dir)") auto
qed

end
