(* ===== verification/Spec2Isabelle.thy ===== *)
theory Spec2Isabelle
  imports Page Rows Catalogs Relmap Snapshot BatchRows StreamRuns TableRuns ArrowRows Display
    Visibility ArrowTypes Evolution ScanPlans ArrowView PageTests TableTests FileTests TableProgram Benchmarks
begin

text \<open>
  A verification library for \<open>pg_arrow\<close>, a Rust crate that reads the heap files of a PostgreSQL cluster
  directly from disk, without a server, and turns tables into rows of typed values and into Arrow record
  batches.

  How the program works.  A relation is a sequence of segment files of 1 GiB, each a sequence of pages of
  8 KiB.  \<open>src/file/reader.rs\<close> finds and reads the files; \<open>src/heap\<close> parses a page into its header, its
  line pointers and, through them, its tuples; \<open>src/types/codec.rs\<close> knows the 66 column types and decodes
  one column at an offset; \<open>src/types/pg_type.rs\<close> decodes the rows of the system catalogs, from which
  \<open>src/types/schema.rs\<close> makes the schema of a table; \<open>src/table/mod.rs\<close> ties this together:
  \<open>PgTableReader\<close> bootstraps the catalogs, selects a table and fetches its rows.  A second path, from a page
  to a record batch without rows in between, is in \<open>src/heap/page.rs\<close> (\<open>to_record_batch\<close>) and
  \<open>src/types/arrow.rs\<close> (\<open>ColumnBuilder\<close>), and the streams of \<open>src/file/reader.rs\<close> run it over a relation.

  Conventions.  Bytes are words of 8 bits and integers have the width of the source; \<open>usize\<close> is \<open>nat\<close>, with
  the checks of 64-bit arithmetic written out where a value can reach them.  A fallible function returns
  an \<open>outcome\<close>: \<open>Ok\<close>, \<open>Err\<close> with the error, or \<open>Panic\<close> for every way the code aborts (an index out of
  range, an \<open>unwrap\<close>, an overflow that is checked in debug builds).  A loop that need not end is a
  \<open>partial_function (option)\<close>, so that its result is \<open>None\<close> when it does not; the properties about these
  loops prove that they do.  There is no fuel anywhere.  A Rust \<open>String\<close> is the list of its UTF-8 bytes.

  The theories, from the bottom up:

  \<^item> \<open>Prelude\<close>: machine words, byte strings and their little-endian readers, the \<open>outcome\<close> type with its
    binds, formatting.  \<open>Errors\<close>: \<open>PgError\<close> (\<open>file/error.rs\<close>), \<open>DecodeError\<close> and their texts.  \<open>Utf8\<close>: the
    UTF-8 validation of the standard library, strict and lossy.
  \<^item> \<open>Tuple\<close> (\<open>heap/tuple.rs\<close>): tuple header, null bitmap and \<open>parse_and_build\<close>.  \<open>Page\<close> (\<open>heap/page.rs\<close>):
    page header, line pointers, \<open>parse_bytes\<close>, \<open>get_row_data\<close>.  Their lemmas characterise the parsers as
    the inverses of a layout, and list every error and panic.
  \<^item> \<open>TypeId\<close> and \<open>Codec\<close> (\<open>types/codec.rs\<close>, \<open>types/arrow.rs\<close>): the tables of the 66 types, the decoders of
    fixed and variable-length values, the varlena header, and the two functions that must walk the same
    encoding (\<open>skip_datum\<close>, \<open>extract_column_bytes\<close>).  A reference encoder, \<open>stored_bytes\<close>, states what
    PostgreSQL writes; the decoders are proved to invert it.
  \<^item> \<open>Schema\<close> (\<open>types/schema.rs\<close>, \<open>types/column.rs\<close>) and \<open>Rows\<close> (the row decoders of \<open>table/mod.rs\<close> and the
    column access of \<open>heap/tuple.rs\<close>): the walk over the columns of a tuple, full and projected.  The locale
    \<open>cell_codec\<close> is the contract of one column (a cell that was formed reads back); the walk over a tuple is
    proved once for it and used for values and for catalog rows.
  \<^item> \<open>Catalogs\<close> (\<open>types/pg_type.rs\<close>, \<open>types/catalog.rs\<close>), \<open>Relmap\<close> (\<open>file/relation.rs\<close>) and \<open>Snapshot\<close>
    (\<open>heap/snapshot.rs\<close>): the catalog rows, \<open>pg_filenode.map\<close>, and snapshots with their text form.
  \<^item> \<open>Numerics\<close> and \<open>Batch\<close> (\<open>types/arrow.rs\<close>, \<open>to_record_batch\<close> of \<open>heap/page.rs\<close>): the decimal decoders
    and the page to batch conversion.  \<open>BatchRows\<close> proves that conversion against the row path: the batch of
    a page is the table of the rows of its visible tuples.  \<open>ArrowRows\<close> models the third conversion,
    \<open>PgRow::to_record_batch\<close> of \<open>table/mod.rs\<close>, and proves for every type where it agrees with the second and where not.
  \<^item> \<open>DataDir\<close> (\<open>file/mod.rs\<close>) and \<open>Reader\<close> (\<open>file/reader.rs\<close>): segment paths, the segment walk, bulk reads
    with the cached segment file, the page reader and the row iterator.  \<open>Scans\<close> proves them against the
    relation that is stored: \<open>segment_walk\<close> states how a relation lies in its files, \<open>relation_holds\<close> and
    \<open>reader_at\<close> are the invariants of the two readers.  The locale \<open>item_source\<close> is the contract of an
    iterator towards the loops over it; the row iterator and both streams interpret it.
  \<^item> \<open>Streams\<close> (\<open>file/reader.rs\<close>): \<open>RecordBatchStream\<close>, the parallel converter, \<open>AsyncBatchStream\<close>.
    \<open>StreamRuns\<close>: the locale \<open>page_source\<close> is the contract of a \<open>ChunkReader\<close> towards the streams (a bulk read
    gives the pages asked for), interpreted by the file reader; a stream over a page source is an item
    source, which is a sublocale.  The asynchronous stream is also a transition system (\<open>async_step\<close>) whose
    caller may drop the future while the blocking task runs.
  \<^item> \<open>Tables\<close> (\<open>table/mod.rs\<close>): \<open>PgTableReader\<close>, the catalog bootstrap, the fetch operations, the database
    lookup.  \<open>TableRuns\<close>: what they return on readable files, the reader as a state machine
    (\<open>reader_step\<close>) with its invariant, and a cluster of four one-page files on which they are run.
  \<^item> \<open>Display\<close>: the text forms of tuples, flags, values and rows.  \<open>TableProgram\<close>
    (\<open>examples/table_reader.rs\<close>): the program that prints the first rows of a table, as the lines it prints
    and how it ends; its theorem composes the results from the list of databases to the printer.
    \<open>Benchmarks\<close> (\<open>benches/\<close>): the ways to read and parse a file that the benchmarks compare, which all
    return the same pages.

  Four theories measure the code against what it is meant for:

  \<^item> \<open>Visibility\<close>: the rules of MVCC as PostgreSQL applies them to a tuple header, a snapshot and the
    outcome of transactions, and where \<open>to_record_batch\<close> departs from them: which tuples its test on
    the raw bytes passes and which rows the batch of a page has; on settled tuples they are the visible ones.
  \<^item> \<open>ArrowTypes\<close>: the type of the array that each builder makes against the type that the schema announces;
    a table with a column where they differ never converts.
  \<^item> \<open>Evolution\<close>: tuples stored before \<open>ALTER TABLE ADD COLUMN\<close>, under the new schema.
  \<^item> \<open>ScanPlans\<close>: streams on consecutive page ranges against a scan of the relation, and a stream as a
    state machine (\<open>stream_reach\<close>) whose buffer and position stay within bounds.

  And four hold the unit tests of the crate, as functions of the cluster they run on, with theorems that say on
  which clusters a test passes:

  \<^item> \<open>ArrowView\<close>: the accessors of record batches and arrays that tests use, and the lemma that pages of
    plain columns (the catalogs) convert.  \<open>PageTests\<close> (\<open>heap/page.rs\<close>), \<open>TableTests\<close> (\<open>table/mod.rs\<close>,
    \<open>heap/tuple.rs\<close>), \<open>FileTests\<close> (\<open>file/mod.rs\<close>).

  Parameters.  \<open>file_system\<close> is the operating system: file sizes, opening, positioned reads, seeking; the
  properties assume that an open file is not modified (\<open>file_holds\<close>).  \<open>arrow_lib\<close> is the \<open>arrow\<close> crate: what
  is made of the values appended to a builder (a builder is the log of its appends), \<open>RecordBatch::try_new\<close>,
  and when a fixed-size builder rejects a slice.  \<open>config_env\<close> is the process environment with the \<open>toml\<close>
  crate.  \<open>join_err\<close> is the text of a \<open>JoinError\<close> of the task runtime, \<open>threads\<close> what
  \<open>available_parallelism\<close> returns, \<open>debug_fmt\<close> the derived \<open>Debug\<close> of values (which only appear in error
  texts), and \<open>float_fmt\<close> the printing of floating point numbers.  \<open>xact_files\<close> is the commit log and the
  updater of a multixact, which only the rules of MVCC consult.  \<open>arrow_view\<close> reads arrays and filters batches;
  the hypotheses \<open>checks_types\<close>, \<open>makes_batches\<close>, \<open>reads_arrays\<close> and \<open>filters_batches\<close> state what the
  documentation of Arrow says of these calls, and each has an instance.  \<open>aio_lib\<close> is POSIX
  asynchronous I/O, which only a benchmark uses (\<open>aio_reads\<close>).  A \<open>server_row\<close> is a row as a running
  server answers the query of a test.  Byte order is little-endian.

  Not modelled: logging; capacities of vectors and builders; \<open>read_chunk\<close>, which is \<open>todo!()\<close>; the derived
  \<open>Debug\<close> and \<open>Clone\<close> implementations; the struct \<open>PgAttInfo\<close>, which nothing uses; the module wiring
  (\<open>lib.rs\<close>, \<open>mod.rs\<close> files), the test of \<open>types/mod.rs\<close>, which only prints a schema, the harness that
  starts a server for the tests, and the harness that times the benchmarks.
\<close>

end
